(* ===== verification/Prelude.thy ===== *)
theory Prelude
  imports Main "HOL-Library.Sublist" "HOL-Library.AList"
begin

text \<open>
  Shared vocabulary of the development: a Rust \<open>&str\<close> is the list of its UTF-8 bytes
  (Isabelle's \<open>char\<close> is exactly one byte), a time stamp is a natural number, and the
  functions below are the operations of Rust's standard library that the sources use.
  The two collections hold the facts the component theories share.
\<close>

named_theorems str_simps \<open>facts about the string operations\<close>
named_theorems hm_simps \<open>facts about the hash-map operations\<close>

type_synonym rstr = string
type_synonym instant = nat

abbreviation byte_of :: "char \<Rightarrow> nat" where
  "byte_of c \<equiv> of_char c"

abbreviation contains_str :: "rstr \<Rightarrow> rstr \<Rightarrow> bool" where
  "contains_str s pat \<equiv> sublist pat s"

lemma in_set_map_filter: "y \<in> set (List.map_filter f xs) \<longleftrightarrow> (\<exists>x\<in>set xs. f x = Some y)"
  by (induction xs) (auto simp: List.map_filter_simps split: option.splits)

section \<open>ASCII case and substring replacement\<close>

definition ascii_lower :: "char \<Rightarrow> char" where
  "ascii_lower c = (if 65 \<le> byte_of c \<and> byte_of c \<le> 90 then char_of (byte_of c + 32) else c)"

definition to_ascii_lowercase :: "rstr \<Rightarrow> rstr" where
  "to_ascii_lowercase s = map ascii_lower s"

text \<open>
  \<open>str::replace\<close>: leftmost, non-overlapping. Only non-empty patterns occur in the
  sources (an empty pattern leaves the text alone here).
\<close>

function str_replace :: "rstr \<Rightarrow> rstr \<Rightarrow> rstr \<Rightarrow> rstr" where
  "str_replace pat rep [] = []"
| "str_replace pat rep (c # cs) =
     (if pat \<noteq> [] \<and> prefix pat (c # cs)
      then rep @ str_replace pat rep (drop (length pat) (c # cs))
      else c # str_replace pat rep cs)"
  by pat_completeness auto
termination
  by (relation "measure (\<lambda>(pat, rep, s). length s)") (auto simp: length_greater_0_conv)

declare str_replace.simps(2) [simp del]

lemma ascii_lower_idem: "ascii_lower (ascii_lower c) = ascii_lower c"
proof (cases "65 \<le> byte_of c \<and> byte_of c \<le> 90")
  case True
  then have "byte_of (char_of (byte_of c + 32) :: char) = byte_of c + 32"
    by (simp add: of_char_of)
  with True show ?thesis
    by (simp add: ascii_lower_def)
qed (auto simp: ascii_lower_def)

lemma to_ascii_lowercase_idem [str_simps]:
  "to_ascii_lowercase (to_ascii_lowercase s) = to_ascii_lowercase s"
  by (simp add: to_ascii_lowercase_def ascii_lower_idem)

lemma to_ascii_lowercase_append [str_simps]:
  "to_ascii_lowercase (a @ b) = to_ascii_lowercase a @ to_ascii_lowercase b"
  by (simp add: to_ascii_lowercase_def)

lemma length_to_ascii_lowercase [str_simps]:
  "length (to_ascii_lowercase s) = length s"
  by (simp add: to_ascii_lowercase_def)

lemma sublist_map: "sublist a b \<Longrightarrow> sublist (map f a) (map f b)"
  by (metis map_append sublist_def)

text \<open>
  Replacement facts. \<open>r\<close> is a character every replacement text starts with and no
  pattern contains; then an occurrence of a marker in the output starts outside the
  replacement texts and is an occurrence in the input.
\<close>

lemma prefix_str_replace:
  "r \<notin> set q \<Longrightarrow> rep = r # rs \<Longrightarrow> prefix q (str_replace pat rep s) \<Longrightarrow> prefix q s"
proof (induction pat rep s arbitrary: q rule: str_replace.induct)
  case (1 pat rep)
  then show ?case by simp
next
  case (2 pat rep c cs)
  show ?case
  proof (cases "pat \<noteq> [] \<and> prefix pat (c # cs)")
    case True
    with 2 show ?thesis
      by (cases q) (auto simp: str_replace.simps(2))
  next
    case False
    with 2 show ?thesis
      by (cases q) (auto simp: str_replace.simps(2))
  qed
qed

lemma sublist_skip_prefix:
  assumes "h \<notin> set p" and "sublist (h # t) (p @ s)"
  shows "sublist (h # t) s"
  using assms
proof (induction p)
  case (Cons x p)
  from Cons.prems have "h \<noteq> x" "h \<notin> set p" by auto
  from Cons.prems(2) consider "prefix (h # t) (x # p @ s)" | "sublist (h # t) (p @ s)"
    by (auto simp: sublist_Cons_right)
  then show ?case
  proof cases
    case 1
    with \<open>h \<noteq> x\<close> show ?thesis by simp
  next
    case 2
    with \<open>h \<notin> set p\<close> show ?thesis by (rule Cons.IH)
  qed
qed simp

lemma str_replace_keeps_absent:
  assumes "r \<notin> set (h # t)" and "rep = r # rs" and "h \<notin> set rep"
    and "\<not> sublist (h # t) s"
  shows "\<not> sublist (h # t) (str_replace pat rep s)"
  using assms
proof (induction pat rep s rule: str_replace.induct)
  case (1 pat rep)
  then show ?case by simp
next
  case (2 pat rep c cs)
  show ?case
  proof (cases "pat \<noteq> [] \<and> prefix pat (c # cs)")
    case True
    from 2(6) have "\<not> sublist (h # t) (drop (length pat) (c # cs))"
      using sublist_drop sublist_order.order_trans by blast
    with 2 True have "\<not> sublist (h # t) (str_replace pat rep (drop (length pat) (c # cs)))"
      by blast
    with 2(5) True show ?thesis
      by (auto simp: str_replace.simps(2) dest: sublist_skip_prefix)
  next
    case False
    from 2(6) have ns: "\<not> sublist (h # t) cs" and np: "\<not> prefix (h # t) (c # cs)"
      by (auto simp: sublist_Cons_right)
    from 2(2) [OF False 2(3,4,5) ns]
    have "\<not> sublist (h # t) (str_replace pat rep cs)" .
    moreover have "\<not> prefix (h # t) (c # str_replace pat rep cs)"
    proof
      assume "prefix (h # t) (c # str_replace pat rep cs)"
      then have "h = c" "prefix t (str_replace pat rep cs)" by auto
      from prefix_str_replace [OF _ 2(4) this(2)] 2(3) have "prefix t cs" by auto
      with \<open>h = c\<close> np show False by simp
    qed
    ultimately show ?thesis
      unfolding str_replace.simps(2) [of pat rep c cs] if_not_P [OF False] sublist_Cons_right
      by simp
  qed
qed

lemma str_replace_removes:
  assumes "r \<notin> set (h # t)" and "rep = r # rs" and "h \<notin> set rep"
  shows "\<not> sublist (h # t) (str_replace (h # t) rep s)"
proof (induction s rule: length_induct)
  case (1 s)
  show ?case
  proof (cases s)
    case Nil
    then show ?thesis by simp
  next
    case (Cons c cs)
    show ?thesis
    proof (cases "prefix (h # t) (c # cs)")
      case True
      have "\<not> sublist (h # t) (str_replace (h # t) rep (drop (length t) cs))"
        using 1 Cons by auto
      then have "\<not> sublist (h # t) (rep @ str_replace (h # t) rep (drop (length t) cs))"
        using sublist_skip_prefix [OF assms(3), of t] by metis
      with True Cons show ?thesis
        by (simp add: str_replace.simps(2))
    next
      case False
      have "\<not> sublist (h # t) (str_replace (h # t) rep cs)"
        using 1 Cons by auto
      moreover have "\<not> prefix (h # t) (c # str_replace (h # t) rep cs)"
        using False prefix_str_replace [OF _ assms(2), of t "h # t" cs] assms(1) by auto
      ultimately show ?thesis
        using False Cons by (simp add: str_replace.simps(2) sublist_Cons_right del: Cons_prefix_Cons)
    qed
  qed
qed

end
