(* ===== verification/Utf8.thy ===== *)
theory Utf8
  imports Prelude
begin

text \<open>
  The UTF-8 side of Rust's \<open>str\<close>: validity of a byte list, character boundaries, the
  back-off loop every truncation of the sources runs, Unicode white space as the byte
  sequences that encode it, \<open>trim\<close>, \<open>split\<close> on an ASCII character and
  \<open>split_whitespace\<close>.
\<close>

section \<open>Validity\<close>

definition is_cont :: "char \<Rightarrow> bool" where
  "is_cont c \<longleftrightarrow> 128 \<le> byte_of c \<and> byte_of c < 192"

text \<open>Length of the first encoded character of a byte list, when it is well formed.\<close>

definition utf8_head :: "rstr \<Rightarrow> nat option" where
  "utf8_head s = (case s of [] \<Rightarrow> None | a # r \<Rightarrow>
     (let n = byte_of a in
      if n < 128 then Some 1
      else if 194 \<le> n \<and> n < 224 then
        (case r of b # _ \<Rightarrow> if is_cont b then Some 2 else None | _ \<Rightarrow> None)
      else if 224 \<le> n \<and> n < 240 then
        (case r of b # c # _ \<Rightarrow>
            if is_cont b \<and> is_cont c \<and> (n = 224 \<longrightarrow> 160 \<le> byte_of b) \<and> (n = 237 \<longrightarrow> byte_of b < 160)
            then Some 3 else None
         | _ \<Rightarrow> None)
      else if 240 \<le> n \<and> n \<le> 244 then
        (case r of b # c # d # _ \<Rightarrow>
            if is_cont b \<and> is_cont c \<and> is_cont d \<and> (n = 240 \<longrightarrow> 144 \<le> byte_of b)
               \<and> (n = 244 \<longrightarrow> byte_of b < 144)
            then Some 4 else None
         | _ \<Rightarrow> None)
      else None))"

lemma utf8_head_bounds:
  assumes "utf8_head s = Some n"
  shows "0 < n \<and> n \<le> 4 \<and> n \<le> length s"
  using assms by (auto simp: utf8_head_def Let_def split: list.splits if_splits)

lemma utf8_head_cont:
  assumes "utf8_head s = Some n" and "0 < i" and "i < n"
  shows "is_cont (s ! i)"
proof -
  have "i = 1 \<or> i = 2 \<or> i = 3"
    using utf8_head_bounds [OF assms(1)] assms(2,3) by linarith
  with assms show ?thesis
    by (auto simp: utf8_head_def Let_def nth_Cons' split: list.splits if_splits)
qed

lemma utf8_head_lead:
  assumes "utf8_head s = Some n"
  shows "\<not> is_cont (s ! 0)"
  using assms by (auto simp: utf8_head_def Let_def is_cont_def split: list.splits if_splits)

lemma utf8_head_append:
  assumes "utf8_head s = Some n"
  shows "utf8_head (s @ t) = Some n"
proof -
  consider "s = []" | a where "s = [a]" | a b where "s = [a, b]" | a b c where "s = [a, b, c]"
    | a b c d r where "s = a # b # c # d # r"
    by (metis list.exhaust)
  then show ?thesis
    using assms by cases (auto simp: utf8_head_def Let_def split: if_splits list.splits)
qed

lemma utf8_head_exact:
  assumes "utf8_head s = Some n"
  shows "utf8_head (take n s) = Some n"
proof -
  consider (1) a r where "s = a # r" "n = 1" | (2) a b r where "s = a # b # r" "n = 2"
    | (3) a b c r where "s = a # b # c # r" "n = 3"
    | (4) a b c d r where "s = a # b # c # d # r" "n = 4"
    using assms by (auto simp: utf8_head_def Let_def split: if_splits list.splits)
  then show ?thesis
    using assms by cases (auto simp: utf8_head_def Let_def split: if_splits list.splits)
qed

lemma utf8_head_take:
  assumes "utf8_head s = Some n" and "n \<le> i"
  shows "utf8_head (take i s) = Some n"
proof -
  have "take i s = take n s @ drop n (take i s)"
    using assms(2) by (metis append_take_drop_id min.absorb1 take_take)
  then show ?thesis
    by (metis utf8_head_append utf8_head_exact assms(1))
qed

function utf8_valid :: "rstr \<Rightarrow> bool" where
  "utf8_valid s = (s = [] \<or> (case utf8_head s of None \<Rightarrow> False | Some n \<Rightarrow> utf8_valid (drop n s)))"
  by pat_completeness auto
termination
  by (relation "measure length") (auto dest: utf8_head_bounds)

declare utf8_valid.simps [simp del]

lemma utf8_valid_Nil [simp]: "utf8_valid []"
  by (simp add: utf8_valid.simps)

lemma utf8_valid_step:
  assumes "utf8_valid s" and "s \<noteq> []"
  obtains n where "utf8_head s = Some n" and "utf8_valid (drop n s)"
  using assms by (subst (asm) utf8_valid.simps) (auto split: option.splits)

lemma utf8_valid_stepI: "utf8_head s = Some n \<Longrightarrow> utf8_valid (drop n s) \<Longrightarrow> utf8_valid s"
  by (subst utf8_valid.simps) simp

section \<open>Character boundaries and the back-off loop\<close>

text \<open>\<open>str::is_char_boundary\<close>.\<close>

definition is_char_boundary :: "rstr \<Rightarrow> nat \<Rightarrow> bool" where
  "is_char_boundary s i \<longleftrightarrow> i = 0 \<or> i = length s \<or> (i < length s \<and> \<not> is_cont (s ! i))"

text \<open>\<open>while !s.is_char_boundary(end) { end -= 1; }\<close>; index 0 is always a boundary.\<close>

function back_off :: "rstr \<Rightarrow> nat \<Rightarrow> nat" where
  "back_off s e = (if is_char_boundary s e then e else back_off s (e - 1))"
  by pat_completeness auto
termination
  by (relation "measure snd") (auto simp: is_char_boundary_def)

declare back_off.simps [simp del]

lemma back_off_boundary: "is_char_boundary s (back_off s e)"
  by (induction s e rule: back_off.induct) (simp add: back_off.simps)

lemma back_off_le: "back_off s e \<le> e"
proof (induction s e rule: back_off.induct)
  case (1 s e)
  then show ?case by (subst back_off.simps) (auto intro: le_trans)
qed

lemma back_off_greatest: "is_char_boundary s k \<Longrightarrow> k \<le> e \<Longrightarrow> k \<le> back_off s e"
proof (induction s e rule: back_off.induct)
  case (1 s e)
  show ?case
  proof (cases "is_char_boundary s e")
    case True
    with 1 show ?thesis by (simp add: back_off.simps)
  next
    case False
    with 1 have "k \<noteq> e" by auto
    with 1 False show ?thesis by (simp add: back_off.simps [of s e])
  qed
qed

lemma boundary_drop:
  assumes "utf8_head s = Some n" and "is_char_boundary s i" and "0 < i" and "i \<le> length s"
  shows "n \<le> i \<and> is_char_boundary (drop n s) (i - n)"
proof -
  note b = utf8_head_bounds [OF assms(1)]
  have "n \<le> i"
  proof (rule ccontr)
    assume "\<not> n \<le> i"
    then have "is_cont (s ! i)" "i < length s"
      using utf8_head_cont [OF assms(1), of i] assms(3) b by auto
    with assms(2,3) show False by (auto simp: is_char_boundary_def)
  qed
  with assms b show ?thesis
    by (auto simp: is_char_boundary_def)
qed

lemma utf8_valid_split:
  assumes "utf8_valid s" and "is_char_boundary s i" and "i \<le> length s"
  shows "utf8_valid (take i s) \<and> utf8_valid (drop i s)"
  using assms
proof (induction s arbitrary: i rule: length_induct)
  case (1 s)
  show ?case
  proof (cases "i = 0 \<or> s = []")
    case True
    with 1 show ?thesis by auto
  next
    case False
    then obtain n where n: "utf8_head s = Some n" "utf8_valid (drop n s)"
      using 1(2) utf8_valid_step by blast
    note b = utf8_head_bounds [OF n(1)]
    from boundary_drop [OF n(1) 1(3)] False 1(4)
    have i: "n \<le> i" "is_char_boundary (drop n s) (i - n)" by auto
    have "length (drop n s) < length s" "i - n \<le> length (drop n s)" using b 1(4) by auto
    with 1(1) n(2) i(2)
    have "utf8_valid (take (i - n) (drop n s)) \<and> utf8_valid (drop (i - n) (drop n s))"
      by blast
    with i(1) have "utf8_valid (drop n (take i s))" "utf8_valid (drop i s)"
      by (auto simp: drop_take)
    with utf8_head_take [OF n(1) i(1)] show ?thesis
      using utf8_valid_stepI by blast
  qed
qed

lemma utf8_valid_append:
  assumes "utf8_valid a" and "utf8_valid b"
  shows "utf8_valid (a @ b)"
  using assms
proof (induction a rule: length_induct)
  case (1 a)
  show ?case
  proof (cases "a = []")
    case False
    then obtain n where n: "utf8_head a = Some n" "utf8_valid (drop n a)"
      using 1(2) utf8_valid_step by blast
    with 1 utf8_head_bounds [OF n(1)] have "utf8_valid (drop n a @ b)" by auto
    with n utf8_head_bounds [OF n(1)] have "utf8_valid (drop n (a @ b))" by simp
    with utf8_head_append [OF n(1)] show ?thesis
      using utf8_valid_stepI by blast
  qed (use 1 in auto)
qed

lemma utf8_valid_ascii: "(\<And>c. c \<in> set s \<Longrightarrow> byte_of c < 128) \<Longrightarrow> utf8_valid s"
proof (induction s)
  case (Cons c s)
  then have "utf8_head (c # s) = Some 1" by (simp add: utf8_head_def)
  with Cons show ?case by (auto intro: utf8_valid_stepI)
qed simp

text \<open>In valid text a boundary is never more than three bytes below a given index.\<close>

lemma boundary_near:
  assumes "utf8_valid s" and "e \<le> length s"
  shows "\<exists>k. is_char_boundary s k \<and> k \<le> e \<and> e \<le> k + 3"
  using assms
proof (induction s arbitrary: e rule: length_induct)
  case (1 s)
  show ?case
  proof (cases "s = [] \<or> e < 4")
    case True
    with 1 show ?thesis by (auto simp: is_char_boundary_def intro!: exI [of _ 0])
  next
    case False
    then obtain n where n: "utf8_head s = Some n" "utf8_valid (drop n s)"
      using 1(2) utf8_valid_step by blast
    note b = utf8_head_bounds [OF n(1)]
    have "length (drop n s) < length s" "e - n \<le> length (drop n s)" using b 1(3) by auto
    with 1(1) n(2)
    obtain k where k: "is_char_boundary (drop n s) k" "k \<le> e - n" "e - n \<le> k + 3"
      by blast
    show ?thesis
    proof (cases "k = 0 \<and> n < length s")
      case True
      then have "drop n s \<noteq> []" by auto
      then obtain m where "utf8_head (drop n s) = Some m"
        using n(2) utf8_valid_step by blast
      from utf8_head_lead [OF this] True b have "is_char_boundary s n"
        by (auto simp: is_char_boundary_def)
      with True k b False show ?thesis by (intro exI [of _ n]) auto
    next
      case c: False
      with k b 1(3) False have "is_char_boundary s (n + k)"
        by (auto simp: is_char_boundary_def)
      with k b False show ?thesis by (intro exI [of _ "n + k"]) auto
    qed
  qed
qed

lemma back_off_near:
  assumes "utf8_valid s" and "e \<le> length s"
  shows "e \<le> back_off s e + 3"
  using boundary_near [OF assms] back_off_greatest by fastforce

section \<open>White space\<close>

text \<open>
  The UTF-8 encodings of the code points with the Unicode property White_Space, which is
  what \<open>char::is_whitespace\<close> and the class \<open>\s\<close> of the regex crate test.
\<close>

definition ws_seqs :: "rstr list" where
  "ws_seqs = [[CHR 0x09], [CHR 0x0A], [CHR 0x0B], [CHR 0x0C], [CHR 0x0D], [CHR 0x20],
     [CHR 0xC2, CHR 0x85], [CHR 0xC2, CHR 0xA0], [CHR 0xE1, CHR 0x9A, CHR 0x80],
     [CHR 0xE2, CHR 0x80, CHR 0xA8], [CHR 0xE2, CHR 0x80, CHR 0xA9],
     [CHR 0xE2, CHR 0x80, CHR 0xAF], [CHR 0xE2, CHR 0x81, CHR 0x9F],
     [CHR 0xE3, CHR 0x80, CHR 0x80], [CHR 0xE2, CHR 0x80, CHR 0x80],
     [CHR 0xE2, CHR 0x80, CHR 0x81], [CHR 0xE2, CHR 0x80, CHR 0x82],
     [CHR 0xE2, CHR 0x80, CHR 0x83], [CHR 0xE2, CHR 0x80, CHR 0x84],
     [CHR 0xE2, CHR 0x80, CHR 0x85], [CHR 0xE2, CHR 0x80, CHR 0x86],
     [CHR 0xE2, CHR 0x80, CHR 0x87], [CHR 0xE2, CHR 0x80, CHR 0x88],
     [CHR 0xE2, CHR 0x80, CHR 0x89], [CHR 0xE2, CHR 0x80, CHR 0x8A]]"

definition ws_head :: "rstr \<Rightarrow> nat" where
  "ws_head s = (case filter (\<lambda>w. prefix w s) ws_seqs of [] \<Rightarrow> 0 | w # _ \<Rightarrow> length w)"

definition ws_last :: "rstr \<Rightarrow> nat" where
  "ws_last s = (case filter (\<lambda>w. suffix w s) ws_seqs of [] \<Rightarrow> 0 | w # _ \<Rightarrow> length w)"

lemma ws_head_le: "ws_head s \<le> length s"
  by (auto simp: ws_head_def filter_eq_Cons_iff prefix_length_le split: list.splits)

lemma ws_last_le: "ws_last s \<le> length s"
  by (auto simp: ws_last_def filter_eq_Cons_iff suffix_length_le split: list.splits)

function trim_start :: "rstr \<Rightarrow> rstr" where
  "trim_start s = (if ws_head s = 0 then s else trim_start (drop (ws_head s) s))"
  by pat_completeness auto
termination
proof (relation "measure length")
  fix s assume "ws_head s \<noteq> 0"
  with ws_head_le [of s] show "(drop (ws_head s) s, s) \<in> measure length" by auto
qed simp

declare trim_start.simps [simp del]

function trim_end :: "rstr \<Rightarrow> rstr" where
  "trim_end s = (if ws_last s = 0 then s else trim_end (take (length s - ws_last s) s))"
  by pat_completeness auto
termination
proof (relation "measure length")
  fix s assume "ws_last s \<noteq> 0"
  with ws_last_le [of s] show "(take (length s - ws_last s) s, s) \<in> measure length" by auto
qed simp

declare trim_end.simps [simp del]

definition trim :: "rstr \<Rightarrow> rstr" where
  "trim s = trim_end (trim_start s)"

lemma ws_head_trim_start: "ws_head (trim_start s) = 0"
  by (induction s rule: trim_start.induct) (simp add: trim_start.simps)

lemma ws_last_trim_end: "ws_last (trim_end s) = 0"
  by (induction s rule: trim_end.induct) (simp add: trim_end.simps)

lemma trim_end_prefix: "prefix (trim_end s) s"
proof (induction s rule: trim_end.induct)
  case (1 s)
  then show ?case
    by (subst trim_end.simps) (auto intro: prefix_order.trans take_is_prefix)
qed

lemma trim_start_suffix: "suffix (trim_start s) s"
proof (induction s rule: trim_start.induct)
  case (1 s)
  then show ?case
    by (subst trim_start.simps) (auto intro: suffix_order.trans suffix_drop)
qed

section \<open>Splitting\<close>

text \<open>\<open>s.split(c)\<close> on one ASCII character: always at least one piece.\<close>

fun split_on :: "char \<Rightarrow> rstr \<Rightarrow> rstr list" where
  "split_on c [] = [[]]"
| "split_on c (x # xs) =
     (if x = c then [] # split_on c xs
      else (case split_on c xs of [] \<Rightarrow> [[x]] | w # ws \<Rightarrow> (x # w) # ws))"

text \<open>\<open>s.split_once(c)\<close>.\<close>

definition split_once :: "char \<Rightarrow> rstr \<Rightarrow> (rstr \<times> rstr) option" where
  "split_once c s = (if c \<in> set s
     then Some (takeWhile (\<lambda>x. x \<noteq> c) s, tl (dropWhile (\<lambda>x. x \<noteq> c) s)) else None)"

fun join :: "rstr \<Rightarrow> rstr list \<Rightarrow> rstr" where
  "join sep [] = []"
| "join sep [w] = w"
| "join sep (w # v # ws) = w @ sep @ join sep (v # ws)"

text \<open>\<open>s.split_whitespace()\<close>; \<open>acc\<close> is the word being read.\<close>

function split_ws_from :: "rstr \<Rightarrow> rstr \<Rightarrow> rstr list" where
  "split_ws_from acc s = (if s = [] then (if acc = [] then [] else [acc])
     else if ws_head s = 0 then split_ws_from (acc @ [hd s]) (tl s)
     else (if acc = [] then [] else [acc]) @ split_ws_from [] (drop (ws_head s) s))"
  by pat_completeness auto
termination
  by (relation "measure (\<lambda>(a, s). length s)") (auto intro: diff_less)

declare split_ws_from.simps [simp del]

definition split_whitespace :: "rstr \<Rightarrow> rstr list" where
  "split_whitespace s = split_ws_from [] s"

lemma split_on_nonempty [simp]: "split_on c s \<noteq> []"
  by (cases s) (auto split: list.splits)

lemma split_on_free: "w \<in> set (split_on c s) \<Longrightarrow> c \<notin> set w"
  by (induction c s arbitrary: w rule: split_on.induct) (auto split: list.splits if_splits)

lemma split_on_sub: "w \<in> set (split_on c s) \<Longrightarrow> set w \<subseteq> set s"
  by (induction c s arbitrary: w rule: split_on.induct) (fastforce split: list.splits if_splits)+

lemma join_split_on: "join [c] (split_on c s) = s"
proof (induction c s rule: split_on.induct)
  case (2 c x xs)
  obtain w ws where "split_on c xs = w # ws"
    using split_on_nonempty [of c xs] by (meson neq_Nil_conv)
  with 2 show ?case by (cases ws; cases "x = c") auto
qed simp

lemma split_once_join: "split_once c s = Some (a, b) \<longleftrightarrow> s = a @ c # b \<and> c \<notin> set a"
proof
  assume "split_once c s = Some (a, b)"
  then have "c \<in> set s" "a = takeWhile (\<lambda>x. x \<noteq> c) s" "b = tl (dropWhile (\<lambda>x. x \<noteq> c) s)"
    by (auto simp: split_once_def split: if_splits)
  then show "s = a @ c # b \<and> c \<notin> set a"
    by (induction s arbitrary: a) (auto dest: set_takeWhileD split: if_splits)
next
  assume "s = a @ c # b \<and> c \<notin> set a"
  moreover from this have "takeWhile (\<lambda>x. x \<noteq> c) s = a"
    by (auto simp: takeWhile_append)
  moreover from calculation have "dropWhile (\<lambda>x. x \<noteq> c) s = c # b"
    by (auto simp: dropWhile_append)
  ultimately show "split_once c s = Some (a, b)"
    by (auto simp: split_once_def)
qed

lemma split_ws_from_nonempty: "w \<in> set (split_ws_from acc s) \<Longrightarrow> w \<noteq> []"
proof (induction acc s rule: split_ws_from.induct)
  case (1 acc s)
  from 1(3) show ?case
    by (subst (asm) split_ws_from.simps) (use 1(1,2) in \<open>auto split: if_splits\<close>)
qed

lemma split_whitespace_nonempty: "w \<in> set (split_whitespace s) \<Longrightarrow> w \<noteq> []"
  by (simp add: split_whitespace_def split_ws_from_nonempty)

text \<open>Strings without any byte of a white-space sequence.\<close>

definition ws_free :: "rstr \<Rightarrow> bool" where
  "ws_free s \<longleftrightarrow> list_all (\<lambda>c. c \<notin> set (concat ws_seqs)) s"

lemma ws_seqs_ne: "w \<in> set ws_seqs \<Longrightarrow> w \<noteq> []"
  by (auto simp: ws_seqs_def)

lemma ws_head_free: "c \<notin> set (concat ws_seqs) \<Longrightarrow> ws_head (c # s) = 0"
proof -
  assume c: "c \<notin> set (concat ws_seqs)"
  have "\<not> prefix w (c # s)" if "w \<in> set ws_seqs" for w
  proof
    assume "prefix w (c # s)"
    with ws_seqs_ne [OF that] have "c \<in> set w" by (auto simp: prefix_def Cons_eq_append_conv)
    with that c show False by auto
  qed
  then have "filter (\<lambda>w. prefix w (c # s)) ws_seqs = []" by (auto simp: filter_empty_conv)
  then show ?thesis by (simp add: ws_head_def)
qed

lemma ws_last_free: "c \<notin> set (concat ws_seqs) \<Longrightarrow> ws_last (s @ [c]) = 0"
proof -
  assume c: "c \<notin> set (concat ws_seqs)"
  have "\<not> suffix w (s @ [c])" if "w \<in> set ws_seqs" for w
  proof
    assume "suffix w (s @ [c])"
    then obtain zs where "s @ [c] = zs @ w" by (auto simp: suffix_def)
    with ws_seqs_ne [OF that] have "last w = c" by (metis last_appendR last_snoc)
    with ws_seqs_ne [OF that] have "c \<in> set w" using last_in_set by force
    with that c show False by auto
  qed
  then have "filter (\<lambda>w. suffix w (s @ [c])) ws_seqs = []" by (auto simp: filter_empty_conv)
  then show ?thesis by (simp add: ws_last_def)
qed

lemma ws_Nil [simp]: "ws_head [] = 0" "ws_last [] = 0"
  using ws_head_le [of "[]"] ws_last_le [of "[]"] by simp_all

lemma trim_ws_free: "ws_free s \<Longrightarrow> trim s = s"
proof -
  assume f: "ws_free s"
  have "ws_head s = 0" using f by (cases s) (auto simp: ws_free_def ws_head_free)
  moreover have "ws_last s = 0" using f by (cases s rule: rev_cases) (auto simp: ws_free_def ws_last_free)
  ultimately show ?thesis by (simp add: trim_def trim_start.simps [of s] trim_end.simps [of s])
qed

lemma split_ws_word: "ws_free w \<Longrightarrow> split_ws_from acc (w @ s) = split_ws_from (acc @ w) s"
proof (induction w arbitrary: acc)
  case (Cons c w)
  then have "ws_head (c # w @ s) = 0" by (simp add: ws_free_def ws_head_free)
  with Cons show ?case by (simp add: split_ws_from.simps [of acc "c # w @ s"] ws_free_def)
qed simp

lemma ws_head_blank: "ws_head (CHR '' '' # s) = 1"
  by (simp add: ws_head_def ws_seqs_def)

lemma split_ws_blank:
  "w \<noteq> [] \<Longrightarrow> split_ws_from w (CHR '' '' # s) = w # split_ws_from [] s"
  by (simp add: split_ws_from.simps [of w "CHR '' '' # s"] ws_head_blank)

lemma split_whitespace_words:
  "list_all (\<lambda>w. ws_free w \<and> w \<noteq> []) ws \<Longrightarrow> split_whitespace (join '' '' ws) = ws"
proof (induction ws)
  case (Cons w ws)
  show ?case
  proof (cases ws)
    case Nil
    with Cons.prems split_ws_word [of w "[]" "[]"] show ?thesis
      by (simp add: split_whitespace_def split_ws_from.simps [of w "[]"])
  next
    case (Cons v vs)
    with Cons.IH Cons.prems split_ws_word [of w "[]" "CHR '' '' # join '' '' (v # vs)"] show ?thesis
      by (simp add: split_whitespace_def split_ws_blank)
  qed
qed (simp add: split_whitespace_def split_ws_from.simps)

end
