(* ===== verification/HashMap.thy ===== *)
theory HashMap
  imports Prelude
begin

text \<open>
  \<open>std::collections::HashMap\<close> as an association list with distinct keys: the list is
  one iteration order of the map, so everything the sources do by iterating
  (\<open>retain\<close>, \<open>min_by_key\<close>) is a list operation, and the theorems speak of
  \<open>hm_get\<close> and \<open>hm_len\<close>, which do not depend on the order.
  The locale \<open>bounded_store\<close> is the contract every capped map of the program keeps;
  its clients' lemmas are about sequences of its operations.
\<close>

type_synonym ('k, 'v) hmap = "('k \<times> 'v) list"

section \<open>Operations\<close>

abbreviation hm_get :: "('k, 'v) hmap \<Rightarrow> 'k \<Rightarrow> 'v option" where
  "hm_get \<equiv> map_of"

definition hm_ok :: "('k, 'v) hmap \<Rightarrow> bool" where
  "hm_ok m = distinct (map fst m)"

definition hm_insert :: "('k, 'v) hmap \<Rightarrow> 'k \<Rightarrow> 'v \<Rightarrow> ('k, 'v) hmap" where
  "hm_insert m k v = AList.update k v m"

definition hm_remove :: "('k, 'v) hmap \<Rightarrow> 'k \<Rightarrow> ('k, 'v) hmap" where
  "hm_remove m k = AList.delete k m"

definition hm_retain :: "('k \<Rightarrow> 'v \<Rightarrow> bool) \<Rightarrow> ('k, 'v) hmap \<Rightarrow> ('k, 'v) hmap" where
  "hm_retain P m = filter (\<lambda>(k, v). P k v) m"

definition hm_contains :: "('k, 'v) hmap \<Rightarrow> 'k \<Rightarrow> bool" where
  "hm_contains m k = (hm_get m k \<noteq> None)"

definition hm_keys :: "('k, 'v) hmap \<Rightarrow> 'k list" where
  "hm_keys m = map fst m"

abbreviation hm_len :: "('k, 'v) hmap \<Rightarrow> nat" where
  "hm_len \<equiv> length"

text \<open>\<open>iter().min_by_key(f)\<close>: the first of the least ones.\<close>

fun min_by_key :: "('a \<Rightarrow> 'b::linorder) \<Rightarrow> 'a list \<Rightarrow> 'a option" where
  "min_by_key f [] = None"
| "min_by_key f (x # xs) =
     (case min_by_key f xs of None \<Rightarrow> Some x | Some y \<Rightarrow> if f y < f x then Some y else Some x)"

section \<open>Facts\<close>

lemma hm_ok_Nil [simp]: "hm_ok []"
  by (simp add: hm_ok_def)

lemma hm_ok_insert [hm_simps]: "hm_ok m \<Longrightarrow> hm_ok (hm_insert m k v)"
  by (simp add: hm_ok_def hm_insert_def distinct_update)

lemma hm_ok_remove [hm_simps]: "hm_ok m \<Longrightarrow> hm_ok (hm_remove m k)"
  by (simp add: hm_ok_def hm_remove_def distinct_delete)

lemma hm_ok_retain [hm_simps]: "hm_ok m \<Longrightarrow> hm_ok (hm_retain P m)"
  unfolding hm_ok_def hm_retain_def by (rule distinct_map_filter)

lemma hm_get_insert [hm_simps]: "hm_get (hm_insert m k v) i = (if i = k then Some v else hm_get m i)"
  by (simp add: hm_insert_def update_conv')

lemma hm_get_remove [hm_simps]: "hm_get (hm_remove m k) i = (if i = k then None else hm_get m i)"
  by (simp add: hm_remove_def delete_conv' fun_upd_apply)

lemma hm_get_in: "hm_ok m \<Longrightarrow> hm_get m k = Some v \<longleftrightarrow> (k, v) \<in> set m"
  unfolding hm_ok_def by (rule map_of_eq_Some_iff)

lemma hm_get_retain [hm_simps]:
  assumes "hm_ok m"
  shows "hm_get (hm_retain P m) k =
    (case hm_get m k of None \<Rightarrow> None | Some v \<Rightarrow> if P k v then Some v else None)"
proof -
  have eq: "hm_get (hm_retain P m) k = Some v \<longleftrightarrow> hm_get m k = Some v \<and> P k v" for v
    unfolding hm_get_in [OF assms] hm_get_in [OF hm_ok_retain [OF assms]]
    by (auto simp: hm_retain_def)
  show ?thesis
  proof (cases "hm_get (hm_retain P m) k")
    case None
    with eq show ?thesis by (cases "hm_get m k") auto
  next
    case (Some v)
    with eq [of v] show ?thesis by simp
  qed
qed

lemma hm_contains_iff [hm_simps]: "hm_contains m k \<longleftrightarrow> k \<in> fst ` set m"
  by (simp add: hm_contains_def map_of_eq_None_iff)

lemma hm_len_insert [hm_simps]:
  "hm_len (hm_insert m k v) = (if hm_get m k = None then Suc (hm_len m) else hm_len m)"
  by (induction m) (auto simp: hm_insert_def)

lemma hm_len_remove_le [hm_simps]: "hm_len (hm_remove m k) \<le> hm_len m"
  by (simp add: hm_remove_def length_delete_le)

lemma hm_len_remove:
  assumes "hm_get m k \<noteq> None"
  shows "hm_len (hm_remove m k) < hm_len m"
  using assms
proof (induction m)
  case (Cons p m)
  then show ?case
    using length_delete_le [of k m] by (cases p) (auto simp: hm_remove_def split: if_splits)
qed simp

lemma hm_len_retain_le [hm_simps]: "hm_len (hm_retain P m) \<le> hm_len m"
  by (simp add: hm_retain_def)

lemma min_by_key_None: "min_by_key f xs = None \<longleftrightarrow> xs = []"
  by (cases xs) (auto split: option.splits)

lemma min_by_key_least:
  "min_by_key f xs = Some x \<Longrightarrow> x \<in> set xs \<and> (\<forall>y\<in>set xs. f x \<le> f y)"
proof (induction xs arbitrary: x)
  case (Cons a xs)
  show ?case
  proof (cases "min_by_key f xs")
    case None
    with Cons show ?thesis by (simp add: min_by_key_None)
  next
    case (Some y)
    with Cons.IH [OF this] Cons.prems show ?thesis
      by (auto split: if_splits)
  qed
qed simp

section \<open>The contract of a capped map\<close>

text \<open>
  A capped map offers a lookup, an insertion that keeps the size under its cap (making
  room by dropping what it likes), and other steps that only drop entries. The contract:
  what was just inserted is found, nothing is invented, the cap is kept.
\<close>

locale bounded_store =
  fixes look :: "'s \<Rightarrow> 'k \<Rightarrow> 'v option"
    and put :: "'s \<Rightarrow> 'k \<Rightarrow> 'v \<Rightarrow> 's"
    and size_of :: "'s \<Rightarrow> nat"
    and ok :: "'s \<Rightarrow> bool"
    and cap :: nat
  assumes put_ok: "ok s \<Longrightarrow> ok (put s k v)"
    and put_size: "ok s \<Longrightarrow> size_of s \<le> cap \<Longrightarrow> size_of (put s k v) \<le> cap"
    and look_put: "ok s \<Longrightarrow> look (put s k v) k = Some v"
    and look_put_other: "ok s \<Longrightarrow> i \<noteq> k \<Longrightarrow> look (put s k v) i = Some w \<Longrightarrow> look s i = Some w"
begin

lemma puts_ok: "ok s \<Longrightarrow> ok (foldl (\<lambda>s (k, v). put s k v) s kvs)"
  by (induction kvs arbitrary: s) (auto intro: put_ok)

lemma puts_size:
  "ok s \<Longrightarrow> size_of s \<le> cap \<Longrightarrow> size_of (foldl (\<lambda>s (k, v). put s k v) s kvs) \<le> cap"
  by (induction kvs arbitrary: s) (auto intro: put_ok put_size)

lemma puts_look:
  "ok s \<Longrightarrow> look (foldl (\<lambda>s (k, v). put s k v) s kvs) i = Some w
    \<Longrightarrow> look s i = Some w \<or> (i, w) \<in> set kvs"
proof (induction kvs arbitrary: s)
  case (Cons kv kvs)
  obtain k v where [simp]: "kv = (k, v)" by (cases kv)
  from Cons.IH [of "put s k v"] Cons.prems
  have "look (put s k v) i = Some w \<or> (i, w) \<in> set kvs" by (simp add: put_ok)
  with Cons.prems(1) show ?case
    using look_put look_put_other by (cases "i = k") auto
qed simp

text \<open>The last write of a sequence is never lost to the eviction it may cause.\<close>

lemma puts_last:
  "ok s \<Longrightarrow> look (foldl (\<lambda>s (k, v). put s k v) s (kvs @ [(k, v)])) k = Some v"
  by (simp add: puts_ok look_put)

end

lemma hm_min_present:
  assumes "hm_ok m" and "min_by_key f m = Some (k, v)"
  shows "hm_get m k = Some v"
  using assms min_by_key_least by (fastforce simp: hm_get_in)

end
