(* ===== verification/TtlMap.thy ===== *)
theory TtlMap
  imports HashMap
begin

text \<open>
  The contract of a capped map that refuses rather than evicts: an insertion into a full map first
  drops what has expired and then, if the map is still full, is refused. Both pending maps of the
  setup flow promise it; the lemmas are about runs of insertions.
\<close>

locale ttl_map =
  fixes ins :: "instant \<Rightarrow> ('k, 'v) hmap \<Rightarrow> 'k \<Rightarrow> 'v \<Rightarrow> bool \<times> ('k, 'v) hmap"
    and fresh :: "instant \<Rightarrow> 'v \<Rightarrow> bool"
    and cap :: nat
  assumes ins_ok: "hm_ok m \<Longrightarrow> hm_ok (snd (ins t m k v))"
    and ins_cap: "length m \<le> cap \<Longrightarrow> length (snd (ins t m k v)) \<le> cap"
    and ins_found: "fst (ins t m k v) \<Longrightarrow> hm_get (snd (ins t m k v)) k = Some v"
    and ins_keep: "hm_ok m \<Longrightarrow> hm_get m i = Some w \<Longrightarrow> i \<noteq> k \<Longrightarrow> fresh t w
      \<Longrightarrow> hm_get (snd (ins t m k v)) i = Some w"
    and ins_only: "hm_ok m \<Longrightarrow> hm_get (snd (ins t m k v)) i = Some w
      \<Longrightarrow> hm_get m i = Some w \<or> (fst (ins t m k v) \<and> i = k \<and> w = v)"
    and ins_refuse: "\<not> fst (ins t m k v) \<Longrightarrow> cap \<le> length (filter (fresh t \<circ> snd) m)"
    and fresh_mono: "fresh t w \<Longrightarrow> t' \<le> t \<Longrightarrow> fresh t' w"
begin

definition run :: "('k, 'v) hmap \<Rightarrow> (instant \<times> 'k \<times> 'v) list \<Rightarrow> ('k, 'v) hmap" where
  "run m cs = foldl (\<lambda>m (t, k, v). snd (ins t m k v)) m cs"

lemma run_simps [simp]:
  "run m [] = m" "run m ((t, k, v) # cs) = run (snd (ins t m k v)) cs"
  by (simp_all add: run_def)

lemma run_cap: "length m \<le> cap \<Longrightarrow> length (run m cs) \<le> cap"
proof (induction cs arbitrary: m)
  case (Cons c cs)
  then show ?case by (cases c) (simp add: ins_cap)
qed simp

lemma run_keep:
  "hm_ok m \<Longrightarrow> hm_get m i = Some w \<Longrightarrow> \<forall>(t, k, v)\<in>set cs. k \<noteq> i \<and> t \<le> now \<Longrightarrow> fresh now w
    \<Longrightarrow> hm_get (run m cs) i = Some w"
proof (induction cs arbitrary: m)
  case (Cons c cs)
  obtain t k v where c: "c = (t, k, v)" by (cases c)
  with Cons.prems have "k \<noteq> i" "fresh t w" by (auto intro: fresh_mono)
  with Cons.prems have "hm_get (snd (ins t m k v)) i = Some w" by (auto intro!: ins_keep)
  with Cons c show ?case by (simp add: ins_ok)
qed simp

lemma run_only:
  "hm_ok m \<Longrightarrow> hm_get (run m cs) i = Some w \<Longrightarrow> hm_get m i = Some w \<or> (\<exists>t. (t, i, w) \<in> set cs)"
proof (induction cs arbitrary: m)
  case (Cons c cs)
  obtain t k v where c: "c = (t, k, v)" by (cases c)
  from Cons.IH [of "snd (ins t m k v)"] Cons.prems c
  have "hm_get (snd (ins t m k v)) i = Some w \<or> (\<exists>t. (t, i, w) \<in> set cs)" by (simp add: ins_ok)
  with ins_only [OF Cons.prems(1)] c show ?case by fastforce
qed simp

end

text \<open>The shape both source functions have.\<close>

definition refuse_when_full ::
  "(instant \<Rightarrow> ('k, 'v) hmap \<Rightarrow> ('k, 'v) hmap) \<Rightarrow> nat \<Rightarrow> instant \<Rightarrow> ('k, 'v) hmap \<Rightarrow> 'k \<Rightarrow> 'v
     \<Rightarrow> bool \<times> ('k, 'v) hmap" where
  "refuse_when_full prn cap now m k v =
     (let m = (if cap \<le> length m then prn now m else m)
      in if cap \<le> length m then (False, m) else (True, hm_insert m k v))"

lemma ttl_map_refuse_when_full:
  assumes prn: "\<And>t m. prn t m = hm_retain (\<lambda>_ v. t - born v < life) m"
  shows "ttl_map (refuse_when_full prn cap) (\<lambda>t v. t - born v < life) cap"
proof unfold_locales
  fix t t' m k v i w
  let ?r = "refuse_when_full prn cap t m k v"
  show "length m \<le> cap \<Longrightarrow> length (snd ?r) \<le> cap"
    using hm_len_retain_le [of "\<lambda>_ v. t - born v < life" m]
    by (auto simp: refuse_when_full_def Let_def prn hm_len_insert)
  show "fst ?r \<Longrightarrow> hm_get (snd ?r) k = Some v"
    by (auto simp: refuse_when_full_def Let_def hm_simps split: if_splits)
  show "\<not> fst ?r \<Longrightarrow> cap \<le> length (filter ((\<lambda>v. t - born v < life) \<circ> snd) m)"
    by (auto simp: refuse_when_full_def Let_def prn hm_retain_def comp_def case_prod_unfold split: if_splits)
  assume ok: "hm_ok m"
  then show "hm_ok (snd ?r)" by (simp add: refuse_when_full_def Let_def prn hm_simps)
  show "hm_get m i = Some w \<Longrightarrow> i \<noteq> k \<Longrightarrow> t - born w < life \<Longrightarrow> hm_get (snd ?r) i = Some w"
    using ok by (simp add: refuse_when_full_def Let_def prn hm_simps)
  show "hm_get (snd ?r) i = Some w \<Longrightarrow> hm_get m i = Some w \<or> (fst ?r \<and> i = k \<and> w = v)"
    using ok by (auto simp: refuse_when_full_def Let_def prn hm_simps split: if_splits option.splits)
next
  fix t t' w
  show "t - born w < life \<Longrightarrow> t' \<le> t \<Longrightarrow> t' - born w < life" by simp
qed

end
