(* ===== verification/Json.thy ===== *)
theory Json
  imports HashMap
begin

text \<open>
  \<open>serde_json::Value\<close> with the accessors the sources use. An object is a map from
  member names; a number is an integer or the text of a number with a fraction or exponent.
\<close>

datatype json = JNull | JBool bool | JInt int | JFloat rstr | JStr rstr
  | JArr "json list" | JObj "(rstr, json) hmap"

fun jget :: "json \<Rightarrow> rstr \<Rightarrow> json option" where
  "jget (JObj m) k = hm_get m k"
| "jget _ k = None"

fun as_str :: "json \<Rightarrow> rstr option" where
  "as_str (JStr s) = Some s"
| "as_str _ = None"

fun as_bool :: "json \<Rightarrow> bool option" where
  "as_bool (JBool b) = Some b"
| "as_bool _ = None"

fun as_u64 :: "json \<Rightarrow> nat option" where
  "as_u64 (JInt n) = (if 0 \<le> n \<and> n < 2 ^ 64 then Some (nat n) else None)"
| "as_u64 _ = None"

fun as_i64 :: "json \<Rightarrow> int option" where
  "as_i64 (JInt n) = (if - (2 ^ 63) \<le> n \<and> n < 2 ^ 63 then Some n else None)"
| "as_i64 _ = None"

fun as_array :: "json \<Rightarrow> json list option" where
  "as_array (JArr xs) = Some xs"
| "as_array _ = None"

fun as_object :: "json \<Rightarrow> (rstr, json) hmap option" where
  "as_object (JObj m) = Some m"
| "as_object _ = None"

text \<open>\<open>v.get(a).and_then(get b)...\<close>: a path of member names.\<close>

fun jpath :: "json \<Rightarrow> rstr list \<Rightarrow> json option" where
  "jpath v [] = Some v"
| "jpath v (k # ks) = (case jget v k of None \<Rightarrow> None | Some w \<Rightarrow> jpath w ks)"

definition jstr_at :: "json \<Rightarrow> rstr list \<Rightarrow> rstr option" where
  "jstr_at v ks = Option.bind (jpath v ks) as_str"

text \<open>A path is followed one member at a time; the last lookup is kept folded.\<close>

lemma jstr_at_Cons2: "jstr_at v (k # l # ks) = Option.bind (jget v k) (\<lambda>w. jstr_at w (l # ks))"
  by (auto simp: jstr_at_def split: option.splits)

lemma jpath_two: "jpath v [k, l] = Option.bind (jget v k) (\<lambda>w. jget w l)"
  by (auto split: option.splits)

lemma jstr_at_Some: "jstr_at v ks = Some s \<longleftrightarrow> jpath v ks = Some (JStr s)"
proof -
  have "as_str w = Some s \<longleftrightarrow> w = JStr s" for w by (cases w) auto
  then show ?thesis by (auto simp: jstr_at_def bind_eq_Some_conv)
qed

end
