(* ===== verification/ContentSandbox.thy ===== *)
theory ContentSandbox
  imports Prelude
begin

text \<open>
  \<open>src/content_sandbox.rs\<close>: the wrapping of message bodies in a
  \<open>matrix:message\<close> delimiter, the escaping of role tokens and delimiters, the escaping of
  attribute values and the injection heuristic. The functions are the source's, table by
  table and in the order of its \<open>replace\<close> calls.
\<close>

section \<open>Marker tables\<close>

definition ANGLE_ROLE_TOKENS :: "rstr list" where
  "ANGLE_ROLE_TOKENS = [''<system>'', ''</system>'', ''<assistant>'', ''</assistant>'',
     ''<user>'', ''</user>'', ''<|im_start|>'', ''<|im_end|>'']"

definition BRACKET_ROLE_TOKENS :: "rstr list" where
  "BRACKET_ROLE_TOKENS = [''[INST]'', ''[/INST]'']"

definition INSTRUCTION_OVERRIDE_PHRASES :: "rstr list" where
  "INSTRUCTION_OVERRIDE_PHRASES = [''ignore previous instructions'',
     ''ignore the previous instructions'', ''ignore prior instructions'',
     ''ignore your instructions'', ''disregard previous instructions'',
     ''disregard the previous instructions'', ''disregard prior instructions'',
     ''forget previous instructions'', ''new instructions:'', ''system prompt:'']"

definition SUSPICIOUS_ROLE_MARKERS :: "rstr list" where
  "SUSPICIOUS_ROLE_MARKERS = [''</channel'', ''<channel'', ''<system>'', ''</system>'',
     ''<assistant>'', ''</assistant>'', ''<|im_start|>'', ''<|im_end|>'', ''[inst]'', ''[/inst]'']"

section \<open>Escaping and wrapping\<close>

text \<open>The two loops: replace each token by the given escape of it, when it occurs.\<close>

definition replace_token :: "(rstr \<Rightarrow> rstr) \<Rightarrow> rstr \<Rightarrow> rstr \<Rightarrow> rstr" where
  "replace_token esc s tok = (if contains_str s tok then str_replace tok (esc tok) s else s)"

definition angle_escape :: "rstr \<Rightarrow> rstr" where
  "angle_escape tok = str_replace ''>'' ''&gt;'' (str_replace ''<'' ''&lt;'' tok)"

definition bracket_escape :: "rstr \<Rightarrow> rstr" where
  "bracket_escape tok = str_replace '']'' ''&#93;'' (str_replace ''['' ''&#91;'' tok)"

definition escape_injection_markers :: "rstr \<Rightarrow> rstr" where
  "escape_injection_markers body =
     (let s = str_replace ''</matrix:message>'' ''&lt;/matrix:message&gt;'' body;
          s = str_replace ''</matrix:message'' ''&lt;/matrix:message'' s;
          s = str_replace ''<matrix:message'' ''&lt;matrix:message'' s;
          s = str_replace ''</channel>'' ''&lt;/channel&gt;'' s;
          s = str_replace ''</channel'' ''&lt;/channel'' s;
          s = str_replace ''<channel'' ''&lt;channel'' s;
          s = foldl (replace_token angle_escape) s ANGLE_ROLE_TOKENS
      in foldl (replace_token bracket_escape) s BRACKET_ROLE_TOKENS)"

definition attr_escape_char :: "char \<Rightarrow> rstr" where
  "attr_escape_char ch =
     (if ch = CHR ''&'' then ''&amp;'' else if ch = CHR 0x22 then ''&quot;''
      else if ch = CHR 0x27 then ''&#39;'' else if ch = CHR ''<'' then ''&lt;''
      else if ch = CHR ''>'' then ''&gt;'' else [ch])"

definition attr_escape :: "rstr \<Rightarrow> rstr" where
  "attr_escape s = concat (map attr_escape_char s)"

abbreviation unwrap_or_empty :: "rstr option \<Rightarrow> rstr" where
  "unwrap_or_empty x \<equiv> case_option [] (\<lambda>s. s) x"

definition wrap_head :: "rstr option \<Rightarrow> rstr option \<Rightarrow> rstr option \<Rightarrow> rstr" where
  "wrap_head room_id sender event_id =
     ''<matrix:message room='' @ [CHR 0x22] @ attr_escape (unwrap_or_empty room_id) @ [CHR 0x22]
     @ '' sender='' @ [CHR 0x22] @ attr_escape (unwrap_or_empty sender) @ [CHR 0x22]
     @ '' id='' @ [CHR 0x22] @ attr_escape (unwrap_or_empty event_id) @ [CHR 0x22]
     @ '' trust='' @ [CHR 0x22] @ ''external'' @ [CHR 0x22] @ ''>''"

definition wrap_body :: "rstr option \<Rightarrow> rstr option \<Rightarrow> rstr option \<Rightarrow> rstr \<Rightarrow> rstr" where
  "wrap_body room_id sender event_id body =
     wrap_head room_id sender event_id @ [CHR 0x0A] @ escape_injection_markers body
       @ [CHR 0x0A] @ ''</matrix:message>''"

section \<open>The heuristic and the verdict\<close>

definition is_suspicious :: "rstr \<Rightarrow> bool" where
  "is_suspicious body =
     (let lower = to_ascii_lowercase body in
      if list_ex (contains_str lower) INSTRUCTION_OVERRIDE_PHRASES then True
      else if list_ex (contains_str lower) SUSPICIOUS_ROLE_MARKERS then True
      else if contains_str lower ''</matrix:message'' \<or> contains_str lower ''<matrix:message ''
      then True else False)"

record Verdict =
  wrapped :: rstr
  suspicious :: bool

definition evaluate :: "rstr option \<Rightarrow> rstr option \<Rightarrow> rstr option \<Rightarrow> rstr \<Rightarrow> Verdict" where
  "evaluate room_id sender event_id body =
     \<lparr>wrapped = wrap_body room_id sender event_id body, suspicious = is_suspicious body\<rparr>"

section \<open>Markers cannot survive the escape\<close>

text \<open>Number of positions at which a marker occurs.\<close>

fun occurrences :: "rstr \<Rightarrow> rstr \<Rightarrow> nat" where
  "occurrences pat [] = 0"
| "occurrences pat (c # cs) = (if prefix pat (c # cs) then 1 else 0) + occurrences pat cs"

definition forbidden_markers :: "rstr list" where
  "forbidden_markers = [''</matrix:message'', ''<matrix:message'', ''</channel'', ''<channel'']
     @ ANGLE_ROLE_TOKENS @ BRACKET_ROLE_TOKENS"

text \<open>
  Every marker starts with a bracket that no replacement text contains, and no marker
  contains the ampersand every replacement text starts with.
\<close>

definition escape_safe :: "rstr \<Rightarrow> bool" where
  "escape_safe rep \<longleftrightarrow> rep \<noteq> [] \<and> hd rep = CHR ''&'' \<and> CHR ''<'' \<notin> set rep \<and> CHR ''['' \<notin> set rep"

definition marker :: "rstr \<Rightarrow> bool" where
  "marker m \<longleftrightarrow> m \<noteq> [] \<and> (hd m = CHR ''<'' \<or> hd m = CHR ''['') \<and> CHR ''&'' \<notin> set m"

lemma replace_keeps_marker_absent:
  assumes "marker m" and "escape_safe rep" and "\<not> contains_str s m"
  shows "\<not> contains_str (str_replace pat rep s) m"
proof -
  obtain h t where m: "m = h # t" "h = CHR ''<'' \<or> h = CHR ''[''" "CHR ''&'' \<notin> set (h # t)"
    using assms(1) by (cases m) (auto simp: marker_def)
  obtain rs where r: "rep = CHR ''&'' # rs" "h \<notin> set rep"
    using assms(2) m(2) by (cases rep) (auto simp: escape_safe_def)
  from str_replace_keeps_absent [OF m(3) r] assms(3) m(1) show ?thesis by blast
qed

lemma replace_removes_marker:
  assumes "marker m" and "escape_safe rep"
  shows "\<not> contains_str (str_replace m rep s) m"
proof -
  obtain h t where m: "m = h # t" "h = CHR ''<'' \<or> h = CHR ''[''" "CHR ''&'' \<notin> set (h # t)"
    using assms(1) by (cases m) (auto simp: marker_def)
  obtain rs where r: "rep = CHR ''&'' # rs" "h \<notin> set rep"
    using assms(2) m(2) by (cases rep) (auto simp: escape_safe_def)
  from str_replace_removes [OF m(3) r] m(1) show ?thesis by blast
qed

lemma replace_token_keeps_absent:
  "marker m \<Longrightarrow> escape_safe (esc tok) \<Longrightarrow> \<not> contains_str s m
    \<Longrightarrow> \<not> contains_str (replace_token esc s tok) m"
  by (simp add: replace_token_def replace_keeps_marker_absent)

lemma replace_token_removes:
  "marker m \<Longrightarrow> escape_safe (esc m) \<Longrightarrow> \<not> contains_str (replace_token esc s m) m"
  by (simp add: replace_token_def replace_removes_marker)

lemma replace_tokens_keep_absent:
  "marker m \<Longrightarrow> \<forall>tok\<in>set toks. escape_safe (esc tok) \<Longrightarrow> \<not> contains_str s m
    \<Longrightarrow> \<not> contains_str (foldl (replace_token esc) s toks) m"
  by (induction toks arbitrary: s) (auto simp: replace_token_keeps_absent)

lemma replace_tokens_remove:
  "marker m \<Longrightarrow> \<forall>tok\<in>set toks. escape_safe (esc tok) \<Longrightarrow> m \<in> set toks
    \<Longrightarrow> \<not> contains_str (foldl (replace_token esc) s toks) m"
proof (induction toks arbitrary: s)
  case (Cons tok toks)
  show ?case
  proof (cases "tok = m")
    case True
    with Cons.prems have "\<not> contains_str (replace_token esc s tok) m"
      by (simp add: replace_token_removes)
    with Cons.prems show ?thesis
      by (simp add: replace_tokens_keep_absent)
  qed (use Cons in auto)
qed simp

lemma angle_tokens_safe: "\<forall>tok\<in>set ANGLE_ROLE_TOKENS. marker tok \<and> escape_safe (angle_escape tok)"
  by code_simp

lemma bracket_tokens_safe:
  "\<forall>tok\<in>set BRACKET_ROLE_TOKENS. marker tok \<and> escape_safe (bracket_escape tok)"
  by code_simp

lemma forbidden_markers_are_markers: "m \<in> set forbidden_markers \<Longrightarrow> marker m"
proof -
  have "list_all marker forbidden_markers" by code_simp
  then show "m \<in> set forbidden_markers \<Longrightarrow> marker m" by (simp add: list_all_iff)
qed

lemma wrap_replacements_safe:
  "escape_safe ''&lt;/matrix:message&gt;''" "escape_safe ''&lt;/matrix:message''"
  "escape_safe ''&lt;matrix:message''" "escape_safe ''&lt;/channel&gt;''"
  "escape_safe ''&lt;/channel''" "escape_safe ''&lt;channel''"
  by code_simp+

lemmas escape_absent = replace_keeps_marker_absent replace_removes_marker
  replace_tokens_keep_absent replace_tokens_remove wrap_replacements_safe
  angle_tokens_safe bracket_tokens_safe

lemma delimiter_absent:
  assumes "m \<in> {''</matrix:message'', ''<matrix:message'', ''</channel'', ''<channel''}"
  shows "\<not> contains_str (escape_injection_markers body) m"
proof -
  have mk: "marker m"
    using assms by (intro forbidden_markers_are_markers) (auto simp: forbidden_markers_def)
  with assms show ?thesis
    unfolding escape_injection_markers_def Let_def
    by (elim insertE emptyE) (simp_all add: escape_absent)
qed

lemma role_token_absent:
  assumes "m \<in> set ANGLE_ROLE_TOKENS \<union> set BRACKET_ROLE_TOKENS"
  shows "\<not> contains_str (escape_injection_markers body) m"
  using assms
proof
  assume "m \<in> set ANGLE_ROLE_TOKENS"
  with angle_tokens_safe bracket_tokens_safe show ?thesis
    unfolding escape_injection_markers_def Let_def
    by (intro replace_tokens_keep_absent replace_tokens_remove) auto
next
  assume "m \<in> set BRACKET_ROLE_TOKENS"
  with bracket_tokens_safe show ?thesis
    unfolding escape_injection_markers_def Let_def
    by (intro replace_tokens_remove) auto
qed

text \<open>C15: whatever the body, its escaped form contains none of the sandbox's delimiters (opening
  or closing, with any trailing characters), none of the channel delimiters and none of the role
  tokens.\<close>

theorem escaped_body_has_no_markers:
  "list_all (\<lambda>m. \<not> contains_str (escape_injection_markers body) m) forbidden_markers"
  using delimiter_absent role_token_absent
  by (auto simp: list_all_iff forbidden_markers_def)

section \<open>The frame of a wrapped body\<close>

lemma occurrences_absent: "occurrences pat s = 0 \<longleftrightarrow> pat = [] \<and> s = [] \<or> pat \<noteq> [] \<and> \<not> contains_str s pat"
  by (induction s) (auto simp: sublist_Cons_right prefix_def)

text \<open>A character that is not in the pattern separates its occurrences.\<close>

lemma occurrences_separated:
  "c \<notin> set pat \<Longrightarrow> pat \<noteq> [] \<Longrightarrow> occurrences pat (a @ c # b) = occurrences pat a + occurrences pat b"
proof (induction a)
  case Nil
  then show ?case by (cases pat) auto
next
  case (Cons x a)
  have "prefix pat (x # a @ c # b) \<longleftrightarrow> prefix pat (x # a)"
  proof
    assume "prefix pat (x # a @ c # b)"
    then have "prefix pat ((x # a) @ c # b)" by simp
    then consider "prefix pat (x # a)" | us where "pat = (x # a) @ us" "prefix us (c # b)"
      unfolding prefix_append by blast
    then show "prefix pat (x # a)"
    proof cases
      case 2
      with Cons.prems(1) show ?thesis by (cases us) auto
    qed
  qed (metis Cons_eq_appendI prefix_append)
  with Cons show ?case by simp
qed

lemma attr_escape_chars:
  "c \<in> set (attr_escape s) \<Longrightarrow> c \<noteq> CHR ''<'' \<and> c \<noteq> CHR ''>'' \<and> c \<noteq> CHR 0x22 \<and> c \<noteq> CHR 0x27"
  by (auto simp: attr_escape_def attr_escape_char_def split: if_splits)

lemma attr_escape_no_special [simp]:
  "CHR ''<'' \<notin> set (attr_escape s)" "CHR ''>'' \<notin> set (attr_escape s)"
  "CHR 0x22 \<notin> set (attr_escape s)" "CHR 0x27 \<notin> set (attr_escape s)"
  using attr_escape_chars by blast+

lemma occurrences_lead:
  "pat = h # t \<Longrightarrow> h \<notin> set b \<Longrightarrow> occurrences pat b = 0"
  by (induction b) auto

lemma wrap_head_occurrences:
  "occurrences ''</matrix:message'' (wrap_head r s e) = 0"
  "occurrences ''<matrix:message'' (wrap_head r s e) = 1"
  "occurrences ''</channel'' (wrap_head r s e) = 0"
  "occurrences ''<channel'' (wrap_head r s e) = 0"
  by (simp_all add: wrap_head_def occurrences_lead)

lemma wrapped_body_frame:
  "(prefix ''<matrix:message '' (wrap_body r s e body)
     \<and> suffix ''</matrix:message>'' (wrap_body r s e body)
     \<and> occurrences ''<matrix:message'' (wrap_body r s e body) = 1
     \<and> occurrences ''</matrix:message'' (wrap_body r s e body) = 1)
   \<and> occurrences ''<channel'' (wrap_body r s e body) = 0
   \<and> occurrences ''</channel'' (wrap_body r s e body) = 0"
proof -
  have nl: "occurrences pat (wrap_body r s e body) =
      occurrences pat (wrap_head r s e) + occurrences pat (escape_injection_markers body)
        + occurrences pat ''</matrix:message>''"
    if "CHR 0x0A \<notin> set pat" "pat \<noteq> []" for pat
    using that by (simp add: wrap_body_def occurrences_separated)
  have none: "occurrences m (escape_injection_markers body) = 0"
    if "m \<in> {''</matrix:message'', ''<matrix:message'', ''</channel'', ''<channel''}" for m
    using delimiter_absent [OF that, of body] that by (auto simp: occurrences_absent)
  have "suffix ''</matrix:message>'' (wrap_body r s e body)"
    unfolding wrap_body_def by (simp only: append_assoc [symmetric] suffix_append) simp
  then show ?thesis
    by (simp add: nl none wrap_head_occurrences) (simp add: wrap_body_def wrap_head_def)
qed

text \<open>C1: a wrapped body has exactly one opening delimiter, at its start, and exactly one closing
  delimiter, at its end; no room id, sender, event id or body can add another, nor any delimiter
  of the channel frame.\<close>

theorem wrapped_body_has_one_frame:
  "prefix ''<matrix:message '' (wrap_body r s e body)
   \<and> suffix ''</matrix:message>'' (wrap_body r s e body)
   \<and> occurrences ''<matrix:message'' (wrap_body r s e body) = 1
   \<and> occurrences ''</matrix:message'' (wrap_body r s e body) = 1
   \<and> occurrences ''<channel'' (wrap_body r s e body) = 0
   \<and> occurrences ''</channel'' (wrap_body r s e body) = 0"
  using wrapped_body_frame by blast

section \<open>Attribute values\<close>

lemma attr_escape_simps [simp]:
  "attr_escape [] = []" "attr_escape (c # s) = attr_escape_char c @ attr_escape s"
  by (simp_all add: attr_escape_def)

lemma attr_escape_char_prefix_free:
  assumes "attr_escape_char a @ u = attr_escape_char b @ v"
  shows "a = b \<and> u = v"
  using assms by (auto simp: attr_escape_char_def split: if_splits)

lemma attr_escape_inj: "attr_escape s = attr_escape t \<Longrightarrow> s = t"
proof (induction s arbitrary: t)
  case Nil
  then show ?case by (cases t) (auto simp: attr_escape_char_def split: if_splits)
next
  case (Cons a s)
  show ?case
  proof (cases t)
    case Nil
    with Cons.prems show ?thesis by (auto simp: attr_escape_char_def split: if_splits)
  next
    case (Cons b t')
    with Cons.prems have "attr_escape_char a @ attr_escape s = attr_escape_char b @ attr_escape t'"
      by simp
    from attr_escape_char_prefix_free [OF this] Cons Cons.IH show ?thesis by blast
  qed
qed

text \<open>An escaped attribute value holds no quote and no angle bracket, so it stays inside the
  double quotes it is written in, and two different values never escape to the same text: unlike
  the body escape, this one can be undone.\<close>

theorem attr_escape_contained_and_injective:
  "set (attr_escape s) \<inter> {CHR 0x22, CHR 0x27, CHR ''<'', CHR ''>''} = {} \<and> inj attr_escape"
  by (auto intro!: injI dest: attr_escape_inj)

section \<open>The heuristic\<close>

lemma contains_str_trans: "contains_str s p \<Longrightarrow> contains_str (a @ s @ b) p"
  by (metis sublist_appendI sublist_order.order_trans)

definition suspicion_markers :: "rstr list" where
  "suspicion_markers = INSTRUCTION_OVERRIDE_PHRASES @ SUSPICIOUS_ROLE_MARKERS
     @ [''</matrix:message'', ''<matrix:message '']"

lemma is_suspicious_iff:
  "is_suspicious b \<longleftrightarrow> (\<exists>p\<in>set suspicion_markers. contains_str (to_ascii_lowercase b) p)"
  by (auto simp: is_suspicious_def suspicion_markers_def Let_def list_ex_iff)

text \<open>The heuristic cannot be dodged by changing the case of ASCII letters or by
  surrounding the attempt with other text.\<close>

theorem suspicion_survives_case_and_context:
  assumes "is_suspicious b" and "to_ascii_lowercase b' = to_ascii_lowercase b"
  shows "is_suspicious (x @ b' @ y)"
proof -
  from assms(1) obtain p where p: "p \<in> set suspicion_markers"
      "contains_str (to_ascii_lowercase b) p"
    unfolding is_suspicious_iff by blast
  from p(2) have "contains_str (to_ascii_lowercase (x @ b' @ y)) p"
    using contains_str_trans assms(2) by (simp add: str_simps)
  with p(1) show ?thesis unfolding is_suspicious_iff by blast
qed

theorem suspicion_survives_case_and_context_witness:
  "is_suspicious (''> '' @ ''<SYSTEM>'' @ '' hi'')"
  by (rule suspicion_survives_case_and_context [of "''<System>''"]) code_simp+

text \<open>
  What the escape touches, the heuristic reports, with three exceptions the tables make:
  the user tags and an opening delimiter that is not followed by a space.
\<close>

lemma str_replace_absent: "\<not> contains_str s pat \<Longrightarrow> str_replace pat rep s = s"
proof (induction pat rep s rule: str_replace.induct)
  case (2 pat rep c cs)
  then show ?case
    by (auto simp: str_replace.simps(2) sublist_Cons_right simp del: Cons_prefix_Cons)
qed simp

lemma replace_tokens_absent:
  "\<forall>tok\<in>set toks. \<not> contains_str s tok \<Longrightarrow> foldl (replace_token esc) s toks = s"
  by (induction toks) (auto simp: replace_token_def)

definition escape_markers :: "rstr list" where
  "escape_markers = [''</matrix:message>'', ''</matrix:message'', ''<matrix:message'',
     ''</channel>'', ''</channel'', ''<channel''] @ ANGLE_ROLE_TOKENS @ BRACKET_ROLE_TOKENS"

lemma escape_identity:
  assumes "\<forall>m\<in>set escape_markers. \<not> contains_str body m"
  shows "escape_injection_markers body = body"
proof -
  have a: "\<not> contains_str body m" if "m \<in> set escape_markers" for m
    using assms that by blast
  have "foldl (replace_token angle_escape) body ANGLE_ROLE_TOKENS = body"
    by (rule replace_tokens_absent) (auto intro!: a simp: escape_markers_def)
  moreover have "foldl (replace_token bracket_escape) body BRACKET_ROLE_TOKENS = body"
    by (rule replace_tokens_absent) (auto intro!: a simp: escape_markers_def)
  moreover have "str_replace p r body = body"
    if "p \<in> set (take 6 escape_markers)" for p r
    using that by (intro str_replace_absent a) (rule in_set_takeD)
  ultimately show ?thesis
    by (simp add: escape_injection_markers_def Let_def escape_markers_def)
qed

lemma contains_lower: "contains_str s m \<Longrightarrow> contains_str (to_ascii_lowercase s) (to_ascii_lowercase m)"
  unfolding to_ascii_lowercase_def by (rule sublist_map)

lemma escape_marker_suspicious:
  assumes "m \<in> set escape_markers" and "m \<notin> {''<user>'', ''</user>'', ''<matrix:message''}"
  shows "\<exists>p\<in>set suspicion_markers. contains_str (to_ascii_lowercase m) p"
proof -
  have "list_all (\<lambda>m. m \<in> {''<user>'', ''</user>'', ''<matrix:message''}
      \<or> list_ex (contains_str (to_ascii_lowercase m)) suspicion_markers) escape_markers"
    by code_simp
  with assms show ?thesis by (auto simp: list_all_iff list_ex_iff)
qed

text \<open>A body the escape changes is flagged, unless all it held of the escaped markers are
  the user tags or an opening delimiter; a body with none of the markers is returned as it is.\<close>

theorem escape_changes_only_flagged:
  assumes "\<not> is_suspicious body"
    and "\<not> contains_str body ''<user>''" and "\<not> contains_str body ''</user>''"
    and "\<not> contains_str body ''<matrix:message''"
  shows "wrapped (evaluate r s e body) =
      wrap_head r s e @ [CHR 0x0A] @ body @ [CHR 0x0A] @ ''</matrix:message>''"
proof -
  have "\<not> contains_str body m" if "m \<in> set escape_markers" for m
  proof
    assume c: "contains_str body m"
    with assms(2-4) have "m \<notin> {''<user>'', ''</user>'', ''<matrix:message''}" by auto
    from escape_marker_suspicious [OF that this] obtain p where
      "p \<in> set suspicion_markers" "contains_str (to_ascii_lowercase m) p" by blast
    with contains_lower [OF c] assms(1) show False
      unfolding is_suspicious_iff using sublist_order.order_trans by blast
  qed
  then show ?thesis
    by (simp add: evaluate_def wrap_body_def escape_identity)
qed

theorem escape_changes_only_flagged_witness:
  "wrapped (evaluate None (Some ''@a:b'') None ''hello'') =
     wrap_head None (Some ''@a:b'') None @ [CHR 0x0A] @ ''hello'' @ [CHR 0x0A] @ ''</matrix:message>''"
  by (rule escape_changes_only_flagged) code_simp+

text \<open>The body escape is not lossless: a body that already holds the entity form and a body
  that holds the token escape to the same text, so the original cannot be recovered.\<close>

theorem body_escape_not_injective:
  "escape_injection_markers ''<system>'' = escape_injection_markers ''&lt;system&gt;''"
  by code_simp

end
