(* ===== verification/ChannelText.thy ===== *)
theory ChannelText
  imports Utf8 Json ContentSandbox
begin

text \<open>
  The text limits of \<open>src/channel.rs\<close>: the truncations \<open>cap_body\<close>,
  \<open>cap_wrapped\<close> and \<open>clip\<close>, the contract they share (locale
  \<open>truncation\<close>), and the notification parameters (\<open>build_params\<close>).
\<close>

section \<open>Bounds\<close>

definition REACTION_KEY_MAX :: nat where "REACTION_KEY_MAX = 64"
definition MAX_PUSH_BYTES :: nat where "MAX_PUSH_BYTES = 4096"
definition PROMPT_DESCRIPTION_MAX :: nat where "PROMPT_DESCRIPTION_MAX = 512"
definition PROMPT_PREVIEW_MAX :: nat where "PROMPT_PREVIEW_MAX = 1536"

definition NL :: rstr where "NL = [CHR 0x0A]"

definition truncated_note :: rstr where
  "truncated_note = NL @ ''[truncated by matrix-mcp]''"

definition cap_body :: "rstr \<Rightarrow> rstr" where
  "cap_body body = (if length body \<le> MAX_PUSH_BYTES then body
     else take (back_off body MAX_PUSH_BYTES) body @ truncated_note)"

definition cap_wrapped :: "rstr \<Rightarrow> rstr" where
  "cap_wrapped w = (if length w \<le> MAX_PUSH_BYTES then w
     else take (back_off w MAX_PUSH_BYTES) w @ truncated_note @ NL @ ''</matrix:message>'')"

text \<open>The ellipsis U+2026.\<close>

definition ellipsis :: rstr where
  "ellipsis = [CHR 0xE2, CHR 0x80, CHR 0xA6]"

definition clip :: "rstr \<Rightarrow> nat \<Rightarrow> rstr" where
  "clip text mx = (if length text \<le> mx then text
     else take (back_off text mx) text @ ellipsis)"

text \<open>
  The contract the three truncations share: short text is returned as it is; long text is cut
  at a character boundary at most three bytes below the bound and marked.
\<close>

locale truncation =
  fixes cut :: "rstr \<Rightarrow> rstr" and bound :: nat and mark :: rstr
  assumes short: "length s \<le> bound \<Longrightarrow> cut s = s"
    and long: "bound < length s \<Longrightarrow> cut s = take (back_off s bound) s @ mark"
    and mark_valid: "utf8_valid mark"
begin

lemma cut_length: "length (cut s) \<le> bound + length mark"
  using short long back_off_le [of s bound] by (cases "length s \<le> bound") auto

lemma cut_valid: "utf8_valid s \<Longrightarrow> utf8_valid (cut s)"
proof (cases "length s \<le> bound")
  case False
  assume v: "utf8_valid s"
  have "back_off s bound \<le> length s"
    using back_off_le [of s bound] False by simp
  from utf8_valid_split [OF v back_off_boundary this] False show ?thesis
    by (simp add: long utf8_valid_append mark_valid)
qed (simp add: short)

lemma cut_keeps: "utf8_valid s \<Longrightarrow> prefix (take (bound - 3) s) (cut s)"
proof (cases "length s \<le> bound")
  case True
  then show ?thesis by (simp add: short take_is_prefix)
next
  case False
  assume v: "utf8_valid s"
  have "bound - 3 \<le> back_off s bound"
    using back_off_near [OF v, of bound] False by simp
  then have "prefix (take (bound - 3) s) (take (back_off s bound) s)"
    by (metis min.absorb1 take_is_prefix take_take)
  with False show ?thesis
    by (simp add: long)
qed

lemma cut_spec:
  "utf8_valid s \<Longrightarrow>
    utf8_valid (cut s) \<and> length (cut s) \<le> bound + length mark
      \<and> prefix (take (bound - 3) s) (cut s) \<and> (length s \<le> bound \<longrightarrow> cut s = s)"
  by (simp add: cut_length cut_valid cut_keeps short)

end

lemma truncated_note_valid: "utf8_valid truncated_note"
  by (rule utf8_valid_ascii) (auto simp: truncated_note_def NL_def)

lemma closing_note_valid: "utf8_valid (truncated_note @ NL @ ''</matrix:message>'')"
  by (rule utf8_valid_ascii) (auto simp: truncated_note_def NL_def)

lemma ellipsis_valid: "utf8_valid ellipsis"
  by code_simp

interpretation body_cap: truncation cap_body MAX_PUSH_BYTES truncated_note
  by unfold_locales (auto simp: cap_body_def truncated_note_valid)

interpretation wrapped_cap: truncation cap_wrapped MAX_PUSH_BYTES
    "truncated_note @ NL @ ''</matrix:message>''"
  by unfold_locales (auto simp: cap_wrapped_def closing_note_valid)

interpretation clipped: truncation "\<lambda>s. clip s mx" mx ellipsis for mx
  by unfold_locales (auto simp: clip_def ellipsis_valid)

text \<open>C40: whatever a sender writes, a pushed body is valid UTF-8 of at most 4,122 bytes, it
  keeps everything up to the last three bytes before the cap, and a body within the cap is
  untouched; a wrapped body is bounded the same way with its closing tag, and a clipped prompt
  field by its own bound plus the ellipsis.\<close>

theorem truncations_bounded_and_valid:
  assumes "utf8_valid s"
  shows "utf8_valid (cap_body s) \<and> length (cap_body s) \<le> 4122
      \<and> prefix (take 4093 s) (cap_body s) \<and> (length s \<le> 4096 \<longrightarrow> cap_body s = s)
    \<and> utf8_valid (cap_wrapped s) \<and> length (cap_wrapped s) \<le> 4140
      \<and> prefix (take 4093 s) (cap_wrapped s) \<and> (length s \<le> 4096 \<longrightarrow> cap_wrapped s = s)
    \<and> utf8_valid (clip s mx) \<and> length (clip s mx) \<le> mx + 3
      \<and> prefix (take (mx - 3) s) (clip s mx) \<and> (length s \<le> mx \<longrightarrow> clip s mx = s)"
  using body_cap.cut_spec [OF assms] wrapped_cap.cut_spec [OF assms]
    clipped.cut_spec [OF assms, of mx]
  by (simp add: MAX_PUSH_BYTES_def truncated_note_def NL_def ellipsis_def)

theorem truncations_bounded_and_valid_witness:
  "length (clip [CHR ''a'', CHR 0xC3, CHR 0xA9, CHR ''b''] 2) \<le> 5"
proof -
  have "utf8_valid [CHR ''a'', CHR 0xC3, CHR 0xA9, CHR ''b'']" by code_simp
  from truncations_bounded_and_valid [OF this, of 2] show ?thesis by simp
qed

section \<open>The closing delimiter of a capped body\<close>

lemma occurrences_prefix_zero:
  assumes "prefix a b" and "occurrences pat b = 0" and "pat \<noteq> []"
  shows "occurrences pat a = 0"
  using assms by (metis occurrences_absent prefix_imp_sublist sublist_order.order_trans)

lemma take_prefix_of_append: "w = a @ b \<Longrightarrow> k \<le> length a \<Longrightarrow> prefix (take k w) a"
  by (simp add: take_is_prefix)

lemma wrap_body_split:
  "wrap_body r s e body = (wrap_head r s e @ [CHR 0x0A] @ escape_injection_markers body)
     @ CHR 0x0A # ''</matrix:message>''"
  by (simp add: wrap_body_def)

lemma wrap_front_occurrences:
  "occurrences ''</matrix:message''
     (wrap_head r s e @ [CHR 0x0A] @ escape_injection_markers body) = 0"
proof -
  have "occurrences ''</matrix:message'' (escape_injection_markers body) = 0"
    using delimiter_absent [of "''</matrix:message''" body] by (simp add: occurrences_absent)
  then show ?thesis
    by (simp add: occurrences_separated wrap_head_occurrences)
qed

lemma back_off_id: "is_char_boundary s e \<Longrightarrow> back_off s e = e"
  by (simp add: back_off.simps)

text \<open>Capping a wrapped body leaves exactly one occurrence of the closing delimiter, whatever
  was cut, with a single exception: a wrapped body one byte over the cap loses only the last
  character of its own delimiter and gains a second one.\<close>

theorem capped_wrapper_closing_delimiters:
  "occurrences ''</matrix:message'' (cap_wrapped (wrap_body r s e body)) =
     (if length (wrap_body r s e body) = 4097 then 2 else 1)"
proof -
  let ?p = "wrap_head r s e @ [CHR 0x0A] @ escape_injection_markers body"
  let ?w = "wrap_body r s e body"
  let ?c = "''</matrix:message''"
  have w: "?w = ?p @ CHR 0x0A # ?c @ ''>''" by (simp add: wrap_body_split)
  consider "length ?w \<le> 4096" | "length ?w = 4097" | "4097 < length ?w" by linarith
  then show ?thesis
  proof cases
    case 1
    then show ?thesis
      using wrapped_body_frame by (simp add: cap_wrapped_def MAX_PUSH_BYTES_def)
  next
    case 2
    then have n: "length (?p @ CHR 0x0A # ?c) = 4096" by (simp add: w)
    have w1: "?w = (?p @ CHR 0x0A # ?c) @ [CHR ''>'']" by (simp add: w)
    then have "?w ! 4096 = CHR ''>''" by (metis n nth_append_length)
    then have "back_off ?w 4096 = 4096"
      using 2 by (intro back_off_id) (simp add: is_char_boundary_def is_cont_def)
    moreover have "take 4096 ?w = ?p @ CHR 0x0A # ?c"
      by (metis n w1 append_eq_conv_conj)
    ultimately have "cap_wrapped ?w =
        ?p @ CHR 0x0A # ?c @ CHR 0x0A # tl truncated_note @ CHR 0x0A # ''</matrix:message>''"
      using 2 by (simp add: cap_wrapped_def MAX_PUSH_BYTES_def truncated_note_def NL_def)
    then show ?thesis
      using 2 wrap_front_occurrences [of r s e body]
      by (simp add: occurrences_separated truncated_note_def NL_def)
  next
    case 3
    let ?k = "back_off ?w 4096"
    have "?k \<le> 4096" by (rule back_off_le)
    with 3 have "?k \<le> length (?p @ CHR 0x0A # ''</matrix:messag'')" by (simp add: w)
    moreover have "?w = (?p @ CHR 0x0A # ''</matrix:messag'') @ ''e>''" by (simp add: w)
    ultimately have "prefix (take ?k ?w) (?p @ CHR 0x0A # ''</matrix:messag'')"
      by (rule take_prefix_of_append [rotated])
    moreover have "occurrences ?c (?p @ CHR 0x0A # ''</matrix:messag'') = 0"
      using wrap_front_occurrences [of r s e body] by (simp add: occurrences_separated)
    ultimately have "occurrences ?c (take ?k ?w) = 0"
      using occurrences_prefix_zero by blast
    moreover have "cap_wrapped ?w =
        take ?k ?w @ CHR 0x0A # tl truncated_note @ CHR 0x0A # ''</matrix:message>''"
      using 3 by (simp add: cap_wrapped_def MAX_PUSH_BYTES_def truncated_note_def NL_def)
    ultimately show ?thesis
      using 3 by (simp add: occurrences_separated truncated_note_def NL_def)
  qed
qed

section \<open>Notification parameters\<close>

definition CHANNEL_NOTIFICATION :: rstr where
  "CHANNEL_NOTIFICATION = ''notifications/claude/channel''"

definition is_ascii_alphanumeric :: "char \<Rightarrow> bool" where
  "is_ascii_alphanumeric b \<longleftrightarrow> (48 \<le> byte_of b \<and> byte_of b \<le> 57)
     \<or> (65 \<le> byte_of b \<and> byte_of b \<le> 90) \<or> (97 \<le> byte_of b \<and> byte_of b \<le> 122)"

definition meta_key_ok :: "rstr \<Rightarrow> bool" where
  "meta_key_ok k \<longleftrightarrow> k \<noteq> [] \<and> list_all (\<lambda>b. is_ascii_alphanumeric b \<or> b = CHR ''_'') k"

type_synonym meta = "(rstr \<times> rstr) list"

definition build_params :: "rstr \<Rightarrow> meta \<Rightarrow> json" where
  "build_params content meta =
     (let mp = foldl (\<lambda>mp (k, v).
          if \<not> meta_key_ok k then mp else hm_insert mp k (JStr (attr_escape v))) [] meta
      in JObj [(''content'', JStr content), (''meta'', JObj mp)])"

definition meta_attr :: "json \<Rightarrow> rstr \<Rightarrow> json option" where
  "meta_attr p k = jpath p [''meta'', k]"

lemma build_params_fold:
  "hm_get (foldl (\<lambda>mp (k, v). if \<not> meta_key_ok k then mp
       else hm_insert mp k (JStr (attr_escape v))) mp meta) k =
   (case map_of (rev meta) k of
      Some v \<Rightarrow> if meta_key_ok k then Some (JStr (attr_escape v)) else hm_get mp k
    | None \<Rightarrow> hm_get mp k)"
  by (induction meta arbitrary: mp)
    (auto simp: hm_simps map_add_def split: option.splits)

lemma build_params_meta:
  "meta_attr (build_params content meta) k =
     (if meta_key_ok k then map_option (\<lambda>v. JStr (attr_escape v)) (map_of (rev meta) k) else None)"
  by (auto simp: build_params_def meta_attr_def build_params_fold split: option.splits)

text \<open>The parameters carry the body unchanged, and as attributes exactly the valid meta keys
  with their last value, escaped: an attribute value can neither close the tag nor end its
  quotes, and a key the client would drop is not sent.\<close>

theorem build_params_spec:
  "jstr_at (build_params content meta) [''content''] = Some content
   \<and> meta_attr (build_params content meta) k =
      (if meta_key_ok k then map_option (\<lambda>v. JStr (attr_escape v)) (map_of (rev meta) k) else None)"
  unfolding build_params_meta by (simp add: build_params_def jstr_at_def)

end
