(* ===== verification/PermissionReply.thy ===== *)
theory PermissionReply
  imports ChannelText
begin

text \<open>
  The permission relay's text protocol of \<open>src/channel.rs\<close>: \<open>Behavior\<close>,
  \<open>Inbound\<close>, the reply pattern, \<open>classify_inbound\<close>,
  \<open>PermissionRequest\<close> and \<open>format_prompt\<close>.
\<close>

datatype Behavior = Allow | Deny

primrec behavior_as_str :: "Behavior \<Rightarrow> rstr" where
  "behavior_as_str Allow = ''allow''"
| "behavior_as_str Deny = ''deny''"

datatype Inbound = Verdict rstr Behavior | Chat | Ignored

section \<open>The reply pattern\<close>

text \<open>
  \<open>(?i)^\s*(y|yes|n|no)\s+([a-km-z]{5})\s*$\<close>. The flag folds case by Unicode, so
  besides the two ASCII cases of a letter the pattern accepts the long s (U+017F, bytes C5 BF)
  where it has an s and the Kelvin sign (U+212A, bytes E2 84 AA) where it has a k.
  A letter and a white space never start with the same byte, so the greedy reading below finds
  the match whenever there is one.
\<close>

definition long_s :: rstr where "long_s = [CHR 0xC5, CHR 0xBF]"
definition kelvin :: rstr where "kelvin = [CHR 0xE2, CHR 0x84, CHR 0xAA]"

text \<open>The encodings \<open>(?i)\<close> matches for a lower-case letter.\<close>

definition fold_units :: "char \<Rightarrow> rstr list" where
  "fold_units c = [[c], [char_of (byte_of c - 32)]]
     @ (if c = CHR ''s'' then [long_s] else []) @ (if c = CHR ''k'' then [kelvin] else [])"

definition id_letters :: rstr where
  "id_letters = ''abcdefghijkmnopqrstuvwxyz''"

definition id_units :: "rstr list" where
  "id_units = concat (map fold_units id_letters)"

text \<open>Length of the unit of a list that starts the text; 0 when there is none.\<close>

definition unit_head :: "rstr list \<Rightarrow> rstr \<Rightarrow> nat" where
  "unit_head us s = (case filter (\<lambda>u. prefix u s) us of [] \<Rightarrow> 0 | u # _ \<Rightarrow> length u)"

text \<open>Length of the text matched by a sequence of classes, each given by its units.\<close>

fun seq_head :: "rstr list list \<Rightarrow> rstr \<Rightarrow> nat option" where
  "seq_head [] s = Some 0"
| "seq_head (us # uss) s = (let n = unit_head us s in
     if n = 0 then None else map_option (\<lambda>m. n + m) (seq_head uss (drop n s)))"

definition reply_words :: "rstr list" where
  "reply_words = [''y'', ''yes'', ''n'', ''no'']"

text \<open>What follows the word: white space, five id letters, white space, the end.\<close>

definition match_id :: "rstr \<Rightarrow> rstr option" where
  "match_id r = (if ws_head r = 0 then None
     else let u = trim_start r in
       case seq_head (replicate 5 id_units) u of None \<Rightarrow> None
       | Some n \<Rightarrow> if trim_start (drop n u) = [] then Some (take n u) else None)"

definition match_word :: "rstr \<Rightarrow> rstr \<Rightarrow> (rstr \<times> rstr) option" where
  "match_word t w = (case seq_head (map fold_units w) t of None \<Rightarrow> None
     | Some n \<Rightarrow> map_option (\<lambda>i. (take n t, i)) (match_id (drop n t)))"

definition permission_reply :: "rstr \<Rightarrow> (rstr \<times> rstr) option" where
  "permission_reply text = (let t = trim_start text in
     case List.map_filter (match_word t) reply_words of [] \<Rightarrow> None | m # _ \<Rightarrow> Some m)"

definition classify_inbound :: "bool \<Rightarrow> rstr \<Rightarrow> Inbound" where
  "classify_inbound sender_allowed text =
     (if \<not> sender_allowed then Ignored
      else case permission_reply text of
        None \<Rightarrow> Chat
      | Some (word, i) \<Rightarrow>
          Verdict (to_ascii_lowercase i)
            (if prefix ''y'' (to_ascii_lowercase word) then Allow else Deny))"

section \<open>The prompt\<close>

record PermissionRequest =
  request_id :: rstr
  tool_name :: rstr
  description :: rstr
  input_preview :: rstr

definition QUOTE :: rstr where "QUOTE = [CHR 0x22]"

definition format_prompt :: "PermissionRequest \<Rightarrow> rstr" where
  "format_prompt q =
     ''Claude wants to run '' @ tool_name q @ '': ''
     @ clip (description q) PROMPT_DESCRIPTION_MAX @ NL
     @ clip (input_preview q) PROMPT_PREVIEW_MAX @ NL @ NL
     @ ''Reply '' @ QUOTE @ ''yes '' @ request_id q @ QUOTE
     @ '' or '' @ QUOTE @ ''no '' @ request_id q @ QUOTE"

section \<open>The language of the pattern\<close>

text \<open>The pattern read as a grammar: a text in a sequence of classes, each a list of units.\<close>

fun in_classes :: "rstr list list \<Rightarrow> rstr \<Rightarrow> bool" where
  "in_classes [] s = (s = [])"
| "in_classes (us # uss) s = (\<exists>u\<in>set us. prefix u s \<and> in_classes uss (drop (length u) s))"

inductive white :: "rstr \<Rightarrow> bool" where
  white_Nil: "white []"
| white_app: "w \<in> set ws_seqs \<Longrightarrow> white s \<Longrightarrow> white (w @ s)"

definition verdict_reply :: "rstr \<Rightarrow> rstr \<Rightarrow> rstr \<Rightarrow> bool" where
  "verdict_reply text word i \<longleftrightarrow>
     (\<exists>a b c w. text = a @ word @ b @ i @ c \<and> white a \<and> white b \<and> b \<noteq> [] \<and> white c
        \<and> w \<in> set reply_words \<and> in_classes (map fold_units w) word
        \<and> in_classes (replicate 5 id_units) i)"

text \<open>A list of units none of which is a prefix of another is read in one way.\<close>

definition prefix_free :: "rstr list \<Rightarrow> bool" where
  "prefix_free us \<longleftrightarrow> list_all (\<lambda>u. u \<noteq> [] \<and> list_all (\<lambda>v. prefix u v \<longrightarrow> u = v) us) us"

lemma prefix_freeD: "prefix_free us \<Longrightarrow> u \<in> set us \<Longrightarrow> v \<in> set us \<Longrightarrow> prefix u v \<Longrightarrow> u = v"
  by (simp add: prefix_free_def list_all_iff)

lemma prefix_free_nonempty: "prefix_free us \<Longrightarrow> [] \<notin> set us"
  by (auto simp: prefix_free_def list_all_iff)

lemma unit_head_at:
  assumes "prefix_free us" and "u \<in> set us"
  shows "unit_head us (u @ s) = length u"
proof -
  have "v = u" if "v \<in> set us" "prefix v (u @ s)" for v
    using that assms prefix_freeD prefix_same_cases [of v "u @ s" u] by (metis prefixI)
  then have *: "set (filter (\<lambda>v. prefix v (u @ s)) us) = {u}"
    using assms(2) by auto
  then obtain vs where "filter (\<lambda>v. prefix v (u @ s)) us = u # vs"
    by (cases "filter (\<lambda>v. prefix v (u @ s)) us") auto
  then show ?thesis
    by (simp add: unit_head_def)
qed

lemma unit_head_Some:
  assumes "unit_head us s = n" and "n \<noteq> 0"
  shows "\<exists>u\<in>set us. prefix u s \<and> length u = n"
  using assms by (auto simp: unit_head_def filter_eq_Cons_iff split: list.splits)

lemma unit_head_ws: "ws_head s = unit_head ws_seqs s"
  by (simp add: ws_head_def unit_head_def)

definition units_apart :: "rstr list \<Rightarrow> rstr list \<Rightarrow> bool" where
  "units_apart us vs \<longleftrightarrow> list_all (\<lambda>u. list_all (\<lambda>v. \<not> prefix u v \<and> \<not> prefix v u) vs) us"

lemma unit_head_apart:
  assumes "units_apart us vs" and "unit_head us s \<noteq> 0"
  shows "unit_head vs s = 0"
proof (rule ccontr)
  assume "unit_head vs s \<noteq> 0"
  with assms(2) obtain u v where "u \<in> set us" "prefix u s" "v \<in> set vs" "prefix v s"
    using unit_head_Some by blast
  then have "prefix u v \<or> prefix v u" by (simp add: prefix_same_cases)
  with assms(1) \<open>u \<in> set us\<close> \<open>v \<in> set vs\<close> show False
    by (auto simp: units_apart_def list_all_iff)
qed

lemma seq_head_in_classes:
  "seq_head uss s = Some n \<Longrightarrow> n \<le> length s \<and> in_classes uss (take n s)"
proof (induction uss arbitrary: s n)
  case (Cons us uss)
  let ?k = "unit_head us s"
  from Cons.prems obtain m where k: "?k \<noteq> 0" and m: "seq_head uss (drop ?k s) = Some m"
    and n: "n = ?k + m"
    by (auto simp: Let_def split: if_splits)
  obtain u where u: "u \<in> set us" "prefix u s" "length u = ?k"
    using unit_head_Some k by blast
  from Cons.IH [OF m] have "m \<le> length s - ?k" "in_classes uss (take m (drop ?k s))"
    by auto
  moreover have "take n s = u @ take m (drop ?k s)"
    using u n by (auto simp: prefix_def)
  ultimately show ?case
    using u n by (auto dest: prefix_length_le intro!: bexI [of _ u])
qed simp

lemma in_classes_seq_head:
  "list_all prefix_free uss \<Longrightarrow> in_classes uss w \<Longrightarrow> seq_head uss (w @ s) = Some (length w)"
proof (induction uss arbitrary: w)
  case (Cons us uss)
  then obtain u v where u: "u \<in> set us" "w = u @ v" and v: "in_classes uss v"
    by (auto simp: prefix_def)
  have "unit_head us (w @ s) = length u"
    using unit_head_at [of us u "v @ s"] Cons.prems(1) u by simp
  moreover have "u \<noteq> []"
    using Cons.prems(1) u(1) prefix_free_nonempty by auto
  moreover have "seq_head uss (v @ s) = Some (length v)"
    using Cons v by simp
  ultimately show ?case
    using u by (simp add: Let_def)
qed simp

section \<open>White space around the reply\<close>

lemma ws_prefix_free: "prefix_free ws_seqs"
  by code_simp

lemma white_trim_start: "white a \<Longrightarrow> ws_head r = 0 \<Longrightarrow> trim_start (a @ r) = r"
proof (induction rule: white.induct)
  case white_Nil
  then show ?case by (simp add: trim_start.simps)
next
  case (white_app w s)
  then have "ws_head ((w @ s) @ r) = length w" "w \<noteq> []"
    using unit_head_at [OF ws_prefix_free white_app(1)] prefix_free_nonempty [OF ws_prefix_free]
    by (auto simp: unit_head_ws)
  with white_app show ?case
    by (subst trim_start.simps) simp
qed

lemma trim_start_white: "\<exists>a. s = a @ trim_start s \<and> white a"
proof (induction s rule: trim_start.induct)
  case (1 s)
  show ?case
  proof (cases "ws_head s = 0")
    case True
    then show ?thesis
      by (subst trim_start.simps) (auto intro: white_Nil)
  next
    case False
    with 1 obtain a where a: "drop (ws_head s) s = a @ trim_start (drop (ws_head s) s)" "white a"
      by blast
    obtain w where w: "w \<in> set ws_seqs" "prefix w s" "length w = ws_head s"
      using unit_head_Some False unfolding unit_head_ws by blast
    then have s: "s = w @ drop (ws_head s) s" by (auto simp: prefix_def)
    have t: "trim_start s = trim_start (drop (ws_head s) s)"
      using False by (subst trim_start.simps) simp
    show ?thesis
    proof (intro exI conjI)
      show "s = (w @ a) @ trim_start s" unfolding t using s a(1) by simp
      show "white (w @ a)" using w(1) a(2) by (rule white_app)
    qed
  qed
qed

lemma ws_head_Nil [simp]: "ws_head [] = 0"
  using ws_head_le [of "[]"] by simp

lemma trim_start_Nil_iff: "trim_start s = [] \<longleftrightarrow> white s"
  using white_trim_start [of s "[]"] trim_start_white [of s] by auto

lemma white_head:
  assumes "white b" and "b \<noteq> []"
  shows "ws_head (b @ r) \<noteq> 0"
  using assms(1)
proof cases
  case (white_app w s)
  then show ?thesis
    using unit_head_at [OF ws_prefix_free white_app(2), of "s @ r"]
      prefix_free_nonempty [OF ws_prefix_free]
    by (auto simp: unit_head_ws)
qed (use assms(2) in simp)

section \<open>The matcher accepts the language of the pattern\<close>

lemma id_units_ok: "prefix_free id_units" "units_apart id_units ws_seqs"
  by code_simp+

definition word_ok :: "rstr \<Rightarrow> bool" where
  "word_ok w \<longleftrightarrow> list_all prefix_free (map fold_units w)
     \<and> units_apart (concat (map fold_units w)) ws_seqs"

lemma reply_words_ok: "list_all word_ok reply_words"
  by code_simp

lemma word_units_ok:
  assumes "w \<in> set reply_words"
  shows "list_all prefix_free (map fold_units w)"
    and "c \<in> set w \<Longrightarrow> units_apart (fold_units c) ws_seqs"
  using reply_words_ok assms
  by (auto simp: list_all_iff word_ok_def units_apart_def)

lemma in_classes_head:
  assumes "in_classes (us # uss) i" and "prefix_free us"
  shows "unit_head us (i @ c) \<noteq> 0"
proof -
  from assms(1) obtain u v where "u \<in> set us" "i = u @ v" by (auto simp: prefix_def)
  with unit_head_at [OF assms(2), of u "v @ c"] prefix_free_nonempty [OF assms(2)]
  show ?thesis by auto
qed

lemma match_id_iff:
  "match_id r = Some i \<longleftrightarrow> (\<exists>b c. r = b @ i @ c \<and> white b \<and> b \<noteq> [] \<and> white c
      \<and> in_classes (replicate 5 id_units) i)"
proof
  assume "match_id r = Some i"
  then obtain n where n: "ws_head r \<noteq> 0"
      "seq_head (replicate 5 id_units) (trim_start r) = Some n"
      "trim_start (drop n (trim_start r)) = []" "i = take n (trim_start r)"
    unfolding match_id_def Let_def by (auto split: option.splits if_splits)
  obtain b where b: "r = b @ trim_start r" "white b" using trim_start_white by blast
  have "b \<noteq> []" using n(1) b(1) ws_head_trim_start [of r] by auto
  moreover have "r = b @ i @ drop n (trim_start r)" using n(4) b(1) by simp
  moreover have "in_classes (replicate 5 id_units) i"
    using seq_head_in_classes [OF n(2)] n(4) by simp
  ultimately show "\<exists>b c. r = b @ i @ c \<and> white b \<and> b \<noteq> [] \<and> white c
      \<and> in_classes (replicate 5 id_units) i"
    using b(2) n(3) trim_start_Nil_iff by blast
next
  assume "\<exists>b c. r = b @ i @ c \<and> white b \<and> b \<noteq> [] \<and> white c
      \<and> in_classes (replicate 5 id_units) i"
  then obtain b c where r: "r = b @ i @ c" "white b" "b \<noteq> []" "white c"
    and i: "in_classes (replicate 5 id_units) i" by blast
  from i have "unit_head id_units (i @ c) \<noteq> 0"
    using in_classes_head [OF _ id_units_ok(1), of "replicate 4 id_units" i c]
    by (simp add: numeral_eq_Suc)
  then have "ws_head (i @ c) = 0"
    unfolding unit_head_ws by (rule unit_head_apart [OF id_units_ok(2)])
  then have t: "trim_start r = i @ c"
    using r(1,2) white_trim_start by simp
  have "list_all prefix_free (replicate 5 id_units)"
    by (simp add: list_all_iff id_units_ok)
  from in_classes_seq_head [OF this i, of c] white_head [OF r(2,3), of "i @ c"] r(4)
  show "match_id r = Some i"
    unfolding match_id_def r(1) [symmetric] t by (simp add: r(1) trim_start_Nil_iff)
qed

lemma match_word_iff:
  assumes "w \<in> set reply_words"
  shows "match_word t w = Some (p, i) \<longleftrightarrow>
    (\<exists>r. t = p @ r \<and> in_classes (map fold_units w) p \<and> match_id r = Some i)"
proof
  assume "match_word t w = Some (p, i)"
  then obtain n where n: "seq_head (map fold_units w) t = Some n" "p = take n t"
      "match_id (drop n t) = Some i"
    unfolding match_word_def by (auto split: option.splits)
  with seq_head_in_classes [OF n(1)] show "\<exists>r. t = p @ r \<and> in_classes (map fold_units w) p
      \<and> match_id r = Some i"
    by (intro exI [of _ "drop n t"]) simp
next
  assume "\<exists>r. t = p @ r \<and> in_classes (map fold_units w) p \<and> match_id r = Some i"
  with in_classes_seq_head [OF word_units_ok(1) [OF assms]]
  show "match_word t w = Some (p, i)"
    by (auto simp: match_word_def)
qed

text \<open>At most one of the four words matches.\<close>

lemma seq_head_Suc: "seq_head (us # uss) t = Some n \<Longrightarrow> unit_head us t \<noteq> 0"
  by (auto simp: Let_def split: if_splits)

lemma match_id_needs_space: "match_id r = Some i \<Longrightarrow> unit_head ws_seqs r \<noteq> 0"
  by (auto simp: match_id_def unit_head_ws split: if_splits)

lemma match_word_parts:
  assumes "match_word t w = Some x"
  obtains n where "seq_head (map fold_units w) t = Some n" "unit_head ws_seqs (drop n t) \<noteq> 0"
proof -
  from assms obtain n i where "seq_head (map fold_units w) t = Some n" "match_id (drop n t) = Some i"
    by (auto simp: match_word_def split: option.splits)
  with match_id_needs_space that show ?thesis by blast
qed

lemma fold_units_apart:
  "units_apart (fold_units (CHR ''y'')) (fold_units (CHR ''n''))"
  "units_apart (fold_units (CHR ''e'')) ws_seqs" "units_apart (fold_units (CHR ''o'')) ws_seqs"
  by code_simp+

lemma match_word_unique:
  assumes "match_word t w = Some x" and "match_word t v = Some y"
    and "w \<in> set reply_words" and "v \<in> set reply_words"
  shows "w = v"
proof -
  obtain n where n: "seq_head (map fold_units w) t = Some n" "unit_head ws_seqs (drop n t) \<noteq> 0"
    using assms(1) by (rule match_word_parts)
  obtain m where m: "seq_head (map fold_units v) t = Some m" "unit_head ws_seqs (drop m t) \<noteq> 0"
    using assms(2) by (rule match_word_parts)
  note a = unit_head_apart [OF fold_units_apart(1)] unit_head_apart [OF fold_units_apart(2)]
    unit_head_apart [OF fold_units_apart(3)]
  from n m assms(3,4) a show ?thesis
    unfolding reply_words_def
    by (auto simp: Let_def split: if_splits)
qed

lemma permission_reply_match:
  "permission_reply text = Some m \<longleftrightarrow>
    (\<exists>w\<in>set reply_words. match_word (trim_start text) w = Some m)"
proof -
  let ?ms = "List.map_filter (match_word (trim_start text)) reply_words"
  have ms: "set ?ms = {m. \<exists>w\<in>set reply_words. match_word (trim_start text) w = Some m}"
    by (auto simp: in_set_map_filter)
  have uniq: "m = m'" if "m \<in> set ?ms" "m' \<in> set ?ms" for m m'
  proof -
    from that obtain w v where w: "w \<in> set reply_words" "match_word (trim_start text) w = Some m"
      and v: "v \<in> set reply_words" "match_word (trim_start text) v = Some m'"
      unfolding ms by blast
    from match_word_unique [OF w(2) v(2) w(1) v(1)] w v show ?thesis by simp
  qed
  have "permission_reply text = Some m \<longleftrightarrow> m \<in> set ?ms"
  proof (cases ?ms)
    case (Cons a as)
    with uniq [of a m] show ?thesis by (auto simp: permission_reply_def)
  qed (simp add: permission_reply_def)
  with ms show ?thesis by blast
qed

lemma permission_reply_iff: "permission_reply text = Some (p, i) \<longleftrightarrow> verdict_reply text p i"
proof
  assume "permission_reply text = Some (p, i)"
  then obtain w where w: "w \<in> set reply_words" "match_word (trim_start text) w = Some (p, i)"
    using permission_reply_match by blast
  obtain a where "text = a @ trim_start text" "white a" using trim_start_white by blast
  with w show "verdict_reply text p i"
    unfolding verdict_reply_def match_word_iff [OF w(1)] match_id_iff by metis
next
  assume "verdict_reply text p i"
  then obtain a b c w where t: "text = a @ p @ b @ i @ c" "white a" "white b" "b \<noteq> []" "white c"
      "w \<in> set reply_words" "in_classes (map fold_units w) p"
      "in_classes (replicate 5 id_units) i"
    unfolding verdict_reply_def by blast
  then obtain c1 cs where w: "w = c1 # cs" by (auto simp: reply_words_def)
  have "unit_head (fold_units c1) (p @ b @ i @ c) \<noteq> 0"
    using t(7) in_classes_head word_units_ok(1) [OF t(6)] w by simp
  then have "ws_head (p @ b @ i @ c) = 0"
    unfolding unit_head_ws using unit_head_apart word_units_ok(2) [OF t(6), of c1] w by simp
  then have "trim_start text = p @ b @ i @ c"
    using t(1,2) white_trim_start by simp
  moreover have "match_id (b @ i @ c) = Some i"
    using t match_id_iff by blast
  ultimately show "permission_reply text = Some (p, i)"
    unfolding permission_reply_match using t(6,7) match_word_iff by blast
qed

text \<open>C18: the classification of an inbound text. A sender who is not on the allowlist is ignored
  whatever the text is; an allowlisted one gives a verdict exactly when the text is in the
  language of the pattern, with the id lowercased and the direction read off the word, and
  everything else is chat.\<close>

theorem classify_inbound_spec:
  "classify_inbound False text = Ignored
   \<and> (classify_inbound True text = Verdict rid b \<longleftrightarrow>
       (\<exists>word i. verdict_reply text word i \<and> rid = to_ascii_lowercase i
          \<and> b = (if prefix ''y'' (to_ascii_lowercase word) then Allow else Deny)))
   \<and> (classify_inbound True text = Chat \<longleftrightarrow> (\<nexists>word i. verdict_reply text word i))
   \<and> classify_inbound True text \<noteq> Ignored"
proof (cases "permission_reply text")
  case None
  then have "\<nexists>word i. verdict_reply text word i"
    using permission_reply_iff by (metis option.distinct(1))
  with None show ?thesis by (simp add: classify_inbound_def)
next
  case (Some m)
  obtain w i where m: "m = (w, i)" by (cases m)
  with Some have v: "verdict_reply text w i" using permission_reply_iff by simp
  have "verdict_reply text w' i' \<longleftrightarrow> w' = w \<and> i' = i" for w' i'
    using Some m permission_reply_iff [of "text" w' i'] by auto
  with Some m show ?thesis
    by (simp only: classify_inbound_def) auto
qed

section \<open>The prompt can be answered\<close>

lemma in_classes_append:
  "in_classes uss a \<Longrightarrow> in_classes vss b \<Longrightarrow> in_classes (uss @ vss) (a @ b)"
proof (induction uss arbitrary: a)
  case (Cons us uss)
  then obtain u v where "u \<in> set us" "a = u @ v" "in_classes uss v" by (auto simp: prefix_def)
  with Cons show ?case by (auto intro!: bexI [of _ u])
qed simp

definition plain_unit :: "char \<Rightarrow> bool" where
  "plain_unit c \<longleftrightarrow> [c] \<in> set id_units \<and> ascii_lower c = c"

lemma id_units_eval:
  "id_units = [''a'', ''A'', ''b'', ''B'', ''c'', ''C'', ''d'', ''D'', ''e'', ''E'', ''f'', ''F'',
     ''g'', ''G'', ''h'', ''H'', ''i'', ''I'', ''j'', ''J'', ''k'', ''K'', kelvin,
     ''m'', ''M'', ''n'', ''N'', ''o'', ''O'', ''p'', ''P'', ''q'', ''Q'', ''r'',
     ''R'', ''s'', ''S'', long_s, ''t'', ''T'', ''u'', ''U'', ''v'', ''V'', ''w'',
     ''W'', ''x'', ''X'', ''y'', ''Y'', ''z'', ''Z'']"
  by code_simp

lemma id_letters_facts: "list_all plain_unit id_letters"
  by (simp add: id_letters_def plain_unit_def id_units_eval ascii_lower_def)

lemma id_in_classes:
  "set i \<subseteq> set id_letters \<Longrightarrow> in_classes (replicate (length i) id_units) i
     \<and> to_ascii_lowercase i = i"
proof (induction i)
  case (Cons c i)
  with id_letters_facts have "[c] \<in> set id_units" "ascii_lower c = c"
    by (auto simp: list_all_iff plain_unit_def)
  with Cons show ?case
    by (auto simp: to_ascii_lowercase_def intro!: bexI [of _ "[c]"])
qed (simp add: to_ascii_lowercase_def)

lemma white_space: "white '' ''"
  using white_app [of "'' ''" "[]"] white_Nil by (simp add: ws_seqs_def)

lemma word_in_classes: "in_classes (map fold_units w) w"
  by (induction w) (auto simp: fold_units_def)

lemma classify_reply:
  assumes "length i = 5" and "set i \<subseteq> set id_letters" and "white a" and "white c"
    and "w \<in> set reply_words"
  shows "classify_inbound True (a @ (w @ '' '') @ i @ c) =
    Verdict i (if prefix ''y'' (to_ascii_lowercase w) then Allow else Deny)"
proof -
  note i = id_in_classes [OF assms(2)]
  have "verdict_reply (a @ (w @ '' '') @ i @ c) w i"
    unfolding verdict_reply_def using assms i white_space word_in_classes
    by (intro exI [of _ a] exI [of _ "'' ''"] exI [of _ c] exI [of _ w]) simp
  then have "permission_reply (a @ (w @ '' '') @ i @ c) = Some (w, i)"
    by (simp only: permission_reply_iff)
  with i show ?thesis by (simp add: classify_inbound_def)
qed

text \<open>C19: the prompt shows the two replies verbatim as its last line, and either of them, sent back
  as it is or with white space around it, is the verdict for exactly this request.\<close>

theorem prompt_reply_roundtrip:
  assumes "length (request_id q) = 5" and "set (request_id q) \<subseteq> set id_letters"
    and "white a" and "white c"
  shows "suffix (NL @ ''Reply '' @ QUOTE @ ''yes '' @ request_id q @ QUOTE
          @ '' or '' @ QUOTE @ ''no '' @ request_id q @ QUOTE) (format_prompt q)
    \<and> classify_inbound True (a @ ''yes '' @ request_id q @ c) = Verdict (request_id q) Allow
    \<and> classify_inbound True (a @ ''no '' @ request_id q @ c) = Verdict (request_id q) Deny"
  using classify_reply [OF assms, of "''yes''"] classify_reply [OF assms, of "''no''"]
  by (simp add: reply_words_def to_ascii_lowercase_def ascii_lower_def format_prompt_def suffix_def)

theorem prompt_reply_roundtrip_witness:
  "classify_inbound True (''\<newline>'' @ ''yes '' @ ''qmzkd'' @ '' '') = Verdict ''qmzkd'' Allow"
proof -
  let ?q = "\<lparr>request_id = ''qmzkd'', tool_name = ''Bash'', description = [], input_preview = []\<rparr>"
  have "white ''\<newline>''"
    using white_app [of "''\<newline>''" "[]"] white_Nil by (simp add: ws_seqs_def)
  from prompt_reply_roundtrip [of ?q, OF _ _ this white_space] show ?thesis
    by (simp add: id_letters_def)
qed

text \<open>However long the two descriptive fields are, the prompt has at most 2,114 bytes besides
  the tool name and the two copies of the id.\<close>

theorem prompt_length_bounded:
  "length (format_prompt q) \<le> 2114 + length (tool_name q) + 2 * length (request_id q)"
  using clipped.cut_length [of "description q" PROMPT_DESCRIPTION_MAX]
    clipped.cut_length [of "input_preview q" PROMPT_PREVIEW_MAX]
  by (simp add: format_prompt_def NL_def QUOTE_def PROMPT_DESCRIPTION_MAX_def
      PROMPT_PREVIEW_MAX_def ellipsis_def)

text \<open>The pattern also takes the long s and the Kelvin sign as id letters, and the lowercasing
  leaves them alone: such a reply is a verdict for an id that no request can have, not chat.\<close>

theorem reply_pattern_accepts_foreign_letters:
  "classify_inbound True (''yes abcd'' @ long_s) = Verdict (''abcd'' @ long_s) Allow
   \<and> classify_inbound True (''no abcd'' @ kelvin) = Verdict (''abcd'' @ kelvin) Deny"
proof -
  have u: "long_s \<in> set id_units" "kelvin \<in> set id_units"
    by (simp_all add: id_units_eval)
  have v: "verdict_reply (w @ '' '' @ (''abcd'' @ x)) w (''abcd'' @ x)"
    if "w \<in> set reply_words" "x \<in> set id_units" for w x
  proof -
    have "in_classes (replicate 4 id_units @ [id_units]) (''abcd'' @ x)"
      using id_in_classes [of "''abcd''"] that(2)
      by (intro in_classes_append) (auto simp: id_letters_def numeral_eq_Suc intro!: bexI [of _ x])
    then have "in_classes (replicate 5 id_units) (''abcd'' @ x)"
      by (simp add: numeral_eq_Suc)
    with that(1) show ?thesis
      unfolding verdict_reply_def using white_Nil white_space word_in_classes
      by (intro exI [of _ "[]"] exI [of _ "'' ''"] exI [of _ w]) simp
  qed
  have l: "to_ascii_lowercase (''abcd'' @ long_s) = ''abcd'' @ long_s"
    "to_ascii_lowercase (''abcd'' @ kelvin) = ''abcd'' @ kelvin"
    "prefix ''y'' (to_ascii_lowercase ''yes'')" "\<not> prefix ''y'' (to_ascii_lowercase ''no'')"
    by code_simp+
  have "permission_reply (''yes '' @ ''abcd'' @ long_s) = Some (''yes'', ''abcd'' @ long_s)"
    "permission_reply (''no '' @ ''abcd'' @ kelvin) = Some (''no'', ''abcd'' @ kelvin)"
    using v [of "''yes''" long_s] v [of "''no''" kelvin] u
    by (simp_all add: permission_reply_iff reply_words_def)
  with l show ?thesis by (simp add: classify_inbound_def)
qed

end
