(* ===== verification/ReadEvents.thy ===== *)
theory ReadEvents
  imports Json ContentSandbox
begin

text \<open>
  The read path of \<open>src/mcp.rs\<close>: \<open>ReadEvent\<close>,
  \<open>read_events_from_chunk\<close>, \<open>reaction_of\<close> and
  \<open>reactions_from_chunk\<close>. A timeline event of matrix-sdk is its kind and the value its
  raw JSON deserialises to, when it does.
\<close>

datatype TimelineEventKind = PlainText | Decrypted | UnableToDecrypt

record TimelineEvent =
  tle_kind :: TimelineEventKind
  tle_raw :: "json option"

record ReadEvent =
  re_event_id :: "rstr option"
  re_sender :: "rstr option"
  re_origin_server_ts :: "nat option"
  re_status :: rstr
  re_event :: "json option"
  re_in_reply_to :: "rstr option"
  re_is_thread_root :: bool
  re_thread_event_count :: "nat option"
  re_untrusted_body :: "rstr option"
  re_suspicious :: bool

section \<open>Decoding a batch\<close>

definition tle_value :: "TimelineEvent \<Rightarrow> json" where
  "tle_value t = (case tle_raw t of None \<Rightarrow> JNull | Some v \<Rightarrow> v)"

text \<open>The thread root a value refers to.\<close>

definition thread_root_of :: "json \<Rightarrow> rstr option" where
  "thread_root_of v = (case jpath v [''content'', ''m.relates_to''] of None \<Rightarrow> None
     | Some rel \<Rightarrow> (case jstr_at rel [''rel_type''] of None \<Rightarrow> None
       | Some t \<Rightarrow> if t = ''m.thread'' then jstr_at rel [''event_id''] else None))"

definition thread_roots :: "json list \<Rightarrow> rstr set" where
  "thread_roots values = set (List.map_filter thread_root_of values)"

definition status_and_body :: "TimelineEventKind \<Rightarrow> json \<Rightarrow> rstr \<times> json option" where
  "status_and_body k v = (case k of
       PlainText \<Rightarrow> (''plaintext'', Some v)
     | Decrypted \<Rightarrow> (''decrypted'', Some v)
     | UnableToDecrypt \<Rightarrow> (''unable_to_decrypt'', None))"

definition read_event :: "rstr set \<Rightarrow> TimelineEvent \<Rightarrow> json \<Rightarrow> ReadEvent" where
  "read_event roots t value =
     (let (status, body) = status_and_body (tle_kind t) value;
          event_id = jstr_at value [''event_id''];
          sender = jstr_at value [''sender''];
          room_id = jstr_at value [''room_id''];
          (untrusted, susp) = (case jstr_at value [''content'', ''body''] of
              None \<Rightarrow> (None, False)
            | Some b \<Rightarrow> let v = evaluate room_id sender event_id b in (Some (wrapped v), suspicious v))
      in \<lparr>re_event_id = event_id,
          re_sender = sender,
          re_origin_server_ts = Option.bind (jget value ''origin_server_ts'') as_u64,
          re_status = status,
          re_event = body,
          re_in_reply_to =
            jstr_at value [''content'', ''m.relates_to'', ''m.in_reply_to'', ''event_id''],
          re_is_thread_root = (case event_id of None \<Rightarrow> False | Some i \<Rightarrow> i \<in> roots),
          re_thread_event_count = Option.bind
            (jpath value [''unsigned'', ''m.relations'', ''m.thread'', ''count'']) as_u64,
          re_untrusted_body = untrusted,
          re_suspicious = susp\<rparr>)"

definition read_events_from_chunk :: "TimelineEvent list \<Rightarrow> ReadEvent list" where
  "read_events_from_chunk chunk =
     (let values = map tle_value chunk; roots = thread_roots values
      in map2 (read_event roots) chunk values)"

section \<open>Reactions\<close>

record Reaction =
  rn_event_id :: "rstr option"
  rn_annotates :: rstr
  rn_sender :: "rstr option"
  rn_key :: rstr
  rn_origin_server_ts :: "nat option"

text \<open>\<open>Inl ()\<close> is the source's \<open>Err(())\<close>.\<close>

definition reaction_of :: "ReadEvent \<Rightarrow> rstr \<Rightarrow> unit + Reaction option" where
  "reaction_of e annotates =
     (if re_status e = ''unable_to_decrypt'' then Inl ()
      else case Option.bind (re_event e) (\<lambda>v. jget v ''content'') of
        None \<Rightarrow> Inl ()
      | Some content \<Rightarrow> (case jget content ''m.relates_to'' of
          None \<Rightarrow> Inr None
        | Some rel \<Rightarrow> (case jstr_at rel [''rel_type''] of
            None \<Rightarrow> Inl ()
          | Some t \<Rightarrow> if t \<noteq> ''m.annotation'' then Inr None
              else if jstr_at rel [''event_id''] \<noteq> Some annotates then Inl ()
              else (case jstr_at rel [''key''] of
                None \<Rightarrow> Inl ()
              | Some key \<Rightarrow> Inr (Some
                  \<lparr>rn_event_id = re_event_id e, rn_annotates = annotates, rn_sender = re_sender e,
                   rn_key = key, rn_origin_server_ts = re_origin_server_ts e\<rparr>)))))"

fun reactions_from_chunk :: "ReadEvent list \<Rightarrow> rstr \<Rightarrow> Reaction list \<times> nat" where
  "reactions_from_chunk [] annotates = ([], 0)"
| "reactions_from_chunk (e # es) annotates =
     (let (rs, unreadable) = reactions_from_chunk es annotates in
      case reaction_of e annotates of
        Inr (Some r) \<Rightarrow> (r # rs, unreadable)
      | Inr None \<Rightarrow> (rs, unreadable)
      | Inl _ \<Rightarrow> (rs, unreadable + 1))"

section \<open>Facts\<close>

lemma read_events_from_chunk_map:
  "read_events_from_chunk chunk =
     map (\<lambda>t. read_event (thread_roots (map tle_value chunk)) t (tle_value t)) chunk"
  by (simp add: read_events_from_chunk_def Let_def map2_map_map [of _ "\<lambda>x. x", simplified])

lemma read_event_body:
  "re_untrusted_body (read_event roots t v) = map_option
     (wrap_body (jstr_at v [''room_id'']) (jstr_at v [''sender'']) (jstr_at v [''event_id'']))
     (jstr_at v [''content'', ''body''])"
  "re_suspicious (read_event roots t v) =
     (case jstr_at v [''content'', ''body''] of None \<Rightarrow> False | Some b \<Rightarrow> is_suspicious b)"
  by (auto simp: read_event_def Let_def evaluate_def split: prod.splits option.splits)

lemma read_event_fields [simp]:
  "re_event_id (read_event roots t v) = jstr_at v [''event_id'']"
  "re_sender (read_event roots t v) = jstr_at v [''sender'']"
  "re_event (read_event roots t v) = (if tle_kind t = UnableToDecrypt then None else Some v)"
  "re_status (read_event roots t v) = ''unable_to_decrypt'' \<longleftrightarrow> tle_kind t = UnableToDecrypt"
  "re_is_thread_root (read_event roots t v) =
     (case jstr_at v [''event_id''] of None \<Rightarrow> False | Some i \<Rightarrow> i \<in> roots)"
  by (auto simp: read_event_def Let_def status_and_body_def
      split: prod.splits option.splits TimelineEventKind.splits)

text \<open>Events whose body is framed: what every consumer of the read path relies on.\<close>

definition body_framed :: "ReadEvent \<Rightarrow> bool" where
  "body_framed e \<longleftrightarrow> (case re_untrusted_body e of None \<Rightarrow> True | Some w \<Rightarrow>
     prefix ''<matrix:message '' w \<and> suffix ''</matrix:message>'' w
     \<and> occurrences ''<matrix:message'' w = 1 \<and> occurrences ''</matrix:message'' w = 1)"

lemma wrap_body_framed:
  "prefix ''<matrix:message '' (wrap_body r s e b) \<and> suffix ''</matrix:message>'' (wrap_body r s e b)
   \<and> occurrences ''<matrix:message'' (wrap_body r s e b) = 1
   \<and> occurrences ''</matrix:message'' (wrap_body r s e b) = 1"
  by (rule wrapped_body_frame [THEN conjunct1])


text \<open>An event is reported as a thread root exactly when an event of the same batch is a thread
  reply to it.\<close>

theorem thread_root_iff_referenced:
  "list_all2 (\<lambda>t e. re_is_thread_root e \<longleftrightarrow>
      (\<exists>i. jstr_at (tle_value t) [''event_id''] = Some i
        \<and> (\<exists>u\<in>set chunk. jstr_at (tle_value u) [''content'', ''m.relates_to'', ''rel_type'']
               = Some ''m.thread''
             \<and> jstr_at (tle_value u) [''content'', ''m.relates_to'', ''event_id''] = Some i)))
     chunk (read_events_from_chunk chunk)"
proof -
  have "thread_root_of v = Some i \<longleftrightarrow>
      jstr_at v [''content'', ''m.relates_to'', ''rel_type''] = Some ''m.thread''
      \<and> jstr_at v [''content'', ''m.relates_to'', ''event_id''] = Some i" for v i
    by (auto simp: thread_root_of_def jstr_at_Cons2 jpath_two bind_eq_Some_conv
        split: option.splits bind_splits if_splits)
  then have "i \<in> thread_roots (map tle_value chunk) \<longleftrightarrow>
      (\<exists>u\<in>set chunk. jstr_at (tle_value u) [''content'', ''m.relates_to'', ''rel_type'']
               = Some ''m.thread''
             \<and> jstr_at (tle_value u) [''content'', ''m.relates_to'', ''event_id''] = Some i)" for i
    by (simp add: thread_roots_def in_set_map_filter)
  then show ?thesis
    by (auto simp: read_events_from_chunk_map list_all2_conv_all_nth split: option.splits)
qed

section \<open>Reactions are never guessed\<close>

definition reaction_on :: "ReadEvent \<Rightarrow> rstr \<Rightarrow> rstr \<Rightarrow> bool" where
  "reaction_on e target key \<longleftrightarrow> re_status e \<noteq> ''unable_to_decrypt''
     \<and> (\<exists>v. re_event e = Some v
         \<and> jstr_at v [''content'', ''m.relates_to'', ''rel_type''] = Some ''m.annotation''
         \<and> jstr_at v [''content'', ''m.relates_to'', ''event_id''] = Some target
         \<and> jstr_at v [''content'', ''m.relates_to'', ''key''] = Some key)"

text \<open>A readable event that is plainly something else: no relation, or one of another type.\<close>

definition not_a_reaction :: "ReadEvent \<Rightarrow> bool" where
  "not_a_reaction e \<longleftrightarrow> re_status e \<noteq> ''unable_to_decrypt''
     \<and> (\<exists>v c. re_event e = Some v \<and> jget v ''content'' = Some c
         \<and> (jget c ''m.relates_to'' = None
            \<or> (\<exists>t. jstr_at c [''m.relates_to'', ''rel_type''] = Some t \<and> t \<noteq> ''m.annotation'')))"

lemma reaction_of_Some:
  "reaction_of e a = Inr (Some r) \<longleftrightarrow> reaction_on e a (rn_key r)
     \<and> r = \<lparr>rn_event_id = re_event_id e, rn_annotates = a, rn_sender = re_sender e,
            rn_key = rn_key r, rn_origin_server_ts = re_origin_server_ts e\<rparr>"
  by (cases r) (auto simp: reaction_of_def reaction_on_def jstr_at_Cons2 bind_eq_Some_conv
      split: option.splits if_splits bind_splits)

lemma reaction_of_None: "reaction_of e a = Inr None \<longleftrightarrow> not_a_reaction e"
  by (auto simp: reaction_of_def not_a_reaction_def jstr_at_Cons2 bind_eq_Some_conv
      split: option.splits if_splits bind_splits)

lemma reaction_case: "(case x of Inr (Some r) \<Rightarrow> Some r | _ \<Rightarrow> None) = Some q \<longleftrightarrow> x = Inr (Some q)"
  by (auto split: sum.splits option.splits)

lemma reactions_from_chunk_eq:
  "reactions_from_chunk es a =
     (List.map_filter (\<lambda>e. case reaction_of e a of Inr (Some r) \<Rightarrow> Some r | _ \<Rightarrow> None) es,
      length (filter (\<lambda>e. isl (reaction_of e a)) es))"
  by (induction es) (auto simp: List.map_filter_simps split: sum.splits option.splits)

text \<open>An empty answer means that nobody reacted only when nothing was unreadable: the reactions
  are exactly the readable annotations of the event asked about, and every other entry that is not
  plainly something else is counted.\<close>

theorem reactions_are_exact:
  "(r \<in> set (fst (reactions_from_chunk es a)) \<longleftrightarrow>
      (\<exists>e\<in>set es. reaction_on e a (rn_key r)
         \<and> r = \<lparr>rn_event_id = re_event_id e, rn_annotates = a, rn_sender = re_sender e,
                rn_key = rn_key r, rn_origin_server_ts = re_origin_server_ts e\<rparr>))
   \<and> snd (reactions_from_chunk es a) =
      length (filter (\<lambda>e. \<not> not_a_reaction e \<and> (\<nexists>k. reaction_on e a k)) es)"
proof -
  have "isl (reaction_of e a) \<longleftrightarrow> \<not> not_a_reaction e \<and> (\<nexists>k. reaction_on e a k)" for e
  proof (cases "reaction_of e a")
    case (Inl u)
    then have "\<not> not_a_reaction e" using reaction_of_None by (metis Inr_not_Inl)
    moreover have "\<not> reaction_on e a k" for k
      using Inl reaction_of_Some [of e a "\<lparr>rn_event_id = re_event_id e, rn_annotates = a,
          rn_sender = re_sender e, rn_key = k, rn_origin_server_ts = re_origin_server_ts e\<rparr>"]
      by auto
    ultimately show ?thesis using Inl by simp
  next
    case (Inr x)
    then have "\<not> isl (reaction_of e a)" by simp
    moreover have "not_a_reaction e \<or> (\<exists>k. reaction_on e a k)"
      using Inr reaction_of_None [of e a] reaction_of_Some [of e a] by (metis option.exhaust)
    ultimately show ?thesis by blast
  qed
  moreover have "r \<in> set (fst (reactions_from_chunk es a)) \<longleftrightarrow>
      (\<exists>e\<in>set es. reaction_of e a = Inr (Some r))"
    by (simp add: reactions_from_chunk_eq in_set_map_filter reaction_case)
  ultimately show ?thesis
    by (simp add: reactions_from_chunk_eq reaction_of_Some del: reactions_from_chunk.simps)
qed

end
