(* ===== verification/ChannelReply.thy ===== *)
theory ChannelReply
  imports ChannelReplay
begin

text \<open>
  Replies and quotations of \<open>src/channel.rs\<close>: \<open>quotable_from\<close>,
  \<open>quotable_body\<close>, \<open>quote_excerpt\<close>, \<open>ReplyRef\<close>,
  \<open>resolve_reply\<close> and \<open>reply_ref_from\<close>. The homeserver lookup
  \<open>room.event\<close> and the event-id parser of ruma are arguments.
\<close>

definition QUOTE_MAX :: nat where "QUOTE_MAX = 240"

definition quotable_body :: "ReadEvent \<Rightarrow> rstr option" where
  "quotable_body e = Option.bind (carried_of e) (\<lambda>carried.
     Option.bind (case replay_body_source carried e of
         NewContent t \<Rightarrow> Some t
       | Empty \<Rightarrow> None
       | AsRead \<Rightarrow> (case carried of
           Message \<Rightarrow> raw_body e
         | Attachment _ _ caption \<Rightarrow> caption
         | Reaction _ _ \<Rightarrow> None))
       (\<lambda>body. if is_verdict (classify_inbound True body) then None else Some body))"

type_synonym quotable = "(rstr, rstr \<times> rstr option) hmap"

definition quotable_step :: "quotable \<times> rstr set \<Rightarrow> ReadEvent \<Rightarrow> quotable \<times> rstr set" where
  "quotable_step qa e = (case (re_event_id e, re_sender e) of
      (Some i, Some s) \<Rightarrow>
        (hm_insert (fst qa) i (s, quotable_body e),
         if hm_get (fst qa) i \<noteq> None then insert i (snd qa) else snd qa)
    | _ \<Rightarrow> qa)"

definition quotable_from :: "ReadEvent list \<Rightarrow> quotable" where
  "quotable_from decoded =
     (let (q, ambiguous) = foldl quotable_step ([], {}) decoded
      in hm_retain (\<lambda>i _. i \<notin> ambiguous) q)"

record ReplyRef =
  rr_event_id :: rstr
  rr_sender :: "rstr option"
  rr_excerpt :: "rstr option"
  rr_suspicious :: bool
  rr_unresolved :: bool
  rr_untrusted_sender :: bool

definition quote_excerpt :: "rstr \<Rightarrow> (rstr \<times> bool) option" where
  "quote_excerpt body =
     (let trimmed = trim body in
      if trimmed = [] then None
      else Some (escape_injection_markers (clip trimmed QUOTE_MAX), is_suspicious trimmed))"

definition reply_resolved ::
  "rstr \<Rightarrow> rstr option \<Rightarrow> rstr option \<Rightarrow> rstr \<Rightarrow> rstr list \<Rightarrow> ReplyRef" where
  "reply_resolved event_id sender body mxid allowed =
     (let (excerpt, susp) = (case Option.bind body quote_excerpt of
          None \<Rightarrow> (None, False) | Some (t, flag) \<Rightarrow> (Some t, flag))
      in \<lparr>rr_event_id = event_id, rr_sender = sender, rr_excerpt = excerpt, rr_suspicious = susp,
          rr_unresolved = False,
          rr_untrusted_sender = (case sender of None \<Rightarrow> True
            | Some s \<Rightarrow> s \<noteq> mxid \<and> s \<notin> set allowed)\<rparr>)"

definition reply_unresolved :: "rstr \<Rightarrow> ReplyRef" where
  "reply_unresolved event_id =
     \<lparr>rr_event_id = event_id, rr_sender = None, rr_excerpt = None, rr_suspicious = False,
      rr_unresolved = True, rr_untrusted_sender = False\<rparr>"

definition reply_meta :: "ReplyRef \<Rightarrow> attrs" where
  "reply_meta r = (''in_reply_to'', rr_event_id r) #
     (if rr_unresolved r then [(''in_reply_to_unresolved'', ''true'')]
      else (case rr_sender r of None \<Rightarrow> [] | Some s \<Rightarrow> [(''in_reply_to_sender'', s)])
        @ (case rr_excerpt r of None \<Rightarrow> [] | Some x \<Rightarrow> [(''in_reply_to_excerpt'', x)])
        @ (if rr_untrusted_sender r then [(''in_reply_to_untrusted_sender'', ''true'')] else [])
        @ (if rr_suspicious r then [(''in_reply_to_suspicious'', ''true'')] else []))"

definition reply_ref_from :: "ReadEvent \<Rightarrow> rstr \<Rightarrow> rstr \<Rightarrow> rstr list \<Rightarrow> ReplyRef" where
  "reply_ref_from r target mxid allowed =
     (if re_status r = ''unable_to_decrypt'' then reply_unresolved target
      else if re_event_id r \<noteq> Some target then reply_unresolved target
      else reply_resolved target (re_sender r) (quotable_body r) mxid allowed)"

text \<open>\<open>parse\<close> is ruma's event-id parser, \<open>fetch\<close> the room's event lookup.\<close>

definition resolve_reply ::
  "(rstr \<Rightarrow> bool) \<Rightarrow> (rstr \<Rightarrow> TimelineEvent option) \<Rightarrow> rstr \<Rightarrow> (rstr \<times> rstr option) option
     \<Rightarrow> rstr \<Rightarrow> rstr list \<Rightarrow> ReplyRef" where
  "resolve_reply parse fetch target known mxid allowed = (case known of
      Some (sender, body) \<Rightarrow> reply_resolved target (Some sender) body mxid allowed
    | None \<Rightarrow>
        if \<not> parse target then reply_unresolved target
        else (case fetch target of
          None \<Rightarrow> reply_unresolved target
        | Some fetched \<Rightarrow>
            (let decoded = read_events_from_chunk [fetched] in
             if decoded = [] then reply_unresolved target
             else reply_ref_from (last decoded) target mxid allowed)))"

section \<open>What a quotation can carry\<close>

lemma quotable_body_not_verdict:
  "quotable_body e = Some b \<Longrightarrow> \<not> is_verdict (classify_inbound True b)"
  by (auto simp: quotable_body_def bind_eq_Some_conv split: if_splits)

lemma quote_excerpt_safe:
  "quote_excerpt b = Some (x, s) \<Longrightarrow> m \<in> set forbidden_markers \<Longrightarrow> \<not> contains_str x m"
  using delimiter_absent role_token_absent
  by (auto simp: quote_excerpt_def Let_def forbidden_markers_def split: if_splits)

lemma reply_resolved_facts:
  "rr_event_id (reply_resolved t s b mxid allowed) = t"
  "rr_sender (reply_resolved t s b mxid allowed) = s"
  "\<not> rr_unresolved (reply_resolved t s b mxid allowed)"
  "rr_untrusted_sender (reply_resolved t s b mxid allowed) \<longleftrightarrow>
     (case s of None \<Rightarrow> True | Some s \<Rightarrow> s \<noteq> mxid \<and> s \<notin> set allowed)"
  "rr_excerpt (reply_resolved t s b mxid allowed) = map_option fst (Option.bind b quote_excerpt)"
  by (auto simp: reply_resolved_def Let_def split: option.splits)

lemma excerpt_no_markers:
  "rr_excerpt (reply_resolved t s b mxid allowed) = Some x \<Longrightarrow> m \<in> set forbidden_markers
    \<Longrightarrow> \<not> contains_str x m"
  by (auto simp: reply_resolved_facts bind_eq_Some_conv quote_excerpt_safe)

text \<open>C24: a reference always names its target; it is resolved only from the batch or from a readable
  event with that very id; an excerpt holds no sandbox delimiter, channel delimiter or role token;
  and words of a sender who is neither the identity itself nor on the allowlist are always marked
  as such.\<close>

theorem resolve_reply_honest:
  fixes parse fetch target known mxid allowed
  defines "r \<equiv> resolve_reply parse fetch target known mxid allowed"
  shows "rr_event_id r = target
    \<and> (\<not> rr_unresolved r \<longrightarrow> (case known of Some (s, b) \<Rightarrow> rr_sender r = Some s
         | None \<Rightarrow> \<exists>t. fetch target = Some t \<and> tle_kind t \<noteq> UnableToDecrypt
             \<and> jstr_at (tle_value t) [''event_id''] = Some target
             \<and> rr_sender r = jstr_at (tle_value t) [''sender'']))
    \<and> (\<forall>x. rr_excerpt r = Some x \<longrightarrow> \<not> rr_unresolved r
         \<and> list_all (\<lambda>m. \<not> contains_str x m) forbidden_markers
         \<and> (\<not> rr_untrusted_sender r \<longrightarrow>
              (\<exists>s. rr_sender r = Some s \<and> (s = mxid \<or> s \<in> set allowed))))"
proof (cases known)
  case (Some sb)
  obtain s b where sb: "sb = (s, b)" by (cases sb)
  with Some have "r = reply_resolved target (Some s) b mxid allowed"
    by (simp add: r_def resolve_reply_def)
  with Some sb show ?thesis
    by (auto simp: reply_resolved_facts list_all_iff excerpt_no_markers)
next
  case None
  have u: "rr_event_id (reply_unresolved target) = target"
    "rr_unresolved (reply_unresolved target)" "rr_excerpt (reply_unresolved target) = None"
    by (simp_all add: reply_unresolved_def)
  show ?thesis
  proof (cases "parse target \<and> (\<exists>t. fetch target = Some t \<and> tle_kind t \<noteq> UnableToDecrypt
      \<and> jstr_at (tle_value t) [''event_id''] = Some target)")
    case True
    then obtain t where t: "parse target" "fetch target = Some t" "tle_kind t \<noteq> UnableToDecrypt"
        "jstr_at (tle_value t) [''event_id''] = Some target" by blast
    let ?e = "read_event (thread_roots [tle_value t]) t (tle_value t)"
    have "r = reply_resolved target (jstr_at (tle_value t) [''sender'']) (quotable_body ?e)
        mxid allowed"
      using None t
      by (simp add: r_def resolve_reply_def read_events_from_chunk_map reply_ref_from_def)
    with None t show ?thesis
      by (auto simp: reply_resolved_facts list_all_iff excerpt_no_markers split: option.splits)
  next
    case False
    then have "r = reply_unresolved target"
      using None by (auto simp: r_def resolve_reply_def read_events_from_chunk_map
          reply_ref_from_def split: option.splits)
    with None u show ?thesis by simp
  qed
qed

theorem resolve_reply_honest_witness:
  "rr_sender (resolve_reply (\<lambda>_. True) (\<lambda>_. None) ''$1'' (Some (''@a:x'', None)) ''@b:x'' []) = Some ''@a:x''"
  using resolve_reply_honest [where parse = "\<lambda>_. True" and fetch = "\<lambda>_. None" and target = "''$1''"
      and known = "Some (''@a:x'', None)" and mxid = "''@b:x''" and allowed = "[]"]
  by (simp add: resolve_reply_def reply_resolved_def)

section \<open>The batch of quotable messages\<close>

definition quotes_id :: "rstr \<Rightarrow> ReadEvent \<Rightarrow> bool" where
  "quotes_id i e \<longleftrightarrow> re_event_id e = Some i \<and> re_sender e \<noteq> None"

lemma quotable_step_hit:
  "re_event_id e = Some i \<Longrightarrow> re_sender e = Some s \<Longrightarrow> quotable_step qa e =
    (hm_insert (fst qa) i (s, quotable_body e),
     if hm_get (fst qa) i \<noteq> None then insert i (snd qa) else snd qa)"
  by (simp add: quotable_step_def)

lemma quotable_step_skip:
  "re_event_id e = None \<or> re_sender e = None \<Longrightarrow> quotable_step qa e = qa"
  by (auto simp: quotable_step_def split: option.splits)

lemma quotable_fold:
  "hm_ok (fst (foldl quotable_step ([], {}) es))
   \<and> hm_get (fst (foldl quotable_step ([], {}) es)) i =
       (case rev (filter (quotes_id i) es) of [] \<Rightarrow> None
        | e # _ \<Rightarrow> Some (the (re_sender e), quotable_body e))
   \<and> (i \<in> snd (foldl quotable_step ([], {}) es) \<longleftrightarrow> 2 \<le> length (filter (quotes_id i) es))"
proof (induction es rule: rev_induct)
  case (snoc e es)
  let ?q = "foldl quotable_step ([], {}) es"
  consider "quotes_id i e" | j where "j \<noteq> i" "quotes_id j e" | "\<forall>j. \<not> quotes_id j e"
    by metis
  then show ?case
  proof cases
    case 1
    then obtain s where e: "re_event_id e = Some i" "re_sender e = Some s"
      by (auto simp: quotes_id_def)
    have "hm_get (fst ?q) i \<noteq> None \<longleftrightarrow> 1 \<le> length (filter (quotes_id i) es)"
      using snoc by (cases "filter (quotes_id i) es" rule: rev_cases) auto
    then have "i \<in> snd (quotable_step ?q e) \<longleftrightarrow> 1 \<le> length (filter (quotes_id i) es)"
      using snoc.IH e by (simp add: quotable_step_hit)
    moreover have "fst (quotable_step ?q e) = hm_insert (fst ?q) i (s, quotable_body e)"
      using e by (simp add: quotable_step_hit)
    ultimately show ?thesis
      using snoc.IH 1 e(2) by (simp add: hm_simps)
  next
    case (2 j)
    then obtain s where "re_event_id e = Some j" "re_sender e = Some s" by (auto simp: quotes_id_def)
    with snoc.IH 2(1) show ?thesis by (simp add: quotable_step_hit hm_simps quotes_id_def)
  next
    case 3
    then have "re_event_id e = None \<or> re_sender e = None" by (auto simp: quotes_id_def)
    with snoc.IH 3 show ?thesis by (simp add: quotable_step_skip)
  qed
qed simp

text \<open>The batch quotes a message exactly when one event of it has that id and a sender; two
  events that claim one id are quoted under neither name.\<close>

theorem quotable_from_spec:
  "hm_get (quotable_from es) i = (case filter (quotes_id i) es of
      [e] \<Rightarrow> Some (the (re_sender e), quotable_body e) | _ \<Rightarrow> None)"
proof -
  have "hm_get (quotable_from es) i = (if 2 \<le> length (filter (quotes_id i) es) then None
      else case rev (filter (quotes_id i) es) of [] \<Rightarrow> None
        | e # _ \<Rightarrow> Some (the (re_sender e), quotable_body e))"
    using quotable_fold [of es i]
    by (auto simp: quotable_from_def case_prod_unfold Let_def hm_simps split: option.splits)
  then show ?thesis
    by (cases "filter (quotes_id i) es" rule: remdups_adj.cases) auto
qed

end
