(* ===== verification/ChannelRegistry.thy ===== *)
theory ChannelRegistry
  imports ChannelReply
begin

text \<open>
  \<open>ChannelRegistry\<close> of \<open>src/channel.rs\<close>: the live peers of each identity, the
  cached channel configs, the outstanding permission prompts and the rooms last written in.
  Every operation that awaits a send is split where the source holds no lock, and the state of
  the transports (\<open>closed\<close>, \<open>send_ok\<close>) is an argument of each part.
\<close>

definition ALLOWLIST_TTL :: nat where "ALLOWLIST_TTL = 60"
definition PENDING_TTL :: nat where "PENDING_TTL = 15 * 60"
definition PENDING_MAX :: nat where "PENDING_MAX = 256"
definition PERMISSION_VERDICT_NOTIFICATION :: rstr where
  "PERMISSION_VERDICT_NOTIFICATION = ''notifications/claude/channel/permission''"

record ChannelConfig =
  allowed_senders :: "rstr list"
  config_permission_room :: "rstr option"

definition default_config :: ChannelConfig where
  "default_config = \<lparr>allowed_senders = [], config_permission_room = None\<rparr>"

text \<open>What the account-data request answers.\<close>

datatype ConfigFetch = Fetched ChannelConfig | Malformed | Absent | Unreadable

record Pending =
  issued :: instant
  session_key :: rstr
  serial :: nat

type_synonym pending_key = "rstr \<times> rstr"
type_synonym pending_map = "(pending_key, Pending) hmap"

text \<open>
  \<open>next_serial\<close> counts the prompts issued by the process; the 64-bit counter holds its
  remainder. A notification is a method and its parameters, written to a peer.
\<close>

record 'p Registry =
  inner :: "(rstr, (rstr, 'p) hmap) hmap"
  configs :: "(rstr, instant \<times> ChannelConfig) hmap"
  pending :: pending_map
  last_rooms :: "(rstr, rstr) hmap"
  replaying :: "rstr list"
  next_serial :: nat

type_synonym 'p sent = "('p \<times> rstr \<times> json) list"

definition new_registry :: "'p Registry" where
  "new_registry = \<lparr>inner = [], configs = [], pending = [], last_rooms = [], replaying = [],
     next_serial = 0\<rparr>"

section \<open>Peers\<close>

definition entry_or_default :: "('k, ('j, 'v) hmap) hmap \<Rightarrow> 'k \<Rightarrow> ('j, 'v) hmap" where
  "entry_or_default m k = (case hm_get m k of None \<Rightarrow> [] | Some v \<Rightarrow> v)"

definition register :: "('p \<Rightarrow> bool) \<Rightarrow> rstr \<Rightarrow> rstr \<Rightarrow> 'p \<Rightarrow> 'p Registry \<Rightarrow> 'p Registry" where
  "register closed mxid key peer st =
     (let peers = hm_retain (\<lambda>_ p. \<not> closed p) (entry_or_default (inner st) mxid)
      in st\<lparr>inner := hm_insert (inner st) mxid (hm_insert peers key peer)\<rparr>)"

definition live_peers :: "('p \<Rightarrow> bool) \<Rightarrow> rstr \<Rightarrow> 'p Registry \<Rightarrow> nat" where
  "live_peers closed mxid st = (case hm_get (inner st) mxid of None \<Rightarrow> 0
     | Some peers \<Rightarrow> length peers - length (filter (\<lambda>(_, p). closed p) peers))"

text \<open>The sweep and the snapshot, under the lock; \<open>None\<close> when \<open>notify\<close> returns 0 here.\<close>

definition notify_begin ::
  "('p \<Rightarrow> bool) \<Rightarrow> rstr \<Rightarrow> 'p Registry \<Rightarrow> (rstr, 'p) hmap option \<times> 'p Registry" where
  "notify_begin closed mxid st = (case hm_get (inner st) mxid of
      None \<Rightarrow> (None, st)
    | Some peers \<Rightarrow>
        (let live = hm_retain (\<lambda>_ p. \<not> closed p) peers;
             st' = st\<lparr>inner := hm_insert (inner st) mxid live\<rparr>
         in (if live = [] then None else Some live, st')))"

text \<open>The sends, with no lock held: what was written, and the keys whose send failed.\<close>

fun notify_sends ::
  "('p \<Rightarrow> bool) \<Rightarrow> json \<Rightarrow> (rstr, 'p) hmap \<Rightarrow> 'p sent \<times> rstr list" where
  "notify_sends send_ok params [] = ([], [])"
| "notify_sends send_ok params ((key, p) # ps) =
     (let (sent, failed) = notify_sends send_ok params ps in
      if send_ok p then ((p, CHANNEL_NOTIFICATION, params) # sent, failed)
      else (sent, key # failed))"

definition notify_end ::
  "('p \<Rightarrow> bool) \<Rightarrow> rstr \<Rightarrow> rstr list \<Rightarrow> 'p Registry \<Rightarrow> 'p Registry" where
  "notify_end closed mxid failed st =
     (if failed = [] then st
      else case hm_get (inner st) mxid of
        None \<Rightarrow> st
      | Some live \<Rightarrow>
          (let live = hm_retain (\<lambda>_ p. \<not> closed p) (foldl hm_remove live failed)
           in if live = [] then st\<lparr>inner := hm_remove (inner st) mxid\<rparr>
              else st\<lparr>inner := hm_insert (inner st) mxid live\<rparr>))"

definition notify ::
  "('p \<Rightarrow> bool) \<Rightarrow> ('p \<Rightarrow> bool) \<Rightarrow> rstr \<Rightarrow> rstr \<Rightarrow> meta \<Rightarrow> 'p Registry
     \<Rightarrow> nat \<times> 'p sent \<times> 'p Registry" where
  "notify closed send_ok mxid content meta st =
     (case notify_begin closed mxid st of
        (None, st) \<Rightarrow> (0, [], st)
      | (Some peers, st) \<Rightarrow>
          (let (sent, failed) = notify_sends send_ok (build_params content meta) peers
           in (length sent, sent, notify_end closed mxid failed st)))"

section \<open>Config and rooms\<close>

definition config_of_fetch :: "ConfigFetch \<Rightarrow> ChannelConfig" where
  "config_of_fetch r = (case r of Fetched c \<Rightarrow> c | Malformed \<Rightarrow> default_config
     | Absent \<Rightarrow> default_config | Unreadable \<Rightarrow> default_config)"

text \<open>\<open>now\<close> at the read, \<open>later\<close> when the fetch has answered.\<close>

definition config ::
  "instant \<Rightarrow> instant \<Rightarrow> ConfigFetch \<Rightarrow> rstr \<Rightarrow> 'p Registry \<Rightarrow> ChannelConfig \<times> 'p Registry" where
  "config now later fetch mxid st =
     (case (case hm_get (configs st) mxid of None \<Rightarrow> None
            | Some (fetched, c) \<Rightarrow> if now - fetched < ALLOWLIST_TTL then Some c else None) of
        Some c \<Rightarrow> (c, st)
      | None \<Rightarrow> (let c = config_of_fetch fetch
                 in (c, st\<lparr>configs := hm_insert (configs st) mxid (later, c)\<rparr>)))"

definition allowlist ::
  "instant \<Rightarrow> instant \<Rightarrow> ConfigFetch \<Rightarrow> rstr \<Rightarrow> 'p Registry \<Rightarrow> rstr list \<times> 'p Registry" where
  "allowlist now later fetch mxid st =
     (let (c, st) = config now later fetch mxid st in (allowed_senders c, st))"

definition remember_room :: "rstr \<Rightarrow> rstr \<Rightarrow> 'p Registry \<Rightarrow> 'p Registry" where
  "remember_room mxid room_id st = st\<lparr>last_rooms := hm_insert (last_rooms st) mxid room_id\<rparr>"

definition permission_room ::
  "instant \<Rightarrow> instant \<Rightarrow> ConfigFetch \<Rightarrow> rstr \<Rightarrow> 'p Registry \<Rightarrow> rstr option \<times> 'p Registry" where
  "permission_room now later fetch mxid st =
     (let (c, st) = config now later fetch mxid st in
      case config_permission_room c of
        Some room \<Rightarrow> (Some room, st)
      | None \<Rightarrow> (hm_get (last_rooms st) mxid, st))"

section \<open>Permission prompts\<close>

definition answerable :: "instant \<Rightarrow> Pending \<Rightarrow> bool" where
  "answerable now p \<longleftrightarrow> now - issued p < PENDING_TTL"

definition has_pending :: "instant \<Rightarrow> rstr \<Rightarrow> 'p Registry \<Rightarrow> bool" where
  "has_pending now mxid st =
     list_ex (\<lambda>((owner, _), p). owner = mxid \<and> answerable now p) (pending st)"

function evict_oldest :: "pending_map \<Rightarrow> pending_map" where
  "evict_oldest m = (if length m < PENDING_MAX then m
     else case min_by_key (\<lambda>(_, p). issued p) m of
        None \<Rightarrow> m
      | Some (k, _) \<Rightarrow> evict_oldest (hm_remove m k))"
  by pat_completeness auto
termination
proof (relation "measure length")
  fix m :: pending_map and x k p
  assume "min_by_key (\<lambda>(_, p). issued p) m = Some x" "(k, p) = x"
  then have "(k, p) \<in> set m"
    using min_by_key_least by metis
  then have "hm_get m k \<noteq> None"
    by (metis weak_map_of_SomeI option.distinct(1))
  then show "(hm_remove m k, m) \<in> measure length"
    by (simp add: hm_len_remove)
qed simp

declare evict_oldest.simps [simp del]

definition prune :: "instant \<Rightarrow> pending_map \<Rightarrow> pending_map" where
  "prune now m = hm_retain (\<lambda>_ p. answerable now p) m"

definition put_pending :: "instant \<Rightarrow> pending_map \<Rightarrow> pending_key \<Rightarrow> Pending \<Rightarrow> pending_map" where
  "put_pending now m k p = hm_insert (evict_oldest (prune now m)) k p"

definition record_request ::
  "instant \<Rightarrow> rstr \<Rightarrow> rstr \<Rightarrow> rstr \<Rightarrow> 'p Registry \<Rightarrow> 'p Registry" where
  "record_request now mxid rid key st =
     st\<lparr>pending := put_pending now (pending st) (mxid, rid)
          \<lparr>issued = now, session_key = key, serial = next_serial st mod 2 ^ 64\<rparr>,
        next_serial := Suc (next_serial st)\<rparr>"

definition retire_if_current :: "pending_key \<Rightarrow> nat \<Rightarrow> 'p Registry \<Rightarrow> bool \<times> 'p Registry" where
  "retire_if_current key sn st =
     (let current = (case hm_get (pending st) key of None \<Rightarrow> False | Some p \<Rightarrow> serial p = sn)
      in (current, if current then st\<lparr>pending := hm_remove (pending st) key\<rparr> else st))"

text \<open>The lookup of \<open>deliver_verdict\<close>: prune, then the prompt and the peer that asked.\<close>

definition deliver_begin ::
  "instant \<Rightarrow> rstr \<Rightarrow> rstr \<Rightarrow> 'p Registry \<Rightarrow> (Pending \<times> 'p) option \<times> 'p Registry" where
  "deliver_begin now mxid rid st =
     (let st = st\<lparr>pending := prune now (pending st)\<rparr> in
      case hm_get (pending st) (mxid, rid) of
        None \<Rightarrow> (None, st)
      | Some p \<Rightarrow>
          (case hm_get (inner st) mxid of
             None \<Rightarrow> (None, st)
           | Some peers \<Rightarrow> (map_option (\<lambda>q. (p, q)) (hm_get peers (session_key p)), st)))"

definition verdict_params :: "rstr \<Rightarrow> Behavior \<Rightarrow> json" where
  "verdict_params rid behavior = JObj [(''request_id'', JStr rid),
     (''behavior'', JStr (behavior_as_str behavior))]"

definition deliver_verdict ::
  "('p \<Rightarrow> bool) \<Rightarrow> instant \<Rightarrow> rstr \<Rightarrow> rstr \<Rightarrow> Behavior \<Rightarrow> 'p Registry
     \<Rightarrow> bool \<times> 'p sent \<times> 'p Registry" where
  "deliver_verdict send_ok now mxid rid behavior st =
     (case deliver_begin now mxid rid st of
        (None, st) \<Rightarrow> (False, [], st)
      | (Some (p, peer), st) \<Rightarrow>
          if send_ok peer
          then (True, [(peer, PERMISSION_VERDICT_NOTIFICATION, verdict_params rid behavior)],
                snd (retire_if_current (mxid, rid) (serial p) st))
          else (False, [], st))"

section \<open>Prompts: the cap, the eviction and the expiry\<close>

lemma min_issued_get:
  assumes "hm_ok m" and "min_by_key (\<lambda>(_, p). issued p) m = Some (k, p)"
  shows "hm_get m k = Some p \<and> (\<forall>i q. hm_get m i = Some q \<longrightarrow> issued p \<le> issued q)"
  using assms min_by_key_least [OF assms(2)] by (auto simp: hm_get_in)

lemma evict_oldest_ok: "hm_ok m \<Longrightarrow> hm_ok (evict_oldest m)"
proof (induction m rule: evict_oldest.induct)
  case (1 m)
  then show ?case
    by (subst evict_oldest.simps) (auto simp: hm_simps split: option.splits)
qed

lemma evict_oldest_room: "length (evict_oldest m) < PENDING_MAX"
proof (induction m rule: evict_oldest.induct)
  case (1 m)
  then show ?case
    by (subst evict_oldest.simps)
      (auto simp: min_by_key_None PENDING_MAX_def split: option.splits)
qed

lemma evict_oldest_get:
  assumes "hm_ok m" and "hm_get (evict_oldest m) k = Some p"
  shows "hm_get m k = Some p"
  using assms
proof (induction m rule: evict_oldest.induct)
  case (1 m)
  show ?case
  proof (cases "length m < PENDING_MAX \<or> min_by_key (\<lambda>(_, p). issued p) m = None")
    case True
    with 1(3) show ?thesis by (subst (asm) evict_oldest.simps) (auto split: if_splits)
  next
    case False
    then obtain i q where m: "min_by_key (\<lambda>(_, p). issued p) m = Some (i, q)"
      by auto
    with False 1(3) have "hm_get (evict_oldest (hm_remove m i)) k = Some p"
      by (subst (asm) evict_oldest.simps) simp
    with 1(1) [OF _ m refl] False 1(2) have "hm_get (hm_remove m i) k = Some p"
      by (simp add: hm_simps)
    then show ?thesis by (simp add: hm_simps split: if_splits)
  qed
qed

text \<open>What goes is never younger than what stays.\<close>

lemma evict_oldest_order:
  assumes "hm_ok m" and "hm_get m k = Some p" and "hm_get (evict_oldest m) k = None"
    and "hm_get (evict_oldest m) i = Some q"
  shows "issued p \<le> issued q"
  using assms
proof (induction m rule: evict_oldest.induct)
  case (1 m)
  show ?case
  proof (cases "length m < PENDING_MAX \<or> min_by_key (\<lambda>(_, p). issued p) m = None")
    case True
    then have "evict_oldest m = m" by (subst evict_oldest.simps) auto
    with 1 show ?thesis by simp
  next
    case False
    then obtain o' r where m: "min_by_key (\<lambda>(_, p). issued p) m = Some (o', r)"
      by auto
    have e: "evict_oldest m = evict_oldest (hm_remove m o')"
      using False m by (subst evict_oldest.simps) simp
    show ?thesis
    proof (cases "k = o'")
      case True
      have "hm_get m i = Some q" using evict_oldest_get 1(2,5) by blast
      moreover have "r = p" using min_issued_get [OF 1(2) m] True 1(3) by simp
      ultimately show ?thesis using min_issued_get [OF 1(2) m] by blast
    next
      case k: False
      show ?thesis
        by (rule 1(1) [OF _ m refl]) (use False 1 k e in \<open>auto simp: hm_simps\<close>)
    qed
  qed
qed

lemma evict_oldest_small: "length m < PENDING_MAX \<Longrightarrow> evict_oldest m = m"
  by (simp add: evict_oldest.simps)

lemma prune_ok: "hm_ok m \<Longrightarrow> hm_ok (prune now m)"
  by (simp add: prune_def hm_simps)

lemma prune_get:
  "hm_ok m \<Longrightarrow> hm_get (prune now m) k = Some p \<longleftrightarrow> hm_get m k = Some p \<and> answerable now p"
  by (auto simp: prune_def hm_simps split: option.splits)

text \<open>The pending map as a capped store, whatever the time of each insertion.\<close>

interpretation pending_store: bounded_store hm_get "put_pending now" length hm_ok PENDING_MAX
  for now
proof unfold_locales
  fix s :: pending_map and k i v w
  assume ok: "hm_ok s"
  then have e: "hm_ok (evict_oldest (prune now s))" by (simp add: evict_oldest_ok prune_ok)
  then show "hm_ok (put_pending now s k v)" by (simp add: put_pending_def hm_simps)
  show "length (put_pending now s k v) \<le> PENDING_MAX"
    using evict_oldest_room [of "prune now s"] by (auto simp: put_pending_def hm_simps)
  show "hm_get (put_pending now s k v) k = Some v" by (simp add: put_pending_def hm_simps)
  show "i \<noteq> k \<Longrightarrow> hm_get (put_pending now s k v) i = Some w \<Longrightarrow> hm_get s i = Some w"
    using evict_oldest_get [OF prune_ok [OF ok]] prune_get [OF ok]
    by (auto simp: put_pending_def hm_simps)
qed

definition registry_ok :: "'p Registry \<Rightarrow> bool" where
  "registry_ok st \<longleftrightarrow> hm_ok (pending st) \<and> length (pending st) \<le> PENDING_MAX"

text \<open>Recording a prompt makes exactly that prompt answerable, keeps at most 256 of them, invents
  none, and drops an answerable one only when the map is full and nothing older stays.\<close>

theorem record_request_spec:
  fixes st :: "'p Registry" and mxid rid key :: rstr and now :: instant
  assumes "registry_ok st"
  defines "st' \<equiv> record_request now mxid rid key st"
  shows "registry_ok st'
    \<and> (\<exists>p. hm_get (pending st') (mxid, rid) = Some p \<and> session_key p = key \<and> answerable now p)
    \<and> (\<forall>k p. k \<noteq> (mxid, rid) \<longrightarrow> hm_get (pending st') k = Some p
          \<longrightarrow> hm_get (pending st) k = Some p \<and> answerable now p)
    \<and> (\<forall>k p. k \<noteq> (mxid, rid) \<longrightarrow> hm_get (pending st) k = Some p \<longrightarrow> answerable now p
          \<longrightarrow> hm_get (pending st') k = None
          \<longrightarrow> length (pending st) = PENDING_MAX
            \<and> (\<forall>i q. i \<noteq> (mxid, rid) \<longrightarrow> hm_get (pending st') i = Some q \<longrightarrow> issued p \<le> issued q))"
proof -
  have ok: "hm_ok (pending st)" and len: "length (pending st) \<le> PENDING_MAX"
    using assms(1) by (auto simp: registry_ok_def)
  let ?p = "\<lparr>issued = now, session_key = key, serial = next_serial st mod 2 ^ 64\<rparr>"
  let ?e = "evict_oldest (prune now (pending st))"
  have st': "pending st' = put_pending now (pending st) (mxid, rid) ?p"
    by (simp add: st'_def record_request_def)
  have "registry_ok st'"
    using pending_store.put_ok [OF ok] pending_store.put_size [OF ok len]
    by (simp add: registry_ok_def st')
  moreover have "answerable now ?p" by (simp add: answerable_def PENDING_TTL_def)
  moreover have get: "hm_get (pending st') k = hm_get ?e k" if "k \<noteq> (mxid, rid)" for k
    using that by (simp add: st' put_pending_def hm_simps)
  moreover have "hm_get (pending st) k = Some p \<and> answerable now p" if "hm_get ?e k = Some p" for k p
    using evict_oldest_get [OF prune_ok [OF ok] that] prune_get [OF ok] by simp
  moreover have "length (pending st) = PENDING_MAX
      \<and> (\<forall>i q. i \<noteq> (mxid, rid) \<longrightarrow> hm_get (pending st') i = Some q \<longrightarrow> issued p \<le> issued q)"
    if k: "hm_get (pending st) k = Some p" "answerable now p" "hm_get ?e k = None" for k p
  proof
    have pk: "hm_get (prune now (pending st)) k = Some p"
      using k(1,2) prune_get [OF ok] by blast
    have "\<not> length (prune now (pending st)) < PENDING_MAX"
      using evict_oldest_small pk k(3) by fastforce
    moreover have "length (prune now (pending st)) \<le> length (pending st)"
      by (simp add: prune_def hm_simps)
    ultimately show "length (pending st) = PENDING_MAX" using len by simp
    show "\<forall>i q. i \<noteq> (mxid, rid) \<longrightarrow> hm_get (pending st') i = Some q \<longrightarrow> issued p \<le> issued q"
      using evict_oldest_order [OF prune_ok [OF ok] pk k(3)] get by auto
  qed
  ultimately show ?thesis
    using pending_store.look_put [OF ok, of now "(mxid, rid)" ?p] unfolding st'
    by (intro conjI exI [of _ ?p]) auto
qed

theorem record_request_spec_witness:
  "registry_ok (record_request 5 ''@a:x'' ''qmzkd'' ''s1'' (new_registry :: nat Registry))"
  using record_request_spec [of "new_registry :: nat Registry" 5 "''@a:x''" "''qmzkd''" "''s1''"]
  by (simp add: registry_ok_def new_registry_def)

section \<open>Delivering a verdict\<close>

definition asking_peer :: "instant \<Rightarrow> rstr \<Rightarrow> rstr \<Rightarrow> 'p Registry \<Rightarrow> (Pending \<times> 'p) option" where
  "asking_peer now mxid rid st =
     Option.bind (hm_get (pending st) (mxid, rid)) (\<lambda>p.
       if answerable now p
       then Option.bind (hm_get (inner st) mxid)
              (\<lambda>peers. map_option (\<lambda>q. (p, q)) (hm_get peers (session_key p)))
       else None)"

lemma deliver_begin_eq:
  assumes "hm_ok (pending st)"
  shows "deliver_begin now mxid rid st =
    (asking_peer now mxid rid st, st\<lparr>pending := prune now (pending st)\<rparr>)"
  using assms
  by (auto simp: deliver_begin_def asking_peer_def prune_def hm_simps Let_def split: option.splits)

lemma retire_if_current_get:
  "hm_get (pending (snd (retire_if_current k sn st))) i =
     (if i = k \<and> (\<exists>p. hm_get (pending st) k = Some p \<and> serial p = sn) then None
      else hm_get (pending st) i)"
  by (auto simp: retire_if_current_def Let_def hm_simps split: option.splits)

lemma retire_if_current_rest:
  "inner (snd (retire_if_current k sn st)) = inner st"
  "next_serial (snd (retire_if_current k sn st)) = next_serial st"
  "last_rooms (snd (retire_if_current k sn st)) = last_rooms st"
  "configs (snd (retire_if_current k sn st)) = configs st"
  "hm_ok (pending st) \<Longrightarrow> hm_ok (pending (snd (retire_if_current k sn st)))"
  "length (pending (snd (retire_if_current k sn st))) \<le> length (pending st)"
  by (auto simp: retire_if_current_def Let_def hm_simps)

text \<open>C17: a verdict is written once, to the peer of the session that asked under the same identity, and
  to nobody when the id was never issued, has expired, or that session is gone; a prompt is retired
  exactly when its verdict was written, so an undelivered one can still be answered.\<close>

theorem deliver_verdict_spec:
  fixes st :: "'p Registry" and send_ok :: "'p \<Rightarrow> bool" and now :: instant
    and mxid rid :: rstr and behavior :: Behavior
  assumes "registry_ok st"
  defines "r \<equiv> deliver_verdict send_ok now mxid rid behavior st"
  shows "(case asking_peer now mxid rid st of
      Some (p, peer) \<Rightarrow> fst r = send_ok peer
        \<and> fst (snd r) = (if send_ok peer
             then [(peer, PERMISSION_VERDICT_NOTIFICATION, verdict_params rid behavior)] else [])
    | None \<Rightarrow> \<not> fst r \<and> fst (snd r) = [])
   \<and> (\<forall>k. hm_get (pending (snd (snd r))) k =
        (if fst r \<and> k = (mxid, rid) then None
         else case hm_get (pending st) k of None \<Rightarrow> None
              | Some p \<Rightarrow> if answerable now p then Some p else None))
   \<and> inner (snd (snd r)) = inner st \<and> registry_ok (snd (snd r))"
proof -
  let ?st = "st\<lparr>pending := prune now (pending st)\<rparr>"
  have ok: "hm_ok (pending st)" using assms(1) by (simp add: registry_ok_def)
  have get: "hm_get (prune now (pending st)) k = (case hm_get (pending st) k of None \<Rightarrow> None
      | Some p \<Rightarrow> if answerable now p then Some p else None)" for k
    using ok by (simp add: prune_def hm_simps)
  have small: "length (prune now (pending st)) \<le> PENDING_MAX"
    using assms(1) le_trans [OF hm_len_retain_le] by (auto simp: registry_ok_def prune_def)
  have r: "r = (case (asking_peer now mxid rid st, ?st) of
        (None, st) \<Rightarrow> (False, [], st)
      | (Some (p, peer), st) \<Rightarrow>
          if send_ok peer
          then (True, [(peer, PERMISSION_VERDICT_NOTIFICATION, verdict_params rid behavior)],
                snd (retire_if_current (mxid, rid) (serial p) st))
          else (False, [], st))"
    unfolding r_def deliver_verdict_def deliver_begin_eq [OF ok] ..
  show ?thesis
  proof (cases "asking_peer now mxid rid st")
    case None
    then have "r = (False, [], ?st)" using r by simp
    with None get small prune_ok [OF ok] show ?thesis by (simp add: registry_ok_def)
  next
    case (Some pq)
    obtain p peer where pq: "pq = (p, peer)" by (cases pq)
    with Some have p: "hm_get (prune now (pending st)) (mxid, rid) = Some p"
      by (auto simp: asking_peer_def get bind_eq_Some_conv split: if_splits)
    show ?thesis
    proof (cases "send_ok peer")
      case False
      then have "r = (False, [], ?st)" using r Some pq by simp
      with Some pq False get small prune_ok [OF ok] show ?thesis by (simp add: registry_ok_def)
    next
      case True
      let ?s = "snd (retire_if_current (mxid, rid) (serial p) ?st)"
      have r': "r = (True, [(peer, PERMISSION_VERDICT_NOTIFICATION, verdict_params rid behavior)], ?s)"
        using r Some pq True by simp
      have "hm_get (pending ?s) k = (if k = (mxid, rid) then None
          else hm_get (prune now (pending st)) k)" for k
        using p by (auto simp: retire_if_current_get)
      moreover have "registry_ok ?s"
        using small prune_ok [OF ok] retire_if_current_rest(5,6)
          [where st = ?st and k = "(mxid, rid)" and sn = "serial p"] by (auto simp: registry_ok_def)
      ultimately show ?thesis
        unfolding r' using Some pq True get by (simp add: retire_if_current_rest)
    qed
  qed
qed

theorem deliver_verdict_spec_witness:
  "\<not> fst (deliver_verdict (\<lambda>_. True) 9 ''@a:x'' ''qmzkd'' Allow (new_registry :: nat Registry))"
  using deliver_verdict_spec [where st = "new_registry :: nat Registry" and send_ok = "\<lambda>_. True"
      and now = 9 and mxid = "''@a:x''" and rid = "''qmzkd''" and behavior = Allow]
  by (simp add: registry_ok_def new_registry_def asking_peer_def)

section \<open>Config: fail closed, at most a minute old\<close>

text \<open>C23: the allowlist in force is the cached one when it was read less than a minute ago, and
  otherwise what the fetch answers, which is empty whenever the account data is absent, unreadable
  or malformed; nothing else of the registry changes.\<close>

theorem allowlist_fails_closed:
  "(case hm_get (configs st) mxid of
      Some (t, c) \<Rightarrow> now - t < 60 \<longrightarrow> allowlist now later fetch mxid st = (allowed_senders c, st)
    | None \<Rightarrow> True)
   \<and> ((\<nexists>t c. hm_get (configs st) mxid = Some (t, c) \<and> now - t < 60) \<longrightarrow>
       fst (allowlist now later fetch mxid st) =
         (case fetch of Fetched c \<Rightarrow> allowed_senders c | _ \<Rightarrow> [])
       \<and> hm_get (configs (snd (allowlist now later fetch mxid st))) mxid =
           Some (later, config_of_fetch fetch))
   \<and> (\<exists>cs. snd (allowlist now later fetch mxid st) = st\<lparr>configs := cs\<rparr>
        \<and> (\<forall>m. m \<noteq> mxid \<longrightarrow> hm_get cs m = hm_get (configs st) m))"
proof (cases "\<exists>t c. hm_get (configs st) mxid = Some (t, c) \<and> now - t < ALLOWLIST_TTL")
  case True
  then have "allowlist now later fetch mxid st =
      (allowed_senders (snd (the (hm_get (configs st) mxid))), st)"
    by (auto simp: allowlist_def config_def)
  with True show ?thesis
    by (auto simp: ALLOWLIST_TTL_def intro!: exI [of _ "configs st"])
next
  case False
  let ?c = "config_of_fetch fetch"
  have "(case hm_get (configs st) mxid of None \<Rightarrow> None
       | Some (fetched, c) \<Rightarrow> if now - fetched < ALLOWLIST_TTL then Some c else None) = None"
    using False by (auto split: option.splits)
  then have "allowlist now later fetch mxid st =
      (allowed_senders ?c, st\<lparr>configs := hm_insert (configs st) mxid (later, ?c)\<rparr>)"
    by (simp add: allowlist_def config_def Let_def)
  with False show ?thesis
    by (auto simp: ALLOWLIST_TTL_def hm_simps config_of_fetch_def default_config_def
        split: ConfigFetch.splits option.splits
        intro!: exI [of _ "hm_insert (configs st) mxid (later, config_of_fetch fetch)"])
qed

theorem allowlist_fails_closed_witness:
  "fst (allowlist 5 6 Unreadable ''@b:x'' (new_registry :: nat Registry)) = []"
  using allowlist_fails_closed [where st = "new_registry :: nat Registry" and now = 5 and later = 6
      and fetch = Unreadable and mxid = "''@b:x''"]
  by (simp add: new_registry_def)

text \<open>A permission prompt goes to the room the account data names, whatever rooms messages came
  from, and otherwise to the room last remembered for this identity; with neither there is no
  destination.\<close>

theorem permission_room_precedence:
  "fst (permission_room now later fetch mxid st) =
     (case config_permission_room (fst (config now later fetch mxid st)) of
        Some room \<Rightarrow> Some room
      | None \<Rightarrow> hm_get (last_rooms st) mxid)
   \<and> fst (permission_room now later fetch mxid (remember_room m r st)) =
     (case config_permission_room (fst (config now later fetch mxid st)) of
        Some room \<Rightarrow> Some room
      | None \<Rightarrow> if m = mxid then Some r else hm_get (last_rooms st) mxid)"
proof -
  have "last_rooms (snd (config now later fetch mxid s)) = last_rooms s" for s :: "'a Registry"
    by (auto simp: config_def Let_def split: option.splits prod.splits)
  moreover have "fst (config now later fetch mxid (remember_room m r st)) =
      fst (config now later fetch mxid st)"
    by (auto simp: config_def remember_room_def Let_def split: option.splits prod.splits)
  ultimately show ?thesis
    by (auto simp: permission_room_def case_prod_unfold remember_room_def hm_simps
        split: option.splits)
qed

section \<open>Pushing to the sessions of one identity\<close>

lemma notify_sends_eq:
  "notify_sends send_ok params ps =
     (map (\<lambda>(_, p). (p, CHANNEL_NOTIFICATION, params)) (filter (\<lambda>(_, p). send_ok p) ps),
      map fst (filter (\<lambda>(_, p). \<not> send_ok p) ps))"
  by (induction ps) auto

lemma foldl_remove_ok: "hm_ok m \<Longrightarrow> hm_ok (foldl hm_remove m ks)"
  by (induction ks arbitrary: m) (auto simp: hm_simps)

lemma foldl_remove_get:
  "hm_get (foldl hm_remove m ks) i = (if i \<in> set ks then None else hm_get m i)"
  by (induction ks arbitrary: m) (auto simp: hm_simps)

text \<open>A push is written to exactly the sessions of that identity whose transport was open and
  whose send succeeded, once each and with the same parameters; those are the sessions that stay
  registered, and no other identity's sessions are touched.\<close>

theorem notify_exact:
  fixes st :: "'p Registry" and closed send_ok :: "'p \<Rightarrow> bool" and mxid content :: rstr and mt :: meta
  assumes "hm_ok (entry_or_default (inner st) mxid)"
  defines "r \<equiv> notify closed send_ok mxid content mt st"
    and "peers \<equiv> entry_or_default (inner st) mxid"
  shows "fst (snd r) = map (\<lambda>(_, p). (p, CHANNEL_NOTIFICATION, build_params content mt))
        (filter (\<lambda>(_, p). \<not> closed p \<and> send_ok p) peers)
    \<and> fst r = length (fst (snd r))
    \<and> (\<forall>key. hm_get (entry_or_default (inner (snd (snd r))) mxid) key =
          (case hm_get peers key of None \<Rightarrow> None
           | Some p \<Rightarrow> if \<not> closed p \<and> send_ok p then Some p else None))
    \<and> (\<forall>m. m \<noteq> mxid \<longrightarrow> hm_get (inner (snd (snd r))) m = hm_get (inner st) m)"
proof (cases "hm_get (inner st) mxid")
  case None
  then show ?thesis
    by (simp add: r_def peers_def notify_def notify_begin_def entry_or_default_def)
next
  case (Some ps)
  then have ps: "peers = ps" "hm_ok ps"
    using assms(1) by (simp_all add: peers_def entry_or_default_def)
  let ?live = "hm_retain (\<lambda>_ p. \<not> closed p) ps"
  let ?st = "st\<lparr>inner := hm_insert (inner st) mxid ?live\<rparr>"
  have live: "hm_ok ?live" "\<And>k. hm_get ?live k = (case hm_get ps k of None \<Rightarrow> None
      | Some p \<Rightarrow> if \<not> closed p then Some p else None)"
    using ps(2) by (simp_all add: hm_simps)
  have flt: "filter (\<lambda>(_, p). send_ok p) ?live = filter (\<lambda>(_, p). \<not> closed p \<and> send_ok p) ps"
    by (auto simp: hm_retain_def intro: filter_cong)
  show ?thesis
  proof (cases "?live = []")
    case True
    then have "filter (\<lambda>(_, p). \<not> closed p \<and> send_ok p) ps = []"
      using flt by (metis filter.simps(1))
    moreover have "closed p" if "hm_get ps k = Some p" for k p
      using live(2) [of k] True that by (auto split: if_splits)
    ultimately show ?thesis
      using Some ps True
      by (auto simp: r_def notify_def notify_begin_def entry_or_default_def hm_simps
          split: option.splits)
  next
    case False
    let ?failed = "map fst (filter (\<lambda>(_, p). \<not> send_ok p) ?live)"
    have r: "r = (let sent = map (\<lambda>(_, p). (p, CHANNEL_NOTIFICATION, build_params content mt))
          (filter (\<lambda>(_, p). \<not> closed p \<and> send_ok p) ps)
        in (length sent, sent, notify_end closed mxid ?failed ?st))"
      using Some False
      by (simp add: r_def notify_def notify_begin_def Let_def notify_sends_eq flt)
    have key: "k \<in> set ?failed \<longleftrightarrow> (\<exists>p. hm_get ?live k = Some p \<and> \<not> send_ok p)" for k
      using hm_get_in [OF live(1)] by force
    let ?rest = "hm_retain (\<lambda>_ p. \<not> closed p) (foldl hm_remove ?live ?failed)"
    have rest: "hm_get ?rest k = (case hm_get ps k of None \<Rightarrow> None
        | Some p \<Rightarrow> if \<not> closed p \<and> send_ok p then Some p else None)" for k
      using key [of k] live
      by (auto simp: hm_get_retain foldl_remove_ok foldl_remove_get split: option.splits)
    have "hm_get (entry_or_default (inner (notify_end closed mxid ?failed ?st)) mxid) k =
        (case hm_get ps k of None \<Rightarrow> None
         | Some p \<Rightarrow> if \<not> closed p \<and> send_ok p then Some p else None)" for k
    proof (cases "?failed = []")
      case True
      then have "?rest = ?live" by (simp add: hm_retain_def)
      with rest True show ?thesis
        by (simp add: notify_end_def entry_or_default_def hm_simps)
    next
      case f: False
      then have "notify_end closed mxid ?failed ?st =
          (if ?rest = [] then ?st\<lparr>inner := hm_remove (inner ?st) mxid\<rparr>
           else ?st\<lparr>inner := hm_insert (inner ?st) mxid ?rest\<rparr>)"
        by (simp add: notify_end_def hm_simps Let_def)
      then have "entry_or_default (inner (notify_end closed mxid ?failed ?st)) mxid = ?rest"
        by (auto simp: entry_or_default_def hm_simps)
      with rest show ?thesis by simp
    qed
    moreover have "hm_get (inner (notify_end closed mxid ?failed ?st)) m = hm_get (inner st) m"
      if "m \<noteq> mxid" for m
      using that by (auto simp: notify_end_def Let_def hm_simps split: option.splits)
    ultimately show ?thesis
      unfolding r Let_def using ps by simp
  qed
qed

theorem notify_exact_witness:
  "fst (notify (\<lambda>p. p = 2) (\<lambda>p. p \<noteq> 3) ''@a:x'' ''hi'' []
      ((new_registry :: nat Registry)\<lparr>inner := [(''@a:x'', [(''k1'', 1), (''k2'', 2), (''k3'', 3)])]\<rparr>)) = 1"
  using notify_exact [where st = "(new_registry :: nat Registry)
        \<lparr>inner := [(''@a:x'', [(''k1'', 1), (''k2'', 2), (''k3'', 3)])]\<rparr>"
      and closed = "\<lambda>p. p = 2" and send_ok = "\<lambda>p. p \<noteq> 3" and mxid = "''@a:x''"
      and content = "''hi''" and mt = "[]"]
  by (simp add: entry_or_default_def hm_ok_def)

end
