(* ===== verification/PermissionMachine.thy ===== *)
theory PermissionMachine
  imports ChannelRegistry
begin

text \<open>
  The permission relay under concurrency. \<open>deliver_verdict\<close> holds no lock while it
  awaits the send, so deliveries, new prompts and peers coming and going interleave; the step
  relation has one rule per stretch of code the source runs under a lock. A delivery in flight is
  the key, the prompt it looked up and the peer it is sending to.
\<close>

record 'p RelayState =
  reg :: "'p Registry"
  clock :: instant
  in_flight :: "(pending_key \<times> Pending \<times> 'p) list"
  outbox :: "'p sent"

inductive relay_step :: "'p RelayState \<Rightarrow> 'p RelayState \<Rightarrow> bool" where
  step_tick: "relay_step s (s\<lparr>clock := clock s + d\<rparr>)"
| step_register: "relay_step s (s\<lparr>reg := register closed mxid key peer (reg s)\<rparr>)"
| step_sweep: "relay_step s (s\<lparr>reg := snd (notify_begin closed mxid (reg s))\<rparr>)"
| step_drop: "relay_step s (s\<lparr>reg := notify_end closed mxid failed (reg s)\<rparr>)"
| step_record: "relay_step s (s\<lparr>reg := record_request (clock s) mxid rid key (reg s)\<rparr>)"
| step_lookup_miss: "deliver_begin (clock s) mxid rid (reg s) = (None, r)
    \<Longrightarrow> relay_step s (s\<lparr>reg := r\<rparr>)"
| step_lookup_hit: "deliver_begin (clock s) mxid rid (reg s) = (Some (p, peer), r)
    \<Longrightarrow> relay_step s (s\<lparr>reg := r, in_flight := ((mxid, rid), p, peer) # in_flight s\<rparr>)"
| step_sent: "(k, p, peer) \<in> set (in_flight s)
    \<Longrightarrow> relay_step s (s\<lparr>reg := snd (retire_if_current k (serial p) (reg s)),
          in_flight := remove1 (k, p, peer) (in_flight s),
          outbox := (peer, PERMISSION_VERDICT_NOTIFICATION, verdict_params (snd k) b) # outbox s\<rparr>)"
| step_send_failed: "(k, p, peer) \<in> set (in_flight s)
    \<Longrightarrow> relay_step s (s\<lparr>in_flight := remove1 (k, p, peer) (in_flight s)\<rparr>)"

inductive reachable :: "'p RelayState \<Rightarrow> bool" where
  reach_init: "reachable \<lparr>reg = new_registry, clock = t, in_flight = [], outbox = []\<rparr>"
| reach_step: "reachable s \<Longrightarrow> relay_step s s' \<Longrightarrow> reachable s'"

inductive_cases relay_stepE: "relay_step s s'"

section \<open>The invariant\<close>

text \<open>
  The map is well formed and capped. As long as fewer than \<open>2 ^ 64\<close> prompts were issued, a
  serial number names one prompt: it is below the counter, and two prompts with the same number,
  pending or held by a delivery in flight, are the same prompt under the same key.
\<close>

definition known_prompt :: "'p RelayState \<Rightarrow> pending_key \<Rightarrow> Pending \<Rightarrow> bool" where
  "known_prompt s k p \<longleftrightarrow> hm_get (pending (reg s)) k = Some p
     \<or> (\<exists>peer. (k, p, peer) \<in> set (in_flight s))"

definition serials_ok :: "'p RelayState \<Rightarrow> bool" where
  "serials_ok s \<longleftrightarrow> (\<forall>k p. known_prompt s k p \<longrightarrow> serial p < next_serial (reg s))
     \<and> (\<forall>k p i q. known_prompt s k p \<longrightarrow> known_prompt s i q \<longrightarrow> serial p = serial q
          \<longrightarrow> k = i \<and> p = q)"

definition relay_inv :: "'p RelayState \<Rightarrow> bool" where
  "relay_inv s \<longleftrightarrow> registry_ok (reg s) \<and> (next_serial (reg s) \<le> 2 ^ 64 \<longrightarrow> serials_ok s)"

lemma serials_ok_mono:
  assumes "serials_ok s" and "\<And>k p. known_prompt s' k p \<Longrightarrow> known_prompt s k p"
    and "next_serial (reg s') = next_serial (reg s)"
  shows "serials_ok s'"
  using assms unfolding serials_ok_def by metis

lemma relay_inv_mono:
  assumes "relay_inv s" and "registry_ok (reg s')"
    and "\<And>k p. known_prompt s' k p \<Longrightarrow> known_prompt s k p"
    and "next_serial (reg s') = next_serial (reg s)"
  shows "relay_inv s'"
  using assms serials_ok_mono unfolding relay_inv_def by metis

lemma peers_only:
  "pending (register closed mxid key peer r) = pending r"
  "next_serial (register closed mxid key peer r) = next_serial r"
  "pending (snd (notify_begin closed mxid r)) = pending r"
  "next_serial (snd (notify_begin closed mxid r)) = next_serial r"
  "pending (notify_end closed mxid failed r) = pending r"
  "next_serial (notify_end closed mxid failed r) = next_serial r"
  by (auto simp: register_def notify_begin_def notify_end_def Let_def split: option.splits)

lemma deliver_begin_hit:
  assumes "registry_ok r" and "deliver_begin now mxid rid r = (x, r')"
  shows "pending r' = prune now (pending r)" and "next_serial r' = next_serial r"
    and "registry_ok r'"
    and "x = Some (p, peer) \<Longrightarrow> hm_get (pending r) (mxid, rid) = Some p"
  using assms deliver_begin_eq [of r now mxid rid] prune_ok [of "pending r" now]
    le_trans [OF hm_len_retain_le]
  by (auto simp: registry_ok_def asking_peer_def prune_def bind_eq_Some_conv split: if_splits)

lemma record_request_known:
  assumes "registry_ok (reg s)"
    and "known_prompt (s\<lparr>reg := record_request now mxid rid key (reg s)\<rparr>) k p"
  shows "known_prompt s k p
    \<or> k = (mxid, rid) \<and> p = \<lparr>issued = now, session_key = key, serial = next_serial (reg s) mod 2 ^ 64\<rparr>"
proof -
  have ok: "hm_ok (pending (reg s))" using assms(1) by (simp add: registry_ok_def)
  from assms(2) consider
      "hm_get (put_pending now (pending (reg s)) (mxid, rid)
         \<lparr>issued = now, session_key = key, serial = next_serial (reg s) mod 2 ^ 64\<rparr>) k = Some p"
    | "\<exists>peer. (k, p, peer) \<in> set (in_flight s)"
    by (auto simp: known_prompt_def record_request_def)
  then show ?thesis
  proof cases
    case 1
    then show ?thesis
      using pending_store.look_put [OF ok] pending_store.look_put_other [OF ok]
      by (cases "k = (mxid, rid)") (auto simp: known_prompt_def)
  qed (simp add: known_prompt_def)
qed

lemma record_request_ok: "registry_ok r \<Longrightarrow> registry_ok (record_request now mxid rid key r)"
  using pending_store.put_ok pending_store.put_size
  by (auto simp: registry_ok_def record_request_def)

lemma relay_inv_record:
  assumes "relay_inv s"
  shows "relay_inv (s\<lparr>reg := record_request now mxid rid key (reg s)\<rparr>)" (is "relay_inv ?s'")
proof -
  have ok: "registry_ok (reg s)" using assms by (simp add: relay_inv_def)
  have n: "next_serial (reg ?s') = Suc (next_serial (reg s))" by (simp add: record_request_def)
  have "serials_ok ?s'" if "next_serial (reg ?s') \<le> 2 ^ 64"
  proof -
    let ?p = "\<lparr>issued = now, session_key = key, serial = next_serial (reg s) mod 2 ^ 64\<rparr>"
    have sn: "serial ?p = next_serial (reg s)" using that n by simp
    have old: "serials_ok s" using assms that n by (simp add: relay_inv_def)
    have kn: "known_prompt s k q \<or> k = (mxid, rid) \<and> q = ?p" if "known_prompt ?s' k q" for k q
      using record_request_known [OF ok that] .
    from old have lt: "serial q < serial ?p" if "known_prompt s k q" for k q
      using that sn unfolding serials_ok_def by metis
    show ?thesis
      unfolding serials_ok_def
    proof (intro conjI allI impI)
      fix k q assume "known_prompt ?s' k q"
      with kn lt sn n show "serial q < next_serial (reg ?s')" by (metis less_Suc_eq)
    next
      fix k q i r assume a: "known_prompt ?s' k q" "known_prompt ?s' i r" "serial q = serial r"
      then show "k = i" "q = r"
        using kn [OF a(1)] kn [OF a(2)] lt old unfolding serials_ok_def
        by (metis less_irrefl)+
    qed
  qed
  with record_request_ok [OF ok] show ?thesis by (simp add: relay_inv_def)
qed

lemma relay_inv_step: "relay_inv s \<Longrightarrow> relay_step s s' \<Longrightarrow> relay_inv s'"
proof (erule relay_stepE)
  fix mxid rid key
  assume "relay_inv s" "s' = s\<lparr>reg := record_request (clock s) mxid rid key (reg s)\<rparr>"
  then show "relay_inv s'" using relay_inv_record by blast
next
  fix mxid rid r
  assume i: "relay_inv s" and d: "deliver_begin (clock s) mxid rid (reg s) = (None, r)"
    and s': "s' = s\<lparr>reg := r\<rparr>"
  have ok: "registry_ok (reg s)" using i by (simp add: relay_inv_def)
  note h = deliver_begin_hit [OF ok d]
  show "relay_inv s'"
    by (rule relay_inv_mono [OF i])
      (use h ok prune_get in \<open>auto simp: s' known_prompt_def registry_ok_def\<close>)
next
  fix mxid rid p peer r
  assume i: "relay_inv s" and d: "deliver_begin (clock s) mxid rid (reg s) = (Some (p, peer), r)"
    and s': "s' = s\<lparr>reg := r, in_flight := ((mxid, rid), p, peer) # in_flight s\<rparr>"
  have ok: "registry_ok (reg s)" using i by (simp add: relay_inv_def)
  note h = deliver_begin_hit [OF ok d]
  show "relay_inv s'"
    by (rule relay_inv_mono [OF i])
      (use h ok prune_get in \<open>auto simp: s' known_prompt_def registry_ok_def\<close>)
next
  fix k p peer b
  assume i: "relay_inv s"
    and s': "s' = s\<lparr>reg := snd (retire_if_current k (serial p) (reg s)),
      in_flight := remove1 (k, p, peer) (in_flight s),
      outbox := (peer, PERMISSION_VERDICT_NOTIFICATION, verdict_params (snd k) b) # outbox s\<rparr>"
  have ok: "registry_ok (reg s)" using i by (simp add: relay_inv_def)
  have "registry_ok (snd (retire_if_current k (serial p) (reg s)))"
    using ok retire_if_current_rest(5,6) [where st = "reg s" and k = k and sn = "serial p"]
    by (auto simp: registry_ok_def)
  then show "relay_inv s'"
    by (intro relay_inv_mono [OF i])
      (auto simp: s' known_prompt_def retire_if_current_get retire_if_current_rest
        dest: set_remove1_subset [THEN subsetD] split: if_splits)
next
  fix k p peer
  assume i: "relay_inv s" and s': "s' = s\<lparr>in_flight := remove1 (k, p, peer) (in_flight s)\<rparr>"
  then show "relay_inv s'"
    by (intro relay_inv_mono [OF i])
      (auto simp: relay_inv_def known_prompt_def dest: set_remove1_subset [THEN subsetD])
qed (auto simp: relay_inv_def serials_ok_def known_prompt_def registry_ok_def peers_only)

lemma reachable_inv: "reachable s \<Longrightarrow> relay_inv s"
proof (induction rule: reachable.induct)
  case (reach_init t)
  then show ?case
    by (simp add: relay_inv_def registry_ok_def new_registry_def serials_ok_def known_prompt_def)
qed (rule relay_inv_step)

section \<open>What the machine guarantees\<close>

text \<open>C6: whatever interleaves, at most 256 prompts are outstanding, and a delivery that completes
  retires the very prompt it looked up or nothing: a prompt reissued under the same key while the
  delivery was in flight stays answerable, and so does every other prompt.\<close>

theorem delivery_retires_only_its_prompt:
  assumes "reachable s" and "(k, p, peer) \<in> set (in_flight s)"
    and "next_serial (reg s) \<le> 2 ^ 64"
  shows "length (pending (reg s)) \<le> 256
    \<and> (\<forall>i q. hm_get (pending (reg s)) i = Some q \<longrightarrow> (i, q) \<noteq> (k, p)
         \<longrightarrow> hm_get (pending (snd (retire_if_current k (serial p) (reg s)))) i = Some q)
    \<and> hm_get (pending (snd (retire_if_current k (serial p) (reg s)))) k \<noteq> Some p"
proof -
  from reachable_inv [OF assms(1)] assms(3)
  have inv: "registry_ok (reg s)" "serials_ok s" by (auto simp: relay_inv_def)
  have "known_prompt s k p" using assms(2) by (auto simp: known_prompt_def)
  with inv(2) have uniq: "i = k \<and> q = p"
    if "hm_get (pending (reg s)) i = Some q" "serial q = serial p" for i q
    using that unfolding serials_ok_def by (metis known_prompt_def)
  have "hm_get (pending (snd (retire_if_current k (serial p) (reg s)))) i = Some q"
    if "hm_get (pending (reg s)) i = Some q" "(i, q) \<noteq> (k, p)" for i q
    using that uniq [of i q] by (auto simp: retire_if_current_get)
  moreover have "hm_get (pending (snd (retire_if_current k (serial p) (reg s)))) k \<noteq> Some p"
    by (auto simp: retire_if_current_get)
  ultimately show ?thesis
    using inv(1) by (simp add: registry_ok_def PENDING_MAX_def)
qed

text \<open>
  A run of the machine in which the id is reissued while its delivery is in flight: the first
  session asks, the verdict is looked up, the same id is recorded again, the send completes.
\<close>

definition run_key :: pending_key where
  "run_key = (''@a:x'', ''qmzkd'')"

definition run_prompt :: "nat \<Rightarrow> Pending" where
  "run_prompt n = \<lparr>issued = 0, session_key = ''k1'', serial = n\<rparr>"

definition run_state :: "(pending_key \<times> Pending) list \<Rightarrow> nat \<Rightarrow> (pending_key \<times> Pending \<times> nat) list \<Rightarrow> nat RelayState" where
  "run_state pend n fl = \<lparr>reg = \<lparr>inner = [(''@a:x'', [(''k1'', 1)])], configs = [], pending = pend,
       last_rooms = [], replaying = [], next_serial = n\<rparr>,
     clock = 0, in_flight = fl, outbox = []\<rparr>"

lemma reissue_reachable:
  "reachable (run_state [(run_key, run_prompt 1)] 2 [(run_key, run_prompt 0, 1)])"
proof -
  have s0: "reachable \<lparr>reg = new_registry, clock = 0, in_flight = [], outbox = []\<rparr>"
    by (rule reach_init)
  have "run_state [] 0 [] = \<lparr>reg = new_registry, clock = 0, in_flight = [], outbox = []\<rparr>
      \<lparr>reg := register (\<lambda>_. False) ''@a:x'' ''k1'' 1 new_registry\<rparr>"
    by (simp add: run_state_def register_def new_registry_def entry_or_default_def hm_insert_def
        hm_retain_def)
  then have s1: "reachable (run_state [] 0 [])"
    using reach_step [OF s0 step_register] by simp
  have "run_state [(run_key, run_prompt 0)] 1 [] = (run_state [] 0 [])
      \<lparr>reg := record_request 0 ''@a:x'' ''qmzkd'' ''k1'' (reg (run_state [] 0 []))\<rparr>"
    by (simp add: run_state_def record_request_def put_pending_def prune_def evict_oldest_small
        PENDING_MAX_def PENDING_TTL_def answerable_def hm_insert_def hm_retain_def run_key_def run_prompt_def)
  moreover have "clock (run_state [] 0 []) = 0" by (simp add: run_state_def)
  ultimately have s2: "reachable (run_state [(run_key, run_prompt 0)] 1 [])"
    using reach_step [OF s1 step_record] by metis
  have "deliver_begin (clock (run_state [(run_key, run_prompt 0)] 1 [])) ''@a:x'' ''qmzkd''
      (reg (run_state [(run_key, run_prompt 0)] 1 [])) =
      (Some (run_prompt 0, 1), reg (run_state [(run_key, run_prompt 0)] 1 []))"
    by (simp add: run_state_def deliver_begin_def prune_def hm_retain_def answerable_def
        PENDING_TTL_def run_key_def run_prompt_def Let_def)
  from reach_step [OF s2 step_lookup_hit [OF this]]
  have s3: "reachable (run_state [(run_key, run_prompt 0)] 1 [(run_key, run_prompt 0, 1)])"
    by (simp add: run_state_def run_key_def)
  have "run_state [(run_key, run_prompt 1)] 2 [(run_key, run_prompt 0, 1)] =
      (run_state [(run_key, run_prompt 0)] 1 [(run_key, run_prompt 0, 1)])
      \<lparr>reg := record_request 0 ''@a:x'' ''qmzkd'' ''k1''
         (reg (run_state [(run_key, run_prompt 0)] 1 [(run_key, run_prompt 0, 1)]))\<rparr>"
    by (simp add: run_state_def record_request_def put_pending_def prune_def evict_oldest_small
        PENDING_MAX_def PENDING_TTL_def answerable_def hm_insert_def hm_retain_def run_key_def run_prompt_def)
  moreover have "clock (run_state [(run_key, run_prompt 0)] 1 [(run_key, run_prompt 0, 1)]) = 0"
    by (simp add: run_state_def)
  ultimately show ?thesis
    using reach_step [OF s3 step_record] by metis
qed

theorem delivery_retires_only_its_prompt_witness:
  "hm_get (pending (snd (retire_if_current run_key (serial (run_prompt 0))
      (reg (run_state [(run_key, run_prompt 1)] 2 [(run_key, run_prompt 0, 1)]))))) run_key
    = Some (run_prompt 1)"
proof -
  let ?s = "run_state [(run_key, run_prompt 1)] 2 [(run_key, run_prompt 0, 1)]"
  have f: "(run_key, run_prompt 0, 1) \<in> set (in_flight ?s)" "next_serial (reg ?s) \<le> 2 ^ 64"
    "hm_get (pending (reg ?s)) run_key = Some (run_prompt 1)"
    "(run_key, run_prompt 1) \<noteq> (run_key, run_prompt 0)"
    by (simp_all add: run_state_def run_prompt_def)
  from delivery_retires_only_its_prompt [OF reissue_reachable f(1,2)] f(3,4) show ?thesis
    by blast
qed

end
