(* ===== verification/ChannelPush.thy ===== *)
theory ChannelPush
  imports ChannelRegistry
begin

text \<open>
  The handlers of \<open>src/channel.rs\<close> that run on a live event (\<open>push_message\<close>,
  \<open>push_reaction\<close>, \<open>handled_as_verdict\<close>), the replay on attach
  (\<open>replay_room\<close>, \<open>replay_missed\<close>) and the permission relay of
  \<open>src/mcp.rs\<close> (\<open>on_custom_notification\<close>). Each is a run without interference;
  PermissionMachine has the interleavings. What the homeserver and the transports answer during the
  run is the record \<open>World\<close>.
\<close>

datatype RoomState = Joined | Left | Invited | Knocked | Banned

definition prompt_room_is_usable :: "RoomState \<Rightarrow> bool" where
  "prompt_room_is_usable s = (case s of Joined \<Rightarrow> True | _ \<Rightarrow> False)"

record 'p World =
  w_closed :: "'p \<Rightarrow> bool"
  w_send_ok :: "'p \<Rightarrow> bool"
  w_now :: instant
  w_later :: instant
  w_config :: ConfigFetch
  w_parse_event_id :: "rstr \<Rightarrow> bool"
  w_event :: "rstr \<Rightarrow> TimelineEvent option"

record LiveMessage =
  lm_sender :: rstr
  lm_event_id :: rstr
  lm_content :: MessageContent

record LiveReaction =
  lr_sender :: rstr
  lr_event_id :: rstr
  lr_key :: rstr
  lr_target :: rstr

definition handled_as_verdict ::
  "'p World \<Rightarrow> rstr \<Rightarrow> LiveMessage \<Rightarrow> bool \<Rightarrow> 'p Registry \<Rightarrow> bool \<times> 'p sent \<times> 'p Registry" where
  "handled_as_verdict w mxid ev sender_allowed st = (case msgtype (lm_content ev) of
      Text b \<Rightarrow> (case classify_inbound sender_allowed b of
          Verdict rid behavior \<Rightarrow>
            (let (_, sent, st) = deliver_verdict (w_send_ok w) (w_now w) mxid rid behavior st
             in (True, sent, st))
        | _ \<Rightarrow> (False, [], st))
    | _ \<Rightarrow> (False, [], st))"

definition untrusted_text :: "Carried \<Rightarrow> MessageType \<Rightarrow> rstr" where
  "untrusted_text carried mt = (case carried of
      Message \<Rightarrow> msg_body mt
    | Attachment _ _ caption \<Rightarrow> unwrap_or_empty caption
    | Reaction _ _ \<Rightarrow> [])"

text \<open>The part of \<open>push_message\<close> past the gate: what is pushed, and its attributes.\<close>

definition message_push ::
  "'p World \<Rightarrow> rstr \<Rightarrow> rstr list \<Rightarrow> rstr \<Rightarrow> LiveMessage \<Rightarrow> (rstr \<times> meta) option" where
  "message_push w mxid allowed room_id ev =
     (let (mt, replaces) = live_delivery (lm_content ev) in
      case carried_of_live mt of
        None \<Rightarrow> None
      | Some carried \<Rightarrow>
          (let verdict = evaluate (Some room_id) (Some (lm_sender ev)) (Some (lm_event_id ev))
                 (cap_body (untrusted_text carried mt));
               mta = [(''room'', room_id), (''sender'', lm_sender ev), (''event'', lm_event_id ev)]
                 @ replaces_meta replaces
                 @ (case reply_target_live (lm_content ev) of None \<Rightarrow> []
                    | Some target \<Rightarrow> reply_meta (resolve_reply (w_parse_event_id w) (w_event w)
                        target None mxid allowed))
                 @ attachment_meta carried
                 @ (if suspicious verdict then [(''suspicious'', ''true'')] else [])
           in Some (cap_wrapped (wrapped verdict), mta)))"

definition push_message ::
  "'p World \<Rightarrow> rstr \<Rightarrow> rstr \<Rightarrow> RoomState \<Rightarrow> LiveMessage \<Rightarrow> 'p Registry
     \<Rightarrow> 'p sent \<times> 'p Registry" where
  "push_message w mxid room_id room_state ev st =
     (let live = live_peers (w_closed w) mxid st;
          outstanding = (live = 0 \<and> has_pending (w_now w) mxid st)
      in if live = 0 \<and> \<not> outstanding then ([], st)
      else if room_state \<noteq> Joined then ([], st)
      else if lm_sender ev = mxid then ([], st)
      else
        (let (allowed, st) = allowlist (w_now w) (w_later w) (w_config w) mxid st;
             sender_allowed = (lm_sender ev \<in> set allowed);
             (handled, sent, st) = handled_as_verdict w mxid ev sender_allowed st
         in if handled then (sent, st)
         else if live = 0 then ([], st)
         else if \<not> sender_allowed then ([], st)
         else
           (let st = remember_room mxid room_id st in
            case message_push w mxid allowed room_id ev of
              None \<Rightarrow> ([], st)
            | Some (body, mta) \<Rightarrow>
                (let (_, sent, st) = notify (w_closed w) (w_send_ok w) mxid body mta st
                 in (sent, st)))))"

definition push_reaction ::
  "'p World \<Rightarrow> rstr \<Rightarrow> rstr \<Rightarrow> RoomState \<Rightarrow> LiveReaction \<Rightarrow> 'p Registry
     \<Rightarrow> 'p sent \<times> 'p Registry" where
  "push_reaction w mxid room_id room_state ev st =
     (if live_peers (w_closed w) mxid st = 0 then ([], st)
      else if room_state \<noteq> Joined then ([], st)
      else if lr_sender ev = mxid then ([], st)
      else
        (let (allowed, st) = allowlist (w_now w) (w_later w) (w_config w) mxid st in
         if lr_sender ev \<notin> set allowed then ([], st)
         else
           (let carried = carried_reaction (lr_key ev) (lr_target ev);
                mta = live_reaction_meta room_id (lr_sender ev) (lr_event_id ev) carried;
                body = wrapped (evaluate (Some room_id) (Some (lr_sender ev)) (Some (lr_event_id ev)) []);
                (_, sent, st) = notify (w_closed w) (w_send_ok w) mxid (cap_wrapped body) mta st
            in (sent, st))))"

section \<open>Replay\<close>

definition REPLAY_MAX :: nat where "REPLAY_MAX = 20"
definition REPLAY_MAX_ROOMS :: nat where "REPLAY_MAX_ROOMS = 50"
definition REPLAY_MAX_TOTAL :: nat where "REPLAY_MAX_TOTAL = 100"

text \<open>The events newer than the watermark, and whether it was reached.\<close>

fun unseen_events :: "rstr option \<Rightarrow> ReadEvent list \<Rightarrow> ReadEvent list \<times> bool" where
  "unseen_events watermark [] = ([], False)"
| "unseen_events watermark (e # es) = (case re_event_id e of
      None \<Rightarrow> unseen_events watermark es
    | Some i \<Rightarrow>
        if watermark = Some i then ([], True)
        else (let (us, reached) = unseen_events watermark es in (e # us, reached)))"

definition truncation_note :: rstr where
  "truncation_note = ''[some earlier messages in this room were not replayed; only the most recent ''
     @ ''20 are shown]''"

text \<open>One replayed event: its body and its attributes, or nothing.\<close>

definition replay_push ::
  "'p World \<Rightarrow> rstr \<Rightarrow> rstr list \<Rightarrow> rstr \<Rightarrow> quotable \<Rightarrow> candidate \<Rightarrow> (rstr \<times> meta) option" where
  "replay_push w mxid allowed room_id quotable c = (case (re_sender (fst c), re_event_id (fst c)) of
      (Some s, Some i) \<Rightarrow>
        (case replay_body room_id s i (snd c) (fst c) of
           None \<Rightarrow> None
         | Some body \<Rightarrow> Some (cap_wrapped body,
             replay_meta room_id s i (snd c) (fst c)
             @ (case reply_target_of (fst c) of None \<Rightarrow> []
                | Some target \<Rightarrow> reply_meta (resolve_reply (w_parse_event_id w) (w_event w) target
                    (hm_get quotable target) mxid allowed))))
    | _ \<Rightarrow> None)"

text \<open>The delivery loop: it stops at the first push that reached nobody.\<close>

fun replay_loop ::
  "'p World \<Rightarrow> rstr \<Rightarrow> rstr list \<Rightarrow> rstr \<Rightarrow> quotable \<Rightarrow> candidate list \<Rightarrow> 'p Registry
     \<Rightarrow> nat \<times> 'p sent \<times> 'p Registry" where
  "replay_loop w mxid allowed room_id quotable [] st = (0, [], st)"
| "replay_loop w mxid allowed room_id quotable (c # cs) st =
     (case replay_push w mxid allowed room_id quotable c of
        None \<Rightarrow> replay_loop w mxid allowed room_id quotable cs st
      | Some (body, mta) \<Rightarrow>
          (let (delivered, sent, st) = notify (w_closed w) (w_send_ok w) mxid body mta st in
           if delivered = 0 then (0, sent, st)
           else (let (n, sent', st) = replay_loop w mxid allowed room_id quotable cs st
                 in (n + 1, sent @ sent', st))))"

text \<open>A joined room as the replay sees it: its id, the read receipt and the newest events.\<close>

record ReplayRoom =
  rm_id :: rstr
  rm_watermark :: "rstr option"
  rm_messages :: "TimelineEvent list option"

definition replay_room ::
  "'p World \<Rightarrow> ReplayRoom \<Rightarrow> rstr \<Rightarrow> rstr list \<Rightarrow> nat \<Rightarrow> 'p Registry
     \<Rightarrow> nat \<times> 'p sent \<times> 'p Registry" where
  "replay_room w room mxid allowed budget st = (case rm_messages room of
      None \<Rightarrow> (0, [], st)
    | Some chunk \<Rightarrow>
        (let decoded = read_events_from_chunk chunk;
             quotable = quotable_from decoded;
             (unseen, reached) = unseen_events (rm_watermark room) decoded;
             truncated = (\<not> reached \<and> REPLAY_MAX < length unseen);
             deliverable = replay_deliverable (rev (take REPLAY_MAX unseen)) mxid allowed budget
         in if deliverable = [] then (0, [], st)
         else
           (let (nt, st) = (if truncated
                  then snd (notify (w_closed w) (w_send_ok w) mxid truncation_note
                    [(''room'', rm_id room), (''replayed'', ''truncated'')] st)
                  else ([], st));
                (n, sent, st) = replay_loop w mxid allowed (rm_id room) quotable deliverable st
            in (n, nt @ sent, st))))"

fun replay_rooms ::
  "'p World \<Rightarrow> ReplayRoom list \<Rightarrow> rstr \<Rightarrow> rstr list \<Rightarrow> nat \<Rightarrow> 'p Registry
     \<Rightarrow> nat \<times> 'p sent \<times> 'p Registry" where
  "replay_rooms w [] mxid allowed budget st = (0, [], st)"
| "replay_rooms w (room # rooms) mxid allowed budget st =
     (if budget = 0 then (0, [], st)
      else (let (n, sent, st) = replay_room w room mxid allowed budget st;
                (m, sent', st) = replay_rooms w rooms mxid allowed (budget - n) st
            in (n + m, sent @ sent', st)))"

text \<open>The guard is the identity's membership in \<open>replaying\<close>; it is dropped at the end.\<close>

definition replay_missed ::
  "'p World \<Rightarrow> ReplayRoom list \<Rightarrow> rstr \<Rightarrow> 'p Registry \<Rightarrow> nat \<times> 'p sent \<times> 'p Registry" where
  "replay_missed w rooms mxid st =
     (let (allowed, st) = allowlist (w_now w) (w_later w) (w_config w) mxid st in
      if allowed = [] then (0, [], st)
      else if mxid \<in> set (replaying st) then (0, [], st)
      else
        (let st = st\<lparr>replaying := mxid # replaying st\<rparr>;
             (n, sent, st) =
               replay_rooms w (take REPLAY_MAX_ROOMS rooms) mxid allowed REPLAY_MAX_TOTAL st
         in (n, sent, st\<lparr>replaying := removeAll mxid (replaying st)\<rparr>)))"

section \<open>The permission relay\<close>

definition PERMISSION_REQUEST_NOTIFICATION :: rstr where
  "PERMISSION_REQUEST_NOTIFICATION = ''notifications/claude/channel/permission_request''"

datatype ServiceMode = Full | Channel

text \<open>
  \<open>parse_room\<close> is ruma's room-id parser and \<open>get_room\<close> the client's room
  lookup; the sent prompts are pairs of a room and a text. The identity, the session key and the
  client of the request have been resolved by the caller when they are \<open>Some\<close>.
\<close>

definition on_custom_notification ::
  "ServiceMode \<Rightarrow> rstr \<Rightarrow> PermissionRequest option \<Rightarrow> (rstr \<times> rstr) option \<Rightarrow> bool
     \<Rightarrow> (rstr \<Rightarrow> bool) \<Rightarrow> (rstr \<Rightarrow> RoomState option) \<Rightarrow> 'p World \<Rightarrow> 'p Registry
     \<Rightarrow> (rstr \<times> rstr) list \<times> 'p Registry" where
  "on_custom_notification mode meth params caller client_ok parse_room get_room w st =
     (if mode \<noteq> Channel then ([], st)
      else if meth \<noteq> PERMISSION_REQUEST_NOTIFICATION then ([], st)
      else case params of None \<Rightarrow> ([], st)
      | Some request \<Rightarrow> (case caller of None \<Rightarrow> ([], st)
      | Some (mxid, key) \<Rightarrow>
          if \<not> client_ok then ([], st)
          else (case permission_room (w_now w) (w_later w) (w_config w) mxid st of
            (None, st) \<Rightarrow> ([], st)
          | (Some room_id, st) \<Rightarrow>
              if \<not> parse_room room_id then ([], st)
              else (case get_room room_id of
                None \<Rightarrow> ([], st)
              | Some room_state \<Rightarrow>
                  if \<not> prompt_room_is_usable room_state then ([], st)
                  else ([(room_id, format_prompt request)],
                        record_request (w_now w) mxid (request_id request) key st)))))"

section \<open>Who receives what\<close>

definition peers_of :: "rstr \<Rightarrow> 'p Registry \<Rightarrow> 'p set" where
  "peers_of mxid st = snd ` set (entry_or_default (inner st) mxid)"

lemma notify_sent:
  assumes "(p, m, j) \<in> set (fst (snd (notify closed send_ok mxid content mt st)))"
  shows "p \<in> peers_of mxid st \<and> m = CHANNEL_NOTIFICATION \<and> j = build_params content mt
    \<and> \<not> closed p \<and> send_ok p"
  using assms
  by (auto simp: notify_def notify_begin_def notify_sends_eq peers_of_def entry_or_default_def
      hm_retain_def Let_def image_iff split: option.splits if_splits)

lemma set_hm_insert_sub: "set (hm_insert m k v) \<subseteq> insert (k, v) (set m)"
  by (induction m) (auto simp: hm_insert_def)

lemma set_hm_remove_sub: "set (hm_remove m k) \<subseteq> set m"
  by (induction m) (auto simp: hm_remove_def)

lemma set_foldl_remove_sub: "set (foldl hm_remove m ks) \<subseteq> set m"
  by (induction ks arbitrary: m) (use set_hm_remove_sub in fastforce)+

lemma set_hm_retain_sub: "set (hm_retain P m) \<subseteq> set m"
  by (auto simp: hm_retain_def)

lemma entry_insert: "entry_or_default (hm_insert m k v) i = (if i = k then v else entry_or_default m i)"
  by (simp add: entry_or_default_def hm_simps)

lemma entry_remove: "entry_or_default (hm_remove m k) i = (if i = k then [] else entry_or_default m i)"
  by (simp add: entry_or_default_def hm_simps)

lemma notify_end_peers: "peers_of i (notify_end closed mxid failed st) \<subseteq> peers_of i st"
proof (cases "failed = [] \<or> hm_get (inner st) mxid = None")
  case True
  then show ?thesis by (auto simp: notify_end_def)
next
  case False
  then obtain live where l: "hm_get (inner st) mxid = Some live" by auto
  let ?r = "hm_retain (\<lambda>_ p. \<not> closed p) (foldl hm_remove live failed)"
  have "set ?r \<subseteq> set live"
    using set_hm_retain_sub set_foldl_remove_sub by (meson order.trans)
  moreover have "entry_or_default (inner st) mxid = live" using l by (simp add: entry_or_default_def)
  ultimately show ?thesis
    using l False
    by (auto simp: notify_end_def Let_def peers_of_def entry_insert entry_remove)
qed

lemma notify_peers: "peers_of i (snd (snd (notify closed send_ok mxid content mt st))) \<subseteq> peers_of i st"
proof (cases "hm_get (inner st) mxid")
  case None
  then show ?thesis by (simp add: notify_def notify_begin_def)
next
  case (Some ps)
  let ?st = "st\<lparr>inner := hm_insert (inner st) mxid (hm_retain (\<lambda>_ p. \<not> closed p) ps)\<rparr>"
  have "entry_or_default (inner st) mxid = ps" using Some by (simp add: entry_or_default_def)
  then have "peers_of i ?st \<subseteq> peers_of i st"
    by (auto simp: peers_of_def entry_insert hm_retain_def)
  moreover have "peers_of i (notify_end closed mxid failed ?st) \<subseteq> peers_of i ?st" for failed
    by (rule notify_end_peers)
  ultimately have "peers_of i (notify_end closed mxid failed ?st) \<subseteq> peers_of i st" for failed
    by blast
  moreover have "snd (snd (notify closed send_ok mxid content mt st)) =
      (if hm_retain (\<lambda>_ p. \<not> closed p) ps = [] then ?st
       else notify_end closed mxid (snd (notify_sends send_ok (build_params content mt)
         (hm_retain (\<lambda>_ p. \<not> closed p) ps))) ?st)"
    using Some by (auto simp: notify_def notify_begin_def Let_def split: prod.splits)
  ultimately show ?thesis
    using \<open>peers_of i ?st \<subseteq> peers_of i st\<close> by (metis (no_types, lifting))
qed

lemma notify_rest:
  "last_rooms (snd (snd (notify closed send_ok mxid content mt st))) = last_rooms st"
  "pending (snd (snd (notify closed send_ok mxid content mt st))) = pending st"
  "replaying (snd (snd (notify closed send_ok mxid content mt st))) = replaying st"
  "fst (notify closed send_ok mxid content mt st) = length (fst (snd (notify closed send_ok mxid content mt st)))"
  by (auto simp: notify_def notify_begin_def notify_end_def Let_def split: option.splits prod.splits)

lemma deliver_verdict_sent:
  assumes "(p, m, j) \<in> set (fst (snd (deliver_verdict send_ok now mxid rid b st)))"
  shows "p \<in> peers_of mxid st \<and> m = PERMISSION_VERDICT_NOTIFICATION \<and> j = verdict_params rid b"
proof -
  have "p \<in> snd ` set ps" if "hm_get ps k = Some p" for ps k
    using that by (metis map_of_SomeD image_eqI snd_conv)
  with assms show ?thesis
    by (auto simp: deliver_verdict_def deliver_begin_def Let_def peers_of_def entry_or_default_def
        split: option.splits prod.splits if_splits)
qed

lemma allowlist_rest:
  "inner (snd (allowlist now later f mxid st)) = inner st"
  "last_rooms (snd (allowlist now later f mxid st)) = last_rooms st"
  "pending (snd (allowlist now later f mxid st)) = pending st"
  "replaying (snd (allowlist now later f mxid st)) = replaying st"
  by (auto simp: allowlist_def config_def Let_def split: option.splits prod.splits)

abbreviation in_force :: "'p World \<Rightarrow> rstr \<Rightarrow> 'p Registry \<Rightarrow> rstr list" where
  "in_force w mxid st \<equiv> fst (allowlist (w_now w) (w_later w) (w_config w) mxid st)"

text \<open>The text of a message, when it can be a verdict at all.\<close>

definition verdict_text :: "LiveMessage \<Rightarrow> rstr option" where
  "verdict_text ev = (case msgtype (lm_content ev) of Text b \<Rightarrow> Some b | _ \<Rightarrow> None)"

lemma handled_as_verdict_eq:
  "handled_as_verdict w mxid ev allowed st =
     (case verdict_text ev of
        Some b \<Rightarrow> (case classify_inbound allowed b of
            Verdict rid bh \<Rightarrow> (let r = deliver_verdict (w_send_ok w) (w_now w) mxid rid bh st
               in (True, snd r))
          | _ \<Rightarrow> (False, [], st))
      | None \<Rightarrow> (False, [], st))"
  by (auto simp: handled_as_verdict_def verdict_text_def Let_def
      split: MessageType.splits Inbound.splits prod.splits)

lemma classify_not_allowed [simp]: "classify_inbound False t = Ignored"
  by (simp add: classify_inbound_def)

text \<open>The gate of \<open>push_message\<close>, as the cases it distinguishes.\<close>

lemma push_message_cases:
  "push_message w mxid room rs ev st =
    (if (live_peers (w_closed w) mxid st = 0 \<and> \<not> has_pending (w_now w) mxid st)
        \<or> rs \<noteq> Joined \<or> lm_sender ev = mxid then ([], st)
     else let st1 = snd (allowlist (w_now w) (w_later w) (w_config w) mxid st) in
       if lm_sender ev \<notin> set (in_force w mxid st) then ([], st1)
       else case Option.bind (verdict_text ev) (\<lambda>b. case classify_inbound True b of
           Verdict rid bh \<Rightarrow> Some (rid, bh) | _ \<Rightarrow> None) of
         Some (rid, bh) \<Rightarrow> snd (deliver_verdict (w_send_ok w) (w_now w) mxid rid bh st1)
       | None \<Rightarrow>
           if live_peers (w_closed w) mxid st = 0 then ([], st1)
           else let st2 = remember_room mxid room st1 in
             (case message_push w mxid (in_force w mxid st) room ev of None \<Rightarrow> ([], st2)
              | Some (body, mta) \<Rightarrow> snd (notify (w_closed w) (w_send_ok w) mxid body mta st2)))"
proof -
  obtain al st1 where a: "allowlist (w_now w) (w_later w) (w_config w) mxid st = (al, st1)"
    by (cases "allowlist (w_now w) (w_later w) (w_config w) mxid st")
  show ?thesis
    unfolding push_message_def a handled_as_verdict_eq Let_def
    by (auto simp: case_prod_unfold split: option.splits Inbound.splits)
qed

lemma peers_of_inner: "inner st = inner st' \<Longrightarrow> peers_of m st = peers_of m st'"
  by (simp add: peers_of_def)

text \<open>C3: nothing a message does reaches a session unless its sender is on the allowlist in force, is
  not the identity itself, and the room is joined; it reaches sessions of this identity only; and a
  text that is a verdict is never pushed as chat, nor anything else as a verdict.\<close>

theorem push_message_gated:
  assumes "(p, m, j) \<in> set (fst (push_message w mxid room rs ev st))"
  shows "rs = Joined \<and> lm_sender ev \<noteq> mxid \<and> lm_sender ev \<in> set (in_force w mxid st)
    \<and> p \<in> peers_of mxid st
    \<and> (case Option.bind (verdict_text ev) (\<lambda>b. case classify_inbound True b of
           Verdict rid bh \<Rightarrow> Some (rid, bh) | _ \<Rightarrow> None) of
         Some (rid, bh) \<Rightarrow> m = PERMISSION_VERDICT_NOTIFICATION \<and> j = verdict_params rid bh
       | None \<Rightarrow> m = CHANNEL_NOTIFICATION \<and> live_peers (w_closed w) mxid st \<noteq> 0
           \<and> (\<exists>body mta. message_push w mxid (in_force w mxid st) room ev = Some (body, mta)
                \<and> j = build_params body mta))"
proof -
  let ?st1 = "snd (allowlist (w_now w) (w_later w) (w_config w) mxid st)"
  have p1: "peers_of mxid ?st1 = peers_of mxid st"
    "peers_of mxid (remember_room mxid room ?st1) = peers_of mxid st"
    by (auto intro!: peers_of_inner simp: allowlist_rest remember_room_def)
  have gate: "rs = Joined" "lm_sender ev \<noteq> mxid" "lm_sender ev \<in> set (in_force w mxid st)"
    using assms by (auto simp: push_message_cases Let_def split: if_splits)
  show ?thesis
  proof (cases "Option.bind (verdict_text ev) (\<lambda>b. case classify_inbound True b of
           Verdict rid bh \<Rightarrow> Some (rid, bh) | _ \<Rightarrow> None)")
    case None
    with assms gate show ?thesis
      by (auto simp: push_message_cases Let_def p1 split: if_splits option.splits dest!: notify_sent)
  next
    case (Some v)
    with assms gate show ?thesis
      by (auto simp: push_message_cases Let_def p1 split: if_splits prod.splits
          dest!: deliver_verdict_sent)
  qed
qed

text \<open>One session of one identity, one allowed sender and one image.\<close>

definition demo_world :: "nat World" where
  "demo_world = \<lparr>w_closed = \<lambda>_. False, w_send_ok = \<lambda>_. True, w_now = 5, w_later = 6,
     w_config = Fetched \<lparr>allowed_senders = [''@a:x''], config_permission_room = Some ''!ask:x''\<rparr>,
     w_parse_event_id = \<lambda>_. True, w_event = \<lambda>_. None\<rparr>"

definition demo_registry :: "nat Registry" where
  "demo_registry = new_registry\<lparr>inner := [(''@bot:x'', [(''k1'', 1)])]\<rparr>"

definition demo_image :: LiveMessage where
  "demo_image = \<lparr>lm_sender = ''@a:x'', lm_event_id = ''$1'',
     lm_content = \<lparr>msgtype = Image ''cat.png'' None, relates_to = None\<rparr>\<rparr>"

lemmas demo_simps = demo_world_def demo_registry_def demo_image_def new_registry_def allowlist_def
  config_def config_of_fetch_def

lemma demo_push:
  obtains b m where "message_push demo_world ''@bot:x'' [''@a:x''] ''!r:x'' demo_image = Some (b, m)"
  by (simp add: message_push_def demo_image_def live_delivery_def attachment_def split_caption_def Let_def)

theorem push_message_gated_witness:
  "lm_sender demo_image \<in> set (in_force demo_world ''@bot:x'' demo_registry)
   \<and> 1 \<in> peers_of ''@bot:x'' demo_registry"
proof -
  obtain b m where m: "message_push demo_world ''@bot:x'' [''@a:x''] ''!r:x'' demo_image = Some (b, m)"
    by (rule demo_push)
  have "(1, CHANNEL_NOTIFICATION, build_params b m)
      \<in> set (fst (push_message demo_world ''@bot:x'' ''!r:x'' Joined demo_image demo_registry))"
    using m by (simp add: push_message_cases Let_def demo_simps verdict_text_def live_peers_def
        notify_def notify_begin_def hm_retain_def remember_room_def)
  from push_message_gated [OF this] show ?thesis by blast
qed

text \<open>A sender who is not on the allowlist changes nothing a prompt depends on: no push, no verdict
  retired, and the room he wrote in is not remembered as a place for prompts.\<close>

theorem stranger_has_no_effect:
  assumes "lm_sender ev \<notin> set (in_force w mxid st)"
  shows "fst (push_message w mxid room rs ev st) = []
    \<and> last_rooms (snd (push_message w mxid room rs ev st)) = last_rooms st
    \<and> pending (snd (push_message w mxid room rs ev st)) = pending st
    \<and> inner (snd (push_message w mxid room rs ev st)) = inner st"
  using assms by (simp add: push_message_cases Let_def allowlist_rest)

theorem stranger_has_no_effect_witness:
  "last_rooms (snd (push_message \<lparr>w_closed = \<lambda>_. False, w_send_ok = \<lambda>_. True, w_now = 5, w_later = 6,
       w_config = Fetched \<lparr>allowed_senders = [''@a:x''], config_permission_room = None\<rparr>,
       w_parse_event_id = \<lambda>_. True, w_event = \<lambda>_. None\<rparr> ''@bot:x'' ''!evil:y'' Joined
     \<lparr>lm_sender = ''@m:y'', lm_event_id = ''$1'',
      lm_content = \<lparr>msgtype = Text ''yes qmzkd'', relates_to = None\<rparr>\<rparr>
     ((new_registry :: nat Registry)\<lparr>inner := [(''@bot:x'', [(''k1'', 1)])]\<rparr>))) = []"
  by (subst stranger_has_no_effect [THEN conjunct2, THEN conjunct1])
    (simp_all add: allowlist_def config_def new_registry_def config_of_fetch_def Let_def)

lemma push_reaction_cases:
  "push_reaction w mxid room rs ev st =
    (if live_peers (w_closed w) mxid st = 0 \<or> rs \<noteq> Joined \<or> lr_sender ev = mxid then ([], st)
     else let st1 = snd (allowlist (w_now w) (w_later w) (w_config w) mxid st) in
       if lr_sender ev \<notin> set (in_force w mxid st) then ([], st1)
       else snd (notify (w_closed w) (w_send_ok w) mxid
           (cap_wrapped (wrapped (evaluate (Some room) (Some (lr_sender ev)) (Some (lr_event_id ev)) [])))
           (live_reaction_meta room (lr_sender ev) (lr_event_id ev)
              (carried_reaction (lr_key ev) (lr_target ev))) st1))"
  by (auto simp: push_reaction_def Let_def split: prod.splits)

text \<open>A reaction passes the same gates as a message, carries the key cut to its cap and the event
  it annotates, and never moves the room that prompts go to.\<close>

theorem push_reaction_gated:
  "last_rooms (snd (push_reaction w mxid room rs ev st)) = last_rooms st
   \<and> pending (snd (push_reaction w mxid room rs ev st)) = pending st
   \<and> list_all (\<lambda>(p, m, j). rs = Joined \<and> lr_sender ev \<noteq> mxid
        \<and> lr_sender ev \<in> set (in_force w mxid st) \<and> p \<in> peers_of mxid st
        \<and> m = CHANNEL_NOTIFICATION
        \<and> meta_attr j ''reaction'' = Some (JStr (attr_escape (clip (lr_key ev) 64)))
        \<and> meta_attr j ''annotates'' = Some (JStr (attr_escape (lr_target ev))))
      (fst (push_reaction w mxid room rs ev st))"
proof -
  let ?m = "live_reaction_meta room (lr_sender ev) (lr_event_id ev)
    (carried_reaction (lr_key ev) (lr_target ev))"
  have ok: "meta_key_ok ''reaction''" "meta_key_ok ''annotates''" by code_simp+
  have meta: "meta_attr (build_params b ?m) ''reaction'' = Some (JStr (attr_escape (clip (lr_key ev) 64)))"
    "meta_attr (build_params b ?m) ''annotates'' = Some (JStr (attr_escape (lr_target ev)))" for b
    by (simp_all add: build_params_meta ok live_reaction_meta_def reaction_meta_def
        carried_reaction_def REACTION_KEY_MAX_def)
  have peers: "peers_of mxid (snd (allowlist (w_now w) (w_later w) (w_config w) mxid st)) = peers_of mxid st"
    by (rule peers_of_inner) (simp add: allowlist_rest)
  show ?thesis
    using meta peers
    by (auto simp: push_reaction_cases Let_def notify_rest allowlist_rest list_all_iff
        dest!: notify_sent)
qed

section \<open>What is written\<close>

definition keys_ok :: "meta \<Rightarrow> bool" where
  "keys_ok mta = list_all (\<lambda>(k, _). meta_key_ok k) mta"

lemma keys_ok_append [simp]: "keys_ok (a @ b) \<longleftrightarrow> keys_ok a \<and> keys_ok b"
  by (simp add: keys_ok_def)

lemma keys_ok_simps [simp]: "keys_ok []" "keys_ok ((k, v) # m) \<longleftrightarrow> meta_key_ok k \<and> keys_ok m"
  by (simp_all add: keys_ok_def)

lemma channel_keys_ok:
  "list_all meta_key_ok [''room'', ''sender'', ''event'', ''replayed'', ''replaces'', ''attachment'',
     ''filename'', ''reaction'', ''annotates'', ''suspicious'', ''in_reply_to'',
     ''in_reply_to_unresolved'', ''in_reply_to_sender'', ''in_reply_to_excerpt'',
     ''in_reply_to_untrusted_sender'', ''in_reply_to_suspicious'']"
  by code_simp

lemma attribute_keys_ok:
  "keys_ok (replaces_meta r)" "keys_ok (attachment_meta c)" "keys_ok (reaction_meta c)"
  "keys_ok (reply_meta rr)" "keys_ok (replay_meta room s i c e)"
  "keys_ok (live_reaction_meta room s i c)"
  using channel_keys_ok
  by (auto simp: replaces_meta_def attachment_meta_def reaction_meta_def reply_meta_def
      replay_meta_def live_reaction_meta_def split: option.splits Carried.splits)

section \<open>Replay\<close>

lemma replay_push_keys:
  "replay_push w mxid allowed room q c = Some (body, mta) \<Longrightarrow> keys_ok mta"
  using channel_keys_ok
  by (auto simp: replay_push_def attribute_keys_ok split: option.splits)

text \<open>Every attribute a live or replayed event carries has a key the client keeps, and the body a
  live message pushes is at most 4,140 bytes and ends with the sandbox's closing delimiter.\<close>

theorem pushed_attributes_kept:
  assumes "message_push w mxid allowed room ev = Some (body, mta)"
    and "replay_push w mxid allowed room q c = Some (body', mta')"
  shows "keys_ok mta \<and> keys_ok mta' \<and> length body \<le> 4140 \<and> suffix ''</matrix:message>'' body"
proof -
  obtain t where b: "body = cap_wrapped (wrap_body (Some room) (Some (lm_sender ev)) (Some (lm_event_id ev)) t)"
    using assms(1) by (auto simp: message_push_def Let_def evaluate_def split: option.splits prod.splits)
  have "keys_ok mta"
    using assms(1) channel_keys_ok
    by (auto simp: message_push_def Let_def attribute_keys_ok split: option.splits prod.splits)
  moreover have "suffix ''</matrix:message>'' body"
    using wrapped_body_frame unfolding b cap_wrapped_def
    by (auto simp: suffix_def NL_def)
  moreover have "length body \<le> 4140"
    using wrapped_cap.cut_length unfolding b
    by (rule order.trans) (simp add: MAX_PUSH_BYTES_def truncated_note_def NL_def)
  ultimately show ?thesis using replay_push_keys [OF assms(2)] by simp
qed

definition demo_event :: ReadEvent where
  "demo_event = \<lparr>re_event_id = Some ''$2'', re_sender = Some ''@a:x'', re_origin_server_ts = Some 1,
     re_status = ''plaintext'', re_event = None, re_in_reply_to = None, re_is_thread_root = False,
     re_thread_event_count = None, re_untrusted_body = Some ''x'', re_suspicious = False\<rparr>"

theorem pushed_attributes_kept_witness:
  "\<exists>b m. message_push demo_world ''@bot:x'' [''@a:x''] ''!r:x'' demo_image = Some (b, m) \<and> keys_ok m"
proof -
  obtain b m where m: "message_push demo_world ''@bot:x'' [''@a:x''] ''!r:x'' demo_image = Some (b, m)"
    by (rule demo_push)
  obtain b' m' where "replay_push demo_world ''@bot:x'' [''@a:x''] ''!r:x'' [] (demo_event, Message) = Some (b', m')"
    by (simp add: replay_push_def demo_event_def replay_body_def replay_body_source_def
        replaces_of_def new_content_body_def)
  from pushed_attributes_kept [OF m this] m show ?thesis by blast
qed

definition sent_to :: "'p set \<Rightarrow> 'p sent \<Rightarrow> bool" where
  "sent_to ps sent = list_all (\<lambda>(p, m, j). p \<in> ps \<and> m = CHANNEL_NOTIFICATION) sent"

lemma sent_to_append [simp]: "sent_to ps (a @ b) \<longleftrightarrow> sent_to ps a \<and> sent_to ps b"
  by (simp add: sent_to_def)

lemma sent_to_mono: "sent_to ps s \<Longrightarrow> ps \<subseteq> qs \<Longrightarrow> sent_to qs s"
  by (auto simp: sent_to_def list_all_iff)

lemma notify_sent_to: "sent_to (peers_of mxid st) (fst (snd (notify closed ok mxid content mt st)))"
  using notify_sent by (fastforce simp: sent_to_def list_all_iff)

text \<open>What one stretch of a replay keeps: its own peers only, and the rest of the registry.\<close>

definition replay_frame :: "rstr \<Rightarrow> 'p Registry \<Rightarrow> 'p sent \<times> 'p Registry \<Rightarrow> bool" where
  "replay_frame mxid st r \<longleftrightarrow> sent_to (peers_of mxid st) (fst r)
     \<and> (\<forall>i. peers_of i (snd r) \<subseteq> peers_of i st)
     \<and> pending (snd r) = pending st \<and> last_rooms (snd r) = last_rooms st
     \<and> replaying (snd r) = replaying st"

lemma replay_frame_refl: "replay_frame mxid st ([], st)"
  by (simp add: replay_frame_def sent_to_def)

lemma replay_frame_trans:
  "replay_frame mxid st (a, st1) \<Longrightarrow> replay_frame mxid st1 (b, st2) \<Longrightarrow> replay_frame mxid st (a @ b, st2)"
  by (auto simp: replay_frame_def intro: sent_to_mono)

lemma replay_frame_notify: "replay_frame mxid st (snd (notify closed ok mxid content mt st))"
  by (simp add: replay_frame_def notify_sent_to notify_peers notify_rest)

lemma replay_loop_frame:
  "replay_frame mxid st (snd (replay_loop w mxid allowed room q cs st))
   \<and> fst (replay_loop w mxid allowed room q cs st) \<le> length cs"
proof (induction cs arbitrary: st)
  case Nil
  then show ?case by (simp add: replay_frame_refl)
next
  case (Cons c cs)
  show ?case
  proof (cases "replay_push w mxid allowed room q c")
    case None
    with Cons [of st] show ?thesis by (auto intro: le_SucI)
  next
    case (Some bm)
    obtain body mta where bm: "bm = (body, mta)" by (cases bm)
    obtain d sent st1 where n: "notify (w_closed w) (w_send_ok w) mxid body mta st = (d, sent, st1)"
      by (metis prod_cases3)
    obtain m sent' st2 where l: "replay_loop w mxid allowed room q cs st1 = (m, sent', st2)"
      by (metis prod_cases3)
    have "replay_frame mxid st (sent, st1)"
      using replay_frame_notify [of mxid st "w_closed w" "w_send_ok w" body mta] n by simp
    moreover have "replay_frame mxid st1 (sent', st2)" "m \<le> length cs"
      using Cons [of st1] l by auto
    ultimately show ?thesis
      using Some bm n l replay_frame_trans by auto
  qed
qed

lemma replay_deliverable_length: "length (replay_deliverable us mxid allowed budget) \<le> budget"
  by (simp add: replay_deliverable_def)

lemma replay_room_frame:
  "replay_frame mxid st (snd (replay_room w room mxid allowed budget st))
   \<and> fst (replay_room w room mxid allowed budget st) \<le> budget"
proof (cases "rm_messages room")
  case None
  then show ?thesis by (simp add: replay_room_def replay_frame_refl)
next
  case (Some chunk)
  obtain us reached where u: "unseen_events (rm_watermark room) (read_events_from_chunk chunk) = (us, reached)"
    by (metis prod.exhaust)
  let ?d = "replay_deliverable (rev (take REPLAY_MAX us)) mxid allowed budget"
  let ?nt = "if \<not> reached \<and> REPLAY_MAX < length us
     then snd (notify (w_closed w) (w_send_ok w) mxid truncation_note
       [(''room'', rm_id room), (''replayed'', ''truncated'')] st) else ([], st)"
  obtain nt st1 where nt: "?nt = (nt, st1)" by (metis prod.exhaust)
  obtain n sent st2 where l: "replay_loop w mxid allowed (rm_id room)
      (quotable_from (read_events_from_chunk chunk)) ?d st1 = (n, sent, st2)"
    by (metis prod_cases3)
  have "replay_frame mxid st (nt, st1)"
    using nt replay_frame_notify replay_frame_refl by (metis (no_types, lifting))
  moreover have "replay_frame mxid st1 (sent, st2)" "n \<le> length ?d"
    using replay_loop_frame [of mxid st1 w allowed "rm_id room"
        "quotable_from (read_events_from_chunk chunk)" ?d] l by auto
  ultimately have "replay_frame mxid st (nt @ sent, st2)" "n \<le> budget"
    using replay_frame_trans replay_deliverable_length le_trans by blast+
  moreover have "replay_room w room mxid allowed budget st =
      (if ?d = [] then (0, [], st) else (n, nt @ sent, st2))"
    using Some u nt l by (simp add: replay_room_def Let_def)
  ultimately show ?thesis
    by (simp add: replay_frame_refl)
qed

lemma replay_rooms_frame:
  "replay_frame mxid st (snd (replay_rooms w rooms mxid allowed budget st))
   \<and> fst (replay_rooms w rooms mxid allowed budget st) \<le> budget"
proof (induction rooms arbitrary: budget st)
  case Nil
  then show ?case by (simp add: replay_frame_refl)
next
  case (Cons room rooms)
  obtain n sent st1 where r: "replay_room w room mxid allowed budget st = (n, sent, st1)"
    by (metis prod_cases3)
  obtain m sent' st2 where l: "replay_rooms w rooms mxid allowed (budget - n) st1 = (m, sent', st2)"
    by (metis prod_cases3)
  have "replay_frame mxid st (sent, st1)" "n \<le> budget"
    using replay_room_frame [of mxid st w room allowed budget] r by auto
  moreover have "replay_frame mxid st1 (sent', st2)" "m \<le> budget - n"
    using Cons [of st1 "budget - n"] l by auto
  ultimately show ?case
    using r l replay_frame_trans by (auto simp: replay_frame_refl)
qed

text \<open>An attach replays at most 100 events, all of them to sessions of the identity it belongs to,
  nothing while another pass of the same identity runs, nothing when its allowlist is empty; it
  leaves prompts and rooms alone and always clears its own guard.\<close>

theorem replay_missed_bounded:
  fixes st :: "'p Registry" and w :: "'p World" and rooms mxid
  defines "r \<equiv> replay_missed w rooms mxid st"
  shows "fst r \<le> 100 \<and> sent_to (peers_of mxid st) (fst (snd r))
    \<and> (mxid \<in> set (replaying st) \<or> in_force w mxid st = [] \<longrightarrow> fst (snd r) = [])
    \<and> pending (snd (snd r)) = pending st \<and> last_rooms (snd (snd r)) = last_rooms st
    \<and> set (replaying (snd (snd r))) = set (replaying st)"
proof -
  let ?al = "allowlist (w_now w) (w_later w) (w_config w) mxid st"
  let ?st2 = "(snd ?al)\<lparr>replaying := mxid # replaying (snd ?al)\<rparr>"
  let ?rr = "replay_rooms w (take REPLAY_MAX_ROOMS rooms) mxid (fst ?al) REPLAY_MAX_TOTAL ?st2"
  have r: "r = (if fst ?al = [] \<or> mxid \<in> set (replaying st) then (0, [], snd ?al)
      else (fst ?rr, fst (snd ?rr),
        (snd (snd ?rr))\<lparr>replaying := removeAll mxid (replaying (snd (snd ?rr)))\<rparr>))"
    by (simp add: r_def replay_missed_def Let_def case_prod_unfold allowlist_rest)
  have "peers_of mxid ?st2 = peers_of mxid st"
    by (rule peers_of_inner) (simp add: allowlist_rest)
  with replay_rooms_frame [of mxid ?st2 w "take REPLAY_MAX_ROOMS rooms" "fst ?al" REPLAY_MAX_TOTAL]
  have f: "sent_to (peers_of mxid st) (fst (snd ?rr))" "fst ?rr \<le> 100"
    "pending (snd (snd ?rr)) = pending st" "last_rooms (snd (snd ?rr)) = last_rooms st"
    "replaying (snd (snd ?rr)) = mxid # replaying st"
    by (simp_all add: replay_frame_def REPLAY_MAX_TOTAL_def allowlist_rest)
  show ?thesis
  proof (cases "fst ?al = [] \<or> mxid \<in> set (replaying st)")
    case True
    then have "r = (0, [], snd ?al)" using r by simp
    then show ?thesis by (simp add: sent_to_def allowlist_rest)
  next
    case False
    with r have "r = (fst ?rr, fst (snd ?rr),
        (snd (snd ?rr))\<lparr>replaying := removeAll mxid (replaying (snd (snd ?rr)))\<rparr>)" by simp
    with f False show ?thesis by simp
  qed
qed

theorem replay_missed_bounded_witness:
  "fst (snd (replay_missed demo_world [] ''@bot:x'' (demo_registry\<lparr>replaying := [''@bot:x'']\<rparr>))) = []"
  using replay_missed_bounded [where w = demo_world and rooms = "[]" and mxid = "''@bot:x''"
      and st = "demo_registry\<lparr>replaying := [''@bot:x'']\<rparr>"]
  by simp

section \<open>Prompts\<close>

text \<open>A permission prompt is written only on the channel mount, to one room, the one
  \<open>permission_room\<close> names, and only while this account is joined to it; exactly then is the
  request recorded for the asking session, and a prompt with no usable destination leaves no
  pending entry behind.\<close>

theorem prompt_only_to_usable_room:
  fixes st :: "'p Registry" and w :: "'p World" and mode meth params caller client_ok
    parse_room get_room
  defines "r \<equiv> on_custom_notification mode meth params caller client_ok parse_room get_room w st"
  shows "(\<forall>room t. (room, t) \<in> set (fst r) \<longrightarrow> mode = Channel \<and> get_room room = Some Joined
        \<and> (\<exists>q mxid key. params = Some q \<and> caller = Some (mxid, key) \<and> t = format_prompt q
             \<and> fst (permission_room (w_now w) (w_later w) (w_config w) mxid st) = Some room
             \<and> pending (snd r) = pending (record_request (w_now w) mxid (request_id q) key st)))
    \<and> (fst r = [] \<longrightarrow> pending (snd r) = pending st)
    \<and> length (fst r) \<le> 1 \<and> inner (snd r) = inner st"
proof -
  have rest: "pending (snd (permission_room n l f m st)) = pending st"
    "inner (snd (permission_room n l f m st)) = inner st"
    "next_serial (snd (permission_room n l f m st)) = next_serial st" for n l f m
    by (auto simp: permission_room_def config_def Let_def split: option.splits prod.splits)
  show ?thesis
    unfolding r_def on_custom_notification_def
    using rest by (auto simp: case_prod_unfold record_request_def prompt_room_is_usable_def
        split: option.splits RoomState.splits)
qed

theorem prompt_only_to_usable_room_witness:
  "pending (snd (on_custom_notification Full PERMISSION_REQUEST_NOTIFICATION None None True
     (\<lambda>_. True) (\<lambda>_. Some Joined) demo_world demo_registry)) = []"
  using prompt_only_to_usable_room [where mode = Full and meth = PERMISSION_REQUEST_NOTIFICATION
      and params = None and caller = None and client_ok = True and parse_room = "\<lambda>_. True"
      and get_room = "\<lambda>_. Some Joined" and w = demo_world and st = demo_registry]
  by (simp add: on_custom_notification_def demo_registry_def new_registry_def)

end
