(* ===== verification/UrlSafety.thy ===== *)
theory UrlSafety
  imports Utf8 "HOL-Library.Word"
begin

text \<open>
  \<open>src/url_safety.rs\<close> and the fetch path of \<open>src/mcp.rs\<close> that relies on it:
  the address denylist on the octets and segments of an address, the check of a URL, the redirect
  loop and the capped download of \<open>upload_from_url\<close>. The URL parser, the resolver and the
  HTTP client are arguments; an error is its kind, without its text.
\<close>

unbundle bit_operations_syntax

section \<open>Addresses\<close>

type_synonym octet = "8 word"
type_synonym segment = "16 word"

datatype IpAddr = V4 octet octet octet octet
  | V6 segment segment segment segment segment segment segment segment

text \<open>The predicates of \<open>std::net::Ipv4Addr\<close>.\<close>

fun v4_is_loopback :: "IpAddr \<Rightarrow> bool" where
  "v4_is_loopback (V4 a b c d) = (a = 127)" | "v4_is_loopback _ = False"

fun v4_is_private :: "IpAddr \<Rightarrow> bool" where
  "v4_is_private (V4 a b c d) =
     (a = 10 \<or> (a = 172 \<and> 16 \<le> b \<and> b \<le> 31) \<or> (a = 192 \<and> b = 168))"
| "v4_is_private _ = False"

fun v4_is_link_local :: "IpAddr \<Rightarrow> bool" where
  "v4_is_link_local (V4 a b c d) = (a = 169 \<and> b = 254)" | "v4_is_link_local _ = False"

fun v4_is_broadcast :: "IpAddr \<Rightarrow> bool" where
  "v4_is_broadcast (V4 a b c d) = (a = 255 \<and> b = 255 \<and> c = 255 \<and> d = 255)"
| "v4_is_broadcast _ = False"

fun v4_is_documentation :: "IpAddr \<Rightarrow> bool" where
  "v4_is_documentation (V4 a b c d) = ((a = 192 \<and> b = 0 \<and> c = 2)
     \<or> (a = 198 \<and> b = 51 \<and> c = 100) \<or> (a = 203 \<and> b = 0 \<and> c = 113))"
| "v4_is_documentation _ = False"

fun v4_is_unspecified :: "IpAddr \<Rightarrow> bool" where
  "v4_is_unspecified (V4 a b c d) = (a = 0 \<and> b = 0 \<and> c = 0 \<and> d = 0)"
| "v4_is_unspecified _ = False"

fun v4_is_multicast :: "IpAddr \<Rightarrow> bool" where
  "v4_is_multicast (V4 a b c d) = (224 \<le> a \<and> a \<le> 239)" | "v4_is_multicast _ = False"

definition v4_denied :: "octet \<Rightarrow> octet \<Rightarrow> octet \<Rightarrow> octet \<Rightarrow> bool" where
  "v4_denied a b c d = (let v4 = V4 a b c d in
     v4_is_loopback v4 \<or> v4_is_private v4 \<or> v4_is_link_local v4 \<or> v4_is_broadcast v4
     \<or> v4_is_documentation v4 \<or> v4_is_unspecified v4 \<or> v4_is_multicast v4
     \<or> (a = 100 \<and> b AND 0b11000000 = 0b01000000))"

text \<open>\<open>to_ipv4_mapped\<close>: the last 32 bits when the address is in \<open>::ffff:0:0/96\<close>.\<close>

definition low_octet :: "segment \<Rightarrow> octet" where "low_octet s = ucast s"
definition high_octet :: "segment \<Rightarrow> octet" where "high_octet s = ucast (drop_bit 8 s)"

fun is_private_or_local_ip :: "IpAddr \<Rightarrow> bool" where
  "is_private_or_local_ip (V4 a b c d) = v4_denied a b c d"
| "is_private_or_local_ip (V6 s0 s1 s2 s3 s4 s5 s6 s7) =
     ((s0 = 0 \<and> s1 = 0 \<and> s2 = 0 \<and> s3 = 0 \<and> s4 = 0 \<and> s5 = 0 \<and> s6 = 0 \<and> s7 = 1)
     \<or> (s0 = 0 \<and> s1 = 0 \<and> s2 = 0 \<and> s3 = 0 \<and> s4 = 0 \<and> s5 = 0 \<and> s6 = 0 \<and> s7 = 0)
     \<or> s0 AND 0xff00 = 0xff00
     \<or> s0 AND 0xfe00 = 0xfc00 \<or> s0 AND 0xffc0 = 0xfe80 \<or> (s0 = 0x2001 \<and> s1 = 0x0db8)
     \<or> (s0 = 0 \<and> s1 = 0 \<and> s2 = 0 \<and> s3 = 0 \<and> s4 = 0 \<and> s5 = 0xffff
        \<and> v4_denied (high_octet s6) (low_octet s6) (high_octet s7) (low_octet s7)))"

section \<open>URLs\<close>

text \<open>The errors of the tools: invalid parameters, an internal error with its text, and the two with
  codes of their own.\<close>

datatype ErrorData = Invalid_params | Internal_error rstr | Rate_limited | Auth_expired

text \<open>\<open>lookup\<close> is the resolver; \<open>None\<close> when the lookup fails.\<close>

definition assert_public_host :: "(rstr \<Rightarrow> nat \<Rightarrow> IpAddr list option) \<Rightarrow> rstr \<Rightarrow> nat \<Rightarrow> bool" where
  "assert_public_host lookup host port = (case lookup host port of
      None \<Rightarrow> False
    | Some addrs \<Rightarrow> if addrs = [] then False
        else if list_ex is_private_or_local_ip addrs then False else True)"

text \<open>\<open>parse\<close> gives the host and the known port of a URL that parses.\<close>

definition validate_https_url ::
  "(rstr \<Rightarrow> (rstr option \<times> nat option) option) \<Rightarrow> (rstr \<Rightarrow> nat \<Rightarrow> IpAddr list option)
     \<Rightarrow> rstr \<Rightarrow> bool" where
  "validate_https_url parse lookup url =
     (if \<not> prefix ''https://'' url then False
      else case parse url of
        None \<Rightarrow> False
      | Some (None, _) \<Rightarrow> False
      | Some (Some host, port) \<Rightarrow>
          assert_public_host lookup host (case port of None \<Rightarrow> 443 | Some p \<Rightarrow> p))"

text \<open>A HEAD answer: no answer, or a status and the Location header, which may be missing or not text.\<close>

datatype HeadAnswer = HeadFailed rstr | Head nat "rstr option option"

definition is_redirection :: "nat \<Rightarrow> bool" where
  "is_redirection status \<longleftrightarrow> 300 \<le> status \<and> status < 400"

text \<open>The loop body runs at most \<open>hops\<close> times; the trace is the URLs it requested.\<close>

fun follow_redirects ::
  "(rstr \<Rightarrow> HeadAnswer) \<Rightarrow> (rstr \<Rightarrow> rstr \<Rightarrow> rstr option) \<Rightarrow> (rstr \<Rightarrow> bool)
     \<Rightarrow> nat \<Rightarrow> rstr \<Rightarrow> rstr list \<times> (ErrorData + rstr)" where
  "follow_redirects head url_join validate 0 current = ([], Inl Invalid_params)"
| "follow_redirects head url_join validate (Suc hops) current =
     (case head current of
        HeadFailed e \<Rightarrow> ([current], Inl (Internal_error (''HEAD '' @ current @ '': '' @ e)))
      | Head status loc \<Rightarrow>
          if \<not> is_redirection status then ([current], Inr current)
          else (case loc of
            None \<Rightarrow> ([current], Inl Invalid_params)
          | Some None \<Rightarrow> ([current], Inl Invalid_params)
          | Some (Some l) \<Rightarrow> (case url_join current l of
              None \<Rightarrow> ([current], Inl Invalid_params)
            | Some next_url \<Rightarrow>
                if \<not> validate next_url then ([current], Inl Invalid_params)
                else (let (trace, r) = follow_redirects head url_join validate hops next_url
                      in (current # trace, r)))))"

definition fetch_with_validated_redirects ::
  "(rstr \<Rightarrow> rstr option) \<Rightarrow> (rstr \<Rightarrow> HeadAnswer) \<Rightarrow> (rstr \<Rightarrow> rstr \<Rightarrow> rstr option) \<Rightarrow> (rstr \<Rightarrow> bool)
     \<Rightarrow> rstr \<Rightarrow> nat \<Rightarrow> rstr list \<times> (ErrorData + rstr)" where
  "fetch_with_validated_redirects normal head url_join validate initial max_hops =
     (case normal initial of
        None \<Rightarrow> ([], Inl Invalid_params)
      | Some url \<Rightarrow> follow_redirects head url_join validate (Suc max_hops) url)"

section \<open>The capped download\<close>

definition append_capped_body_chunk :: "rstr \<Rightarrow> rstr \<Rightarrow> nat \<Rightarrow> ErrorData + rstr" where
  "append_capped_body_chunk out chunk cap =
     (if length out + length chunk \<ge> 2 ^ 64 \<or> cap < length out + length chunk then Inl Invalid_params
      else Inr (out @ chunk))"

text \<open>A stream is the chunks it yields; \<open>Inl\<close> is the text of a failed read.\<close>

fun read_chunks :: "rstr \<Rightarrow> (rstr + rstr) list \<Rightarrow> nat \<Rightarrow> rstr \<Rightarrow> ErrorData + rstr" where
  "read_chunks out [] cap label = Inr out"
| "read_chunks out (Inl e # cs) cap label = Inl (Internal_error (''read '' @ label @ '' body: '' @ e))"
| "read_chunks out (Inr c # cs) cap label = (case append_capped_body_chunk out c cap of
      Inl e \<Rightarrow> Inl e | Inr out \<Rightarrow> read_chunks out cs cap label)"

definition read_response_body_capped ::
  "nat option \<Rightarrow> (rstr + rstr) list \<Rightarrow> nat \<Rightarrow> rstr \<Rightarrow> ErrorData + rstr" where
  "read_response_body_capped declared chunks cap label =
     (if (case declared of None \<Rightarrow> False | Some n \<Rightarrow> cap < n) then Inl Invalid_params
      else read_chunks [] chunks cap label)"

text \<open>A GET answer: its status, the Content-Type when it is text, the declared length, the stream.\<close>

datatype GetAnswer = GetFailed rstr | Get nat "rstr option" "nat option" "(rstr + rstr) list"

definition url_filename :: "rstr \<Rightarrow> rstr" where
  "url_filename url = (let s = hd (split_on (CHR ''?'') (last (split_on (CHR ''/'') url)))
     in if s = [] then ''file'' else s)"

record UploadedMedia =
  mxc_uri :: rstr
  mime_type :: rstr
  bytes_len :: nat
  up_filename :: rstr

text \<open>
  \<open>mime\<close> parses a content type; \<open>upload\<close> is the homeserver's media upload. The
  trace lists every URL requested.
\<close>

definition upload_from_url ::
  "(rstr \<Rightarrow> rstr option) \<Rightarrow> (rstr \<Rightarrow> HeadAnswer) \<Rightarrow> (rstr \<Rightarrow> rstr \<Rightarrow> rstr option) \<Rightarrow> (rstr \<Rightarrow> bool)
     \<Rightarrow> (rstr \<Rightarrow> GetAnswer) \<Rightarrow> (rstr \<Rightarrow> rstr option) \<Rightarrow> (rstr \<Rightarrow> rstr \<Rightarrow> rstr + rstr)
     \<Rightarrow> nat \<Rightarrow> rstr \<Rightarrow> rstr option \<Rightarrow> rstr \<Rightarrow> rstr list \<times> (ErrorData + UploadedMedia)" where
  "upload_from_url normal head url_join validate get mime upload cap url expected_prefix default_mime =
     (if \<not> validate url then ([], Inl Invalid_params)
      else case fetch_with_validated_redirects normal head url_join validate url 3 of
        (trace, Inl e) \<Rightarrow> (trace, Inl e)
      | (trace, Inr final_url) \<Rightarrow>
          (trace @ [final_url],
           case get final_url of
             GetFailed e \<Rightarrow> Inl (Internal_error (''fetch url: '' @ e))
           | Get status content_type declared chunks \<Rightarrow>
               if \<not> (200 \<le> status \<and> status < 300) then Inl Invalid_params
               else
                 (let ct = (case content_type of None \<Rightarrow> [] | Some t \<Rightarrow> t) in
                  if (case expected_prefix of None \<Rightarrow> False | Some p \<Rightarrow> \<not> prefix p ct)
                  then Inl Invalid_params
                  else
                    (let mt = (case mime ct of None \<Rightarrow> default_mime | Some m \<Rightarrow> m) in
                     case read_response_body_capped declared chunks cap ''remote URL'' of
                       Inl e \<Rightarrow> Inl e
                     | Inr bytes \<Rightarrow> (case upload mt bytes of
                         Inl e \<Rightarrow> Inl (Internal_error (''media upload: '' @ e))
                       | Inr uri \<Rightarrow> Inr \<lparr>mxc_uri = uri, mime_type = mt,
                           bytes_len = length bytes, up_filename = url_filename final_url\<rparr>)))))"

section \<open>The denylist as prefixes\<close>

definition v4_number :: "octet \<Rightarrow> octet \<Rightarrow> octet \<Rightarrow> octet \<Rightarrow> nat" where
  "v4_number a b c d = ((unat a * 256 + unat b) * 256 + unat c) * 256 + unat d"

text \<open>Membership in a network: the leading \<open>p\<close> of 32 bits agree.\<close>

definition in_cidr :: "nat \<Rightarrow> nat \<times> nat \<Rightarrow> bool" where
  "in_cidr n net = (n div 2 ^ (32 - snd net) = fst net div 2 ^ (32 - snd net))"

definition net :: "nat \<Rightarrow> nat \<Rightarrow> nat \<Rightarrow> nat \<Rightarrow> nat \<Rightarrow> nat \<times> nat" where
  "net a b c d p = (((a * 256 + b) * 256 + c) * 256 + d, p)"

definition denied_networks :: "(nat \<times> nat) list" where
  "denied_networks = [net 127 0 0 0 8, net 10 0 0 0 8, net 172 16 0 0 12, net 192 168 0 0 16,
     net 169 254 0 0 16, net 255 255 255 255 32, net 192 0 2 0 24, net 198 51 100 0 24,
     net 203 0 113 0 24, net 0 0 0 0 32, net 224 0 0 0 4, net 100 64 0 0 10]"

lemma octet_lt: "unat b < 256" for b :: octet
  using unsigned_less [of b] by simp

lemma digit: "(x * m + y = q * m + r) = (x = q \<and> y = r)" if "y < m" "r < m" for x y q r m :: nat
proof
  assume e: "x * m + y = q * m + r"
  have "(x * m + y) div m = x" "(q * m + r) div m = q" using that by simp_all
  with e show "x = q \<and> y = r" by auto
qed simp

lemma v4_number_div:
  "v4_number a b c d div 2 ^ 8 = (unat a * 256 + unat b) * 256 + unat c" (is ?t8)
  "v4_number a b c d div 2 ^ 16 = unat a * 256 + unat b" (is ?t16)
  "v4_number a b c d div 2 ^ 20 = unat a * 16 + unat b div 16"
  "v4_number a b c d div 2 ^ 22 = unat a * 4 + unat b div 64"
  "v4_number a b c d div 2 ^ 24 = unat a"
  "v4_number a b c d div 2 ^ 28 = unat a div 16"
proof -
  let ?n = "v4_number a b c d"
  have d: "?n div 2 ^ (i + j) = ?n div 2 ^ i div 2 ^ j" for i j
    by (simp add: power_add div_mult2_eq)
  show t8: ?t8
    using octet_lt [of d] by (simp add: v4_number_def)
  have "?n div 2 ^ 16 = ?n div 2 ^ 8 div 2 ^ 8" using d [of 8 8] by simp
  with t8 show t16: ?t16
    using octet_lt [of c] by simp
  have "(unat a * 256 + unat b) div 16 = unat a * 16 + unat b div 16"
    "(unat a * 256 + unat b) div 64 = unat a * 4 + unat b div 64"
    "(unat a * 256 + unat b) div 256 = unat a"
    using div_mult_self1 [of 16 "unat b" "unat a * 16"] div_mult_self1 [of 64 "unat b" "unat a * 4"]
      octet_lt [of b] by (simp_all add: ac_simps)
  with d [of 16 4] d [of 16 6] d [of 16 8] t16
  show "?n div 2 ^ 20 = unat a * 16 + unat b div 16" "?n div 2 ^ 22 = unat a * 4 + unat b div 64"
    and t24: "?n div 2 ^ 24 = unat a" by simp_all
  with d [of 24 4] show "?n div 2 ^ 28 = unat a div 16" by simp
qed

definition mask_ok :: "nat \<Rightarrow> bool" where
  "mask_ok n \<longleftrightarrow> (word_of_nat n AND 0b11000000 = (0b01000000 :: octet)) = (n div 64 = 1)"

lemma masks_ok: "list_all mask_ok [0..<256]"
  by code_simp

lemma cgnat_mask: "b AND 0b11000000 = 0b01000000 \<longleftrightarrow> unat b div 64 = 1" for b :: octet
proof -
  have "unat b < 256" using unsigned_less [of b] by simp
  with masks_ok have "mask_ok (unat b)" by (simp add: list_all_iff)
  then show ?thesis by (simp add: mask_ok_def)
qed

lemmas v4_predicates = v4_is_loopback.simps(1) v4_is_private.simps(1) v4_is_link_local.simps(1)
  v4_is_broadcast.simps(1) v4_is_documentation.simps(1) v4_is_unspecified.simps(1)
  v4_is_multicast.simps(1)

lemma octet_values:
  "b = 127 \<longleftrightarrow> unat b = 127" "b = 10 \<longleftrightarrow> unat b = 10" "b = 172 \<longleftrightarrow> unat b = 172"
  "b = 192 \<longleftrightarrow> unat b = 192" "b = 168 \<longleftrightarrow> unat b = 168" "b = 169 \<longleftrightarrow> unat b = 169"
  "b = 254 \<longleftrightarrow> unat b = 254" "b = 255 \<longleftrightarrow> unat b = 255" "b = 2 \<longleftrightarrow> unat b = 2"
  "b = 198 \<longleftrightarrow> unat b = 198" "b = 51 \<longleftrightarrow> unat b = 51" "b = 100 \<longleftrightarrow> unat b = 100"
  "b = 203 \<longleftrightarrow> unat b = 203" "b = 113 \<longleftrightarrow> unat b = 113" "b = 0 \<longleftrightarrow> unat b = 0"
  "16 \<le> b \<longleftrightarrow> 16 \<le> unat b" "b \<le> 31 \<longleftrightarrow> unat b \<le> 31"
  "224 \<le> b \<longleftrightarrow> 224 \<le> unat b" "b \<le> 239 \<longleftrightarrow> unat b \<le> 239" for b :: octet
  by unat_arith+

text \<open>C21: an IPv4 address is refused exactly when it lies in one of the twelve listed networks, and
  an IPv4-mapped IPv6 address exactly when the address it maps is.\<close>

theorem denied_v4_networks:
  "(is_private_or_local_ip (V4 a b c d) \<longleftrightarrow> list_ex (in_cidr (v4_number a b c d)) denied_networks)
   \<and> (is_private_or_local_ip (V6 0 0 0 0 0 0xffff s6 s7) \<longleftrightarrow>
       is_private_or_local_ip (V4 (high_octet s6) (low_octet s6) (high_octet s7) (low_octet s7)))"
proof
  have lt: "unat a < 256" "unat b < 256" "unat c < 256" "unat d < 256" by (simp_all add: octet_lt)
  have "list_ex (in_cidr (v4_number a b c d)) denied_networks \<longleftrightarrow>
      unat a = 127 \<or> unat a = 10 \<or> unat a * 16 + unat b div 16 = 2753 \<or> unat a * 256 + unat b = 49320
      \<or> unat a * 256 + unat b = 43518
      \<or> v4_number a b c d = 4294967295
      \<or> (unat a * 256 + unat b) * 256 + unat c = 12582914
      \<or> (unat a * 256 + unat b) * 256 + unat c = 12989284
      \<or> (unat a * 256 + unat b) * 256 + unat c = 13303921
      \<or> v4_number a b c d = 0 \<or> unat a div 16 = 14 \<or> unat a * 4 + unat b div 64 = 401"
    using v4_number_div [of a b c d]
    by (simp add: denied_networks_def in_cidr_def net_def)
  also have "\<dots> \<longleftrightarrow> unat a = 127 \<or> unat a = 10 \<or> (unat a = 172 \<and> 16 \<le> unat b \<and> unat b \<le> 31)
      \<or> (unat a = 192 \<and> unat b = 168) \<or> (unat a = 169 \<and> unat b = 254)
      \<or> (unat a = 255 \<and> unat b = 255 \<and> unat c = 255 \<and> unat d = 255)
      \<or> (unat a = 192 \<and> unat b = 0 \<and> unat c = 2) \<or> (unat a = 198 \<and> unat b = 51 \<and> unat c = 100)
      \<or> (unat a = 203 \<and> unat b = 0 \<and> unat c = 113)
      \<or> (unat a = 0 \<and> unat b = 0 \<and> unat c = 0 \<and> unat d = 0)
      \<or> (224 \<le> unat a \<and> unat a \<le> 239) \<or> (unat a = 100 \<and> unat b div 64 = 1)"
  proof -
    have "v4_number a b c d = 4294967295 \<longleftrightarrow> unat a = 255 \<and> unat b = 255 \<and> unat c = 255 \<and> unat d = 255"
      "v4_number a b c d = 0 \<longleftrightarrow> unat a = 0 \<and> unat b = 0 \<and> unat c = 0 \<and> unat d = 0"
      using digit [of "unat d" 256 255 "(unat a * 256 + unat b) * 256 + unat c" 16777215]
        digit [of "unat c" 256 255 "unat a * 256 + unat b" 65535] digit [of "unat b" 256 255 "unat a" 255] lt
      by (simp_all add: v4_number_def)
    moreover have "unat a * 16 + unat b div 16 = 2753 \<longleftrightarrow> unat a = 172 \<and> 16 \<le> unat b \<and> unat b \<le> 31"
      using digit [of "unat b div 16" 16 1 "unat a" 172] lt by auto
    moreover have "unat a * 256 + unat b = 49320 \<longleftrightarrow> unat a = 192 \<and> unat b = 168"
      "unat a * 256 + unat b = 43518 \<longleftrightarrow> unat a = 169 \<and> unat b = 254"
      using digit [of "unat b" 256 168 "unat a" 192] digit [of "unat b" 256 254 "unat a" 169] lt
      by simp_all
    moreover have
      "(unat a * 256 + unat b) * 256 + unat c = 12582914 \<longleftrightarrow> unat a = 192 \<and> unat b = 0 \<and> unat c = 2"
      "(unat a * 256 + unat b) * 256 + unat c = 12989284 \<longleftrightarrow> unat a = 198 \<and> unat b = 51 \<and> unat c = 100"
      "(unat a * 256 + unat b) * 256 + unat c = 13303921 \<longleftrightarrow> unat a = 203 \<and> unat b = 0 \<and> unat c = 113"
      using digit [of "unat c" 256 2 "unat a * 256 + unat b" 49152] digit [of "unat b" 256 0 "unat a" 192]
        digit [of "unat c" 256 100 "unat a * 256 + unat b" 50739] digit [of "unat b" 256 51 "unat a" 198]
        digit [of "unat c" 256 113 "unat a * 256 + unat b" 51968] digit [of "unat b" 256 0 "unat a" 203] lt
      by simp_all
    moreover have "unat a div 16 = 14 \<longleftrightarrow> 224 \<le> unat a \<and> unat a \<le> 239" by auto
    moreover have "unat a * 4 + unat b div 64 = 401 \<longleftrightarrow> unat a = 100 \<and> unat b div 64 = 1"
      using digit [of "unat b div 64" 4 1 "unat a" 100] lt by auto
    ultimately show ?thesis by (simp only:)
  qed
  also have "\<dots> \<longleftrightarrow> is_private_or_local_ip (V4 a b c d)"
    unfolding is_private_or_local_ip.simps v4_denied_def Let_def v4_predicates cgnat_mask octet_values
    by (simp only: disj_assoc conj_assoc)
  finally show "is_private_or_local_ip (V4 a b c d) \<longleftrightarrow>
      list_ex (in_cidr (v4_number a b c d)) denied_networks" by simp
  show "is_private_or_local_ip (V6 0 0 0 0 0 0xffff s6 s7) \<longleftrightarrow>
       is_private_or_local_ip (V4 (high_octet s6) (low_octet s6) (high_octet s7) (low_octet s7))"
    by simp
qed

text \<open>The denylist is narrower than the set of addresses that are not globally reachable: the
  benchmarking, reserved and this-network ranges, the IETF protocol block and an IPv4 address
  embedded by NAT64 are all let through.\<close>

theorem denylist_gaps:
  "list_all (\<lambda>ip. \<not> is_private_or_local_ip ip)
     [V4 198 18 0 1, V4 240 0 0 1, V4 0 1 2 3, V4 192 0 0 8,
      V6 0x64 0xff9b 0 0 0 0 0x0a00 0x0001]"
  by code_simp

section \<open>Every request goes to a checked URL\<close>

lemma follow_redirects_trace:
  "set (fst (follow_redirects head j validate n url)) \<subseteq> insert url (Collect validate)
   \<and> length (fst (follow_redirects head j validate n url)) \<le> n
   \<and> (case snd (follow_redirects head j validate n url) of Inl e \<Rightarrow> True
      | Inr u \<Rightarrow> u = url \<or> validate u)"
proof (induction n arbitrary: url)
  case (Suc n)
  show ?case
  proof (cases "\<exists>status l next_url. head url = Head status (Some (Some l)) \<and> is_redirection status
      \<and> j url l = Some next_url \<and> validate next_url")
    case True
    then obtain status l next_url where h: "head url = Head status (Some (Some l))"
      "is_redirection status" "j url l = Some next_url" "validate next_url" by blast
    obtain t r where "follow_redirects head j validate n next_url = (t, r)" by (metis prod.exhaust)
    with h Suc [of next_url] show ?thesis by (auto split: sum.splits)
  next
    case False
    then have "fst (follow_redirects head j validate (Suc n) url) = [url]"
      "\<not> isl (snd (follow_redirects head j validate (Suc n) url)) \<Longrightarrow>
         snd (follow_redirects head j validate (Suc n) url) = Inr url"
      by (auto split: HeadAnswer.splits option.splits)
    then show ?thesis by (auto split: sum.splits)
  qed
qed simp

lemma read_chunks_capped: "read_chunks out cs cap label = Inr b \<Longrightarrow> length out \<le> cap \<Longrightarrow> length b \<le> cap"
  by (induction out cs cap label rule: read_chunks.induct)
    (auto simp: append_capped_body_chunk_def split: sum.splits if_splits)

lemma url_filename_safe: "url_filename url \<noteq> [] \<and> CHR ''/'' \<notin> set (url_filename url)
    \<and> CHR ''?'' \<notin> set (url_filename url)"
proof -
  let ?w = "last (split_on (CHR ''/'') url)"
  have "hd (split_on (CHR ''?'') ?w) \<in> set (split_on (CHR ''?'') ?w)" "?w \<in> set (split_on (CHR ''/'') url)"
    by simp_all
  then have "CHR ''?'' \<notin> set (hd (split_on (CHR ''?'') ?w))" "CHR ''/'' \<notin> set (hd (split_on (CHR ''?'') ?w))"
    using split_on_free split_on_sub by blast+
  then show ?thesis by (simp add: url_filename_def Let_def)
qed


end
