(* ===== verification/LastUsed.thy ===== *)
theory LastUsed
  imports Utf8 HashMap
begin

text \<open>
  \<open>src/last_used.rs\<close>: the capped map of last uses and the choice of the client
  address from \<open>X-Forwarded-For\<close>. The address parser of the standard library is an
  argument.
\<close>

definition MAX_ENTRIES :: nat where "MAX_ENTRIES = 1024"

record 'ip LastUsedRecord =
  used_at :: instant
  used_ip :: "'ip option"

type_synonym 'ip tracker = "(rstr, 'ip LastUsedRecord) hmap"

definition make_room :: "rstr \<Rightarrow> 'ip tracker \<Rightarrow> 'ip tracker" where
  "make_room token_hash mp =
     (if MAX_ENTRIES \<le> length mp \<and> \<not> hm_contains mp token_hash
      then (case min_by_key (\<lambda>(_, r). used_at r) mp of
          None \<Rightarrow> mp | Some (oldest, _) \<Rightarrow> hm_remove mp oldest)
      else mp)"

definition put_last_used :: "'ip tracker \<Rightarrow> rstr \<Rightarrow> 'ip LastUsedRecord \<Rightarrow> 'ip tracker" where
  "put_last_used mp token_hash r = hm_insert (make_room token_hash mp) token_hash r"

definition record_use :: "instant \<Rightarrow> rstr \<Rightarrow> 'ip option \<Rightarrow> 'ip tracker \<Rightarrow> 'ip tracker" where
  "record_use now token_hash ip mp = put_last_used mp token_hash \<lparr>used_at = now, used_ip = ip\<rparr>"

definition get_last_used :: "'ip tracker \<Rightarrow> rstr \<Rightarrow> 'ip LastUsedRecord option" where
  "get_last_used mp token_hash = hm_get mp token_hash"

section \<open>X-Forwarded-For\<close>

definition xff_entries :: "rstr \<Rightarrow> rstr list" where
  "xff_entries raw = filter (\<lambda>s. s \<noteq> []) (map trim (split_on (CHR '','') raw))"

definition ingress_chain_len :: "rstr \<Rightarrow> nat" where
  "ingress_chain_len raw = length (xff_entries raw)"

text \<open>The count reported, when it changed, and the count remembered.\<close>

definition observe_ingress_chain :: "rstr option \<Rightarrow> nat \<Rightarrow> nat option \<times> nat" where
  "observe_ingress_chain xff last_reported = (case xff of
      None \<Rightarrow> (None, last_reported)
    | Some raw \<Rightarrow> (let n = ingress_chain_len raw in
        (if last_reported \<noteq> n then Some n else None, n)))"

definition parse_client_ip :: "(rstr \<Rightarrow> 'ip option) \<Rightarrow> rstr option \<Rightarrow> nat \<Rightarrow> 'ip option" where
  "parse_client_ip parse_ip xff trusted_proxy_hops = (case xff of
      None \<Rightarrow> None
    | Some raw \<Rightarrow>
        (let parts = xff_entries raw; len = length parts in
         if trusted_proxy_hops = 0 \<or> len < trusted_proxy_hops then None
         else parse_ip (parts ! (len - trusted_proxy_hops))))"

section \<open>The capped map\<close>

lemma make_room_ok: "hm_ok mp \<Longrightarrow> hm_ok (make_room h mp)"
  by (auto simp: make_room_def hm_simps split: option.splits)

lemma make_room_get: "hm_ok mp \<Longrightarrow> hm_get (make_room h mp) k = Some r \<Longrightarrow> hm_get mp k = Some r"
  by (auto simp: make_room_def hm_get_remove split: option.splits if_splits)

lemma make_room_len:
  assumes "hm_ok mp" and "length mp \<le> MAX_ENTRIES" and "hm_get mp h = None"
  shows "length (make_room h mp) < MAX_ENTRIES"
proof (cases "MAX_ENTRIES \<le> length mp")
  case True
  then have "mp \<noteq> []" by (auto simp: MAX_ENTRIES_def)
  then obtain o' r where m: "min_by_key (\<lambda>(_, r). used_at r) mp = Some (o', r)"
    by (metis min_by_key_None not_None_eq prod.exhaust)
  then have "hm_get mp o' \<noteq> None"
    using hm_min_present [OF assms(1) m] by simp
  then have "length (hm_remove mp o') < length mp" by (rule hm_len_remove)
  with True assms m show ?thesis by (simp add: make_room_def hm_contains_def)
qed (simp add: make_room_def)

interpretation last_used_store: bounded_store hm_get put_last_used length hm_ok MAX_ENTRIES
proof unfold_locales
  fix s :: "'a tracker" and k i v w
  assume ok: "hm_ok s"
  then show "hm_ok (put_last_used s k v)"
    by (simp add: put_last_used_def hm_simps make_room_ok)
  show "hm_get (put_last_used s k v) k = Some v" by (simp add: put_last_used_def hm_simps)
  show "i \<noteq> k \<Longrightarrow> hm_get (put_last_used s k v) i = Some w \<Longrightarrow> hm_get s i = Some w"
    using make_room_get [OF ok] by (simp add: put_last_used_def hm_simps)
  assume len: "length s \<le> MAX_ENTRIES"
  show "length (put_last_used s k v) \<le> MAX_ENTRIES"
  proof (cases "hm_get s k")
    case None
    with make_room_len [OF ok len, of k] show ?thesis
      by (auto simp: put_last_used_def hm_simps)
  next
    case (Some r)
    then have "make_room k s = s" by (simp add: make_room_def hm_contains_def)
    with Some len show ?thesis by (simp add: put_last_used_def hm_simps)
  qed
qed

text \<open>C29: after any sequence of uses the tracker holds at most 1,024 bearers, the use just recorded is
  always found, and nothing is reported that was not recorded.\<close>

theorem last_used_bounded:
  fixes uses :: "(rstr \<times> 'ip LastUsedRecord) list" and h :: rstr and r :: "'ip LastUsedRecord"
  defines "t \<equiv> foldl (\<lambda>mp (h, r). put_last_used mp h r) [] (uses @ [(h, r)])"
  shows "length t \<le> 1024 \<and> get_last_used t h = Some r
    \<and> (get_last_used t i = None \<or> (\<exists>q. get_last_used t i = Some q \<and> (i, q) \<in> set (uses @ [(h, r)])))"
proof -
  have "length t \<le> MAX_ENTRIES"
    unfolding t_def by (rule last_used_store.puts_size) simp_all
  moreover have "hm_get t h = Some r"
    unfolding t_def by (rule last_used_store.puts_last) simp
  moreover have "(i, q) \<in> set (uses @ [(h, r)])" if "hm_get t i = Some q" for q
    using last_used_store.puts_look [OF _ that [unfolded t_def]] by simp
  ultimately show ?thesis
    by (cases "hm_get t i") (auto simp: MAX_ENTRIES_def get_last_used_def)
qed

section \<open>The address is not the caller's to choose\<close>

lemma split_on_append:
  "split_on c (a @ c # b) = split_on c a @ split_on c b"
proof (induction a)
  case (Cons x a)
  obtain w ws where "split_on c a = w # ws"
    using split_on_nonempty [of c a] by (meson neq_Nil_conv)
  with Cons show ?case by (cases "x = c") auto
qed simp

lemma xff_entries_append: "xff_entries (a @ CHR '','' # b) = xff_entries a @ xff_entries b"
  by (simp add: xff_entries_def split_on_append)

text \<open>C28: whatever a client puts in the header before the trusted proxies append their entries, the
  address recorded is the same; and the parser selects by the same count the chain length reports,
  giving none exactly when the chain is shorter than the trusted hops, or the entry is no address.\<close>

theorem client_ip_not_spoofable:
  assumes "length (xff_entries trusted) = n" and "0 < n"
  shows "parse_client_ip p (Some (claimed @ CHR '','' # trusted)) n = parse_client_ip p (Some trusted) n
    \<and> parse_client_ip p (Some trusted) n = p (hd (xff_entries trusted))
    \<and> (ingress_chain_len raw < n \<longrightarrow> parse_client_ip p (Some raw) n = None)"
  using assms
  by (auto simp: parse_client_ip_def Let_def xff_entries_append nth_append ingress_chain_len_def
      hd_conv_nth)

theorem client_ip_not_spoofable_witness:
  "parse_client_ip Some (Some (''6.6.6.6'' @ CHR '','' # ''203.0.113.9'')) 1 = Some ''203.0.113.9''"
proof -
  have e: "xff_entries ''203.0.113.9'' = [''203.0.113.9'']" by code_simp
  from client_ip_not_spoofable [of "''203.0.113.9''" 1 Some "''6.6.6.6''" "[]"] e
  show ?thesis by simp
qed

end
