(* ===== verification/RateLimit.thy ===== *)
theory RateLimit
  imports HashMap
begin

text \<open>
  \<open>src/rate_limit.rs\<close>: the two-key limiter of tool calls and the limiter of session
  creation. A token bucket of the governor crate is an argument: \<open>fresh quota\<close> is a new
  bucket, \<open>take t b\<close> asks one at time \<open>t\<close> and returns whether it allows and the
  bucket afterwards. Buckets are shared through the map, so the map is the store.
\<close>

datatype Category = ReadCall | WriteCall

type_synonym 'b buckets = "(rstr, 'b) hmap"

record 'b Limiter =
  reads_per_min :: nat
  writes_per_min :: nat
  bearer_read :: "'b buckets"
  bearer_write :: "'b buckets"
  sub_read :: "'b buckets"
  sub_write :: "'b buckets"

definition new_limiter :: "nat \<Rightarrow> nat \<Rightarrow> 'b Limiter option" where
  "new_limiter reads writes =
     (if reads = 0 \<or> writes = 0 then None
      else Some \<lparr>reads_per_min = reads, writes_per_min = writes, bearer_read = [],
        bearer_write = [], sub_read = [], sub_write = []\<rparr>)"

text \<open>\<open>get_or_insert_with_quota\<close>: the bucket of the key, and the map that holds it.\<close>

definition get_or_insert :: "('q \<Rightarrow> 'b) \<Rightarrow> 'b buckets \<Rightarrow> rstr \<Rightarrow> 'q \<Rightarrow> 'b \<times> 'b buckets" where
  "get_or_insert fresh m key quota = (case hm_get m key of
      Some b \<Rightarrow> (b, m)
    | None \<Rightarrow> (fresh quota, hm_insert m key (fresh quota)))"

text \<open>Asking the bucket of a key: the answer and the map with the bucket afterwards.\<close>

definition check_bucket ::
  "('q \<Rightarrow> 'b) \<Rightarrow> (instant \<Rightarrow> 'b \<Rightarrow> bool \<times> 'b) \<Rightarrow> instant \<Rightarrow> 'q \<Rightarrow> rstr \<Rightarrow> 'b buckets
     \<Rightarrow> bool \<times> 'b buckets" where
  "check_bucket fresh tk now quota key m =
     (let (b, m) = get_or_insert fresh m key quota; (allowed, b) = tk now b
      in (allowed, hm_insert m key b))"

text \<open>The two checks in the order of the source: the subject's bucket is not asked when the bearer's denies.\<close>

definition check_both ::
  "('q \<Rightarrow> 'b) \<Rightarrow> (instant \<Rightarrow> 'b \<Rightarrow> bool \<times> 'b) \<Rightarrow> instant \<Rightarrow> 'q \<Rightarrow> rstr \<Rightarrow> rstr option
     \<Rightarrow> 'b buckets \<Rightarrow> 'b buckets \<Rightarrow> bool \<times> 'b buckets \<times> 'b buckets" where
  "check_both fresh tk now quota bearer_hash sub bearers subs =
     (let (allowed, bearers) = check_bucket fresh tk now quota bearer_hash bearers in
      if \<not> allowed then (False, bearers, subs)
      else case sub of
        None \<Rightarrow> (True, bearers, subs)
      | Some s \<Rightarrow>
          (let (allowed, subs) = check_bucket fresh tk now quota s subs
           in (allowed, bearers, subs)))"

definition limiter_check ::
  "(nat \<Rightarrow> 'b) \<Rightarrow> (instant \<Rightarrow> 'b \<Rightarrow> bool \<times> 'b) \<Rightarrow> instant \<Rightarrow> rstr \<Rightarrow> rstr option \<Rightarrow> Category
     \<Rightarrow> 'b Limiter \<Rightarrow> bool \<times> 'b Limiter" where
  "limiter_check fresh tk now bearer_hash sub category l = (case category of
      ReadCall \<Rightarrow>
        (let (ok, bs, ss) = check_both fresh tk now (reads_per_min l) bearer_hash sub
               (bearer_read l) (sub_read l)
         in (ok, l\<lparr>bearer_read := bs, sub_read := ss\<rparr>))
    | WriteCall \<Rightarrow>
        (let (ok, bs, ss) = check_both fresh tk now (writes_per_min l) bearer_hash sub
               (bearer_write l) (sub_write l)
         in (ok, l\<lparr>bearer_write := bs, sub_write := ss\<rparr>)))"

section \<open>Session creation\<close>

definition MAX_INITIALIZES_PER_IDENTITY :: nat where "MAX_INITIALIZES_PER_IDENTITY = 16"
definition INITIALIZE_REFILL_INTERVAL :: nat where "INITIALIZE_REFILL_INTERVAL = 120"

text \<open>A quota of the governor crate: the refill period of one cell and the burst.\<close>

record Quota =
  period :: nat
  burst :: nat

record 'b InitializeLimiter =
  init_quota :: Quota
  init_bearer :: "'b buckets"
  init_sub :: "'b buckets"

text \<open>A burst of 0 counts as 1, a period of 0 as one cell per minute.\<close>

definition new_initialize_limiter :: "nat \<Rightarrow> nat \<Rightarrow> 'b InitializeLimiter" where
  "new_initialize_limiter replenish_1_per bst =
     \<lparr>init_quota = \<lparr>period = (if replenish_1_per = 0 then 60 else replenish_1_per),
        burst = max 1 bst\<rparr>,
      init_bearer = [], init_sub = []\<rparr>"

definition initialize_check ::
  "(Quota \<Rightarrow> 'b) \<Rightarrow> (instant \<Rightarrow> 'b \<Rightarrow> bool \<times> 'b) \<Rightarrow> instant \<Rightarrow> rstr \<Rightarrow> rstr option
     \<Rightarrow> 'b InitializeLimiter \<Rightarrow> bool \<times> 'b InitializeLimiter" where
  "initialize_check fresh tk now bearer_hash sub l =
     (let (ok, bs, ss) = check_both fresh tk now (init_quota l) bearer_hash sub
            (init_bearer l) (init_sub l)
      in (ok, l\<lparr>init_bearer := bs, init_sub := ss\<rparr>))"

section \<open>Both keys bound the calls\<close>

text \<open>The bucket a key has, or would be given.\<close>

definition bucket_at :: "('q \<Rightarrow> 'b) \<Rightarrow> 'q \<Rightarrow> 'b buckets \<Rightarrow> rstr \<Rightarrow> 'b" where
  "bucket_at fresh quota m key = (case hm_get m key of Some b \<Rightarrow> b | None \<Rightarrow> fresh quota)"

lemma check_bucket_eq:
  "check_bucket fresh tk now quota key m =
     (fst (tk now (bucket_at fresh quota m key)), snd (check_bucket fresh tk now quota key m))"
  "bucket_at fresh quota (snd (check_bucket fresh tk now quota key m)) i =
     (if i = key then snd (tk now (bucket_at fresh quota m key)) else bucket_at fresh quota m i)"
  by (auto simp: check_bucket_def get_or_insert_def bucket_at_def hm_simps Let_def
      split: prod.splits option.splits)

lemma check_both_eq:
  "fst (check_both fresh tk now quota bh sub bs ss) \<longleftrightarrow>
     fst (tk now (bucket_at fresh quota bs bh))
     \<and> (case sub of None \<Rightarrow> True | Some s \<Rightarrow> fst (tk now (bucket_at fresh quota ss s)))"
  "bucket_at fresh quota (fst (snd (check_both fresh tk now quota bh sub bs ss))) i =
     (if i = bh then snd (tk now (bucket_at fresh quota bs bh)) else bucket_at fresh quota bs i)"
  "bucket_at fresh quota (snd (snd (check_both fresh tk now quota bh sub bs ss))) i =
     (if fst (tk now (bucket_at fresh quota bs bh)) \<and> sub = Some i
      then snd (tk now (bucket_at fresh quota ss i)) else bucket_at fresh quota ss i)"
proof -
  obtain bs' where b: "check_bucket fresh tk now quota bh bs = (fst (tk now (bucket_at fresh quota bs bh)), bs')"
    "\<And>i. bucket_at fresh quota bs' i =
       (if i = bh then snd (tk now (bucket_at fresh quota bs bh)) else bucket_at fresh quota bs i)"
    by (metis check_bucket_eq)
  have s: "\<exists>ss'. check_bucket fresh tk now quota s ss = (fst (tk now (bucket_at fresh quota ss s)), ss')
      \<and> (\<forall>i. bucket_at fresh quota ss' i =
           (if i = s then snd (tk now (bucket_at fresh quota ss s)) else bucket_at fresh quota ss i))" for s
    by (metis check_bucket_eq)
  let ?r = "check_both fresh tk now quota bh sub bs ss"
  have "(fst ?r \<longleftrightarrow> fst (tk now (bucket_at fresh quota bs bh))
       \<and> (case sub of None \<Rightarrow> True | Some s \<Rightarrow> fst (tk now (bucket_at fresh quota ss s))))
     \<and> fst (snd ?r) = bs'
     \<and> bucket_at fresh quota (snd (snd ?r)) i =
       (if fst (tk now (bucket_at fresh quota bs bh)) \<and> sub = Some i
        then snd (tk now (bucket_at fresh quota ss i)) else bucket_at fresh quota ss i)"
  proof (cases sub)
    case None
    with b(1) show ?thesis by (simp add: check_both_def)
  next
    case (Some k)
    obtain ss' where "check_bucket fresh tk now quota k ss = (fst (tk now (bucket_at fresh quota ss k)), ss')"
      "\<And>i. bucket_at fresh quota ss' i =
         (if i = k then snd (tk now (bucket_at fresh quota ss k)) else bucket_at fresh quota ss i)"
      using s by blast
    with b(1) Some show ?thesis by (auto simp: check_both_def)
  qed
  with b(2) show "fst ?r \<longleftrightarrow> fst (tk now (bucket_at fresh quota bs bh))
       \<and> (case sub of None \<Rightarrow> True | Some s \<Rightarrow> fst (tk now (bucket_at fresh quota ss s)))"
    "bucket_at fresh quota (fst (snd ?r)) i =
       (if i = bh then snd (tk now (bucket_at fresh quota bs bh)) else bucket_at fresh quota bs i)"
    "bucket_at fresh quota (snd (snd ?r)) i =
       (if fst (tk now (bucket_at fresh quota bs bh)) \<and> sub = Some i
        then snd (tk now (bucket_at fresh quota ss i)) else bucket_at fresh quota ss i)"
    by simp_all
qed

text \<open>A run of checks by one subject with any bearers: how many were allowed.\<close>

fun run_checks ::
  "('q \<Rightarrow> 'b) \<Rightarrow> (instant \<Rightarrow> 'b \<Rightarrow> bool \<times> 'b) \<Rightarrow> 'q \<Rightarrow> (instant \<times> rstr \<times> rstr option) list
     \<Rightarrow> 'b buckets \<Rightarrow> 'b buckets \<Rightarrow> bool list" where
  "run_checks fresh tk quota [] bs ss = []"
| "run_checks fresh tk quota ((t, bh, sub) # cs) bs ss =
     (let (ok, bs, ss) = check_both fresh tk t quota bh sub bs ss
      in ok # run_checks fresh tk quota cs bs ss)"

text \<open>The calls a single bucket allows out of the times it is asked at.\<close>

fun bucket_allows :: "(instant \<Rightarrow> 'b \<Rightarrow> bool \<times> 'b) \<Rightarrow> 'b \<Rightarrow> instant list \<Rightarrow> instant list" where
  "bucket_allows tk b [] = []"
| "bucket_allows tk b (t # ts) =
     (if fst (tk t b) then [t] else []) @ bucket_allows tk (snd (tk t b)) ts"

definition allowed_calls ::
  "(rstr \<times> rstr option \<Rightarrow> bool) \<Rightarrow> (instant \<times> rstr \<times> rstr option) list \<Rightarrow> bool list \<Rightarrow> instant list" where
  "allowed_calls who cs oks = map (\<lambda>((t, _), _). t) (filter (\<lambda>((_, c), ok). who c \<and> ok) (zip cs oks))"

lemma allowed_calls_simps [simp]:
  "allowed_calls who [] oks = []"
  "allowed_calls who ((t, c) # cs) (ok # oks) =
     (if who c \<and> ok then [t] else []) @ allowed_calls who cs oks"
  by (simp_all add: allowed_calls_def)

lemma subject_calls_from_one_bucket:
  "\<exists>ts. subseq ts (map fst cs) \<and>
     allowed_calls (\<lambda>(_, sub). sub = Some s) cs (run_checks fresh tk quota cs bs ss)
       = bucket_allows tk (bucket_at fresh quota ss s) ts"
proof (induction cs arbitrary: bs ss)
  case Nil
  show ?case by (intro exI [of _ "[]"]) simp
next
  case (Cons c cs)
  obtain t bh sub where c: "c = (t, bh, sub)" by (cases c)
  obtain ok bs' ss' where r: "check_both fresh tk t quota bh sub bs ss = (ok, bs', ss')"
    by (metis prod_cases3)
  from Cons [of bs' ss'] obtain ts where ts: "subseq ts (map fst cs)"
    "allowed_calls (\<lambda>(_, sub). sub = Some s) cs (run_checks fresh tk quota cs bs' ss')
       = bucket_allows tk (bucket_at fresh quota ss' s) ts" by blast
  note eq = check_both_eq [where fresh = fresh and tk = tk and now = t and quota = quota and bh = bh
      and sub = sub and bs = bs and ss = ss, unfolded r fst_conv snd_conv]
  show ?case
  proof (cases "fst (tk t (bucket_at fresh quota bs bh)) \<and> sub = Some s")
    case True
    with eq have "ok \<longleftrightarrow> fst (tk t (bucket_at fresh quota ss s))"
      "bucket_at fresh quota ss' s = snd (tk t (bucket_at fresh quota ss s))" by auto
    with ts True c r show ?thesis by (intro exI [of _ "t # ts"]) simp
  next
    case False
    with eq have "bucket_at fresh quota ss' s = bucket_at fresh quota ss s" "\<not> (sub = Some s \<and> ok)"
      by auto
    with ts c r show ?thesis by (intro exI [of _ ts]) auto
  qed
qed

lemma bearer_calls_from_one_bucket:
  "\<exists>ts. subseq ts (map fst cs) \<and>
     subseq (allowed_calls (\<lambda>(b, _). b = h) cs (run_checks fresh tk quota cs bs ss))
       (bucket_allows tk (bucket_at fresh quota bs h) ts)"
proof (induction cs arbitrary: bs ss)
  case Nil
  show ?case by (intro exI [of _ "[]"]) simp
next
  case (Cons c cs)
  obtain t bh sub where c: "c = (t, bh, sub)" by (cases c)
  obtain ok bs' ss' where r: "check_both fresh tk t quota bh sub bs ss = (ok, bs', ss')"
    by (metis prod_cases3)
  from Cons [of bs' ss'] obtain ts where ts: "subseq ts (map fst cs)"
    "subseq (allowed_calls (\<lambda>(b, _). b = h) cs (run_checks fresh tk quota cs bs' ss'))
       (bucket_allows tk (bucket_at fresh quota bs' h) ts)" by blast
  note eq = check_both_eq [where fresh = fresh and tk = tk and now = t and quota = quota and bh = bh
      and sub = sub and bs = bs and ss = ss, unfolded r fst_conv snd_conv]
  show ?case
  proof (cases "bh = h")
    case True
    with eq have "ok \<Longrightarrow> fst (tk t (bucket_at fresh quota bs h))"
      "bucket_at fresh quota bs' h = snd (tk t (bucket_at fresh quota bs h))" by auto
    with ts True c r show ?thesis by (intro exI [of _ "t # ts"]) auto
  next
    case False
    with eq have "bucket_at fresh quota bs' h = bucket_at fresh quota bs h" by auto
    with ts False c r show ?thesis by (intro exI [of _ ts]) auto
  qed
qed

text \<open>A subject gets no more calls than one bucket grants, however many bearers it spreads them
  over, and a bearer no more than one bucket grants, whatever subjects it claims: any bound the
  bucket keeps on the calls of a period is kept for the subject and for the bearer.\<close>

theorem limiter_bounds_subject_and_bearer:
  assumes "\<And>ts. set ts \<subseteq> W \<Longrightarrow> length (bucket_allows tk (fresh quota) ts) \<le> N"
    and "fst ` set cs \<subseteq> W"
  shows "length (allowed_calls (\<lambda>(_, sub). sub = Some s) cs (run_checks fresh tk quota cs [] [])) \<le> N
    \<and> length (allowed_calls (\<lambda>(b, _). b = h) cs (run_checks fresh tk quota cs [] [])) \<le> N"
proof
  have e: "bucket_at fresh quota [] k = fresh quota" for k by (simp add: bucket_at_def)
  have sub: "set ts \<subseteq> W" if "subseq ts (map fst cs)" for ts
  proof
    fix t assume "t \<in> set ts"
    with that obtain y where "y \<in> set (map fst cs)" "t = y" by (rule list_emb_set)
    with assms(2) show "t \<in> W" by auto
  qed
  from subject_calls_from_one_bucket [of cs s fresh tk quota "[]" "[]"] e sub assms(1)
  show "length (allowed_calls (\<lambda>(_, sub). sub = Some s) cs (run_checks fresh tk quota cs [] [])) \<le> N"
    by (metis (no_types, lifting))
  from bearer_calls_from_one_bucket [of cs h fresh tk quota "[]" "[]"] e sub assms(1)
  show "length (allowed_calls (\<lambda>(b, _). b = h) cs (run_checks fresh tk quota cs [] [])) \<le> N"
    by (metis (no_types, lifting) list_emb_length order.trans)
qed

text \<open>A bucket that grants its quota once, as an instance of the bucket's contract.\<close>

definition take_once :: "instant \<Rightarrow> nat \<Rightarrow> bool \<times> nat" where
  "take_once t b = (0 < b, b - 1)"

lemma take_once_allows: "length (bucket_allows take_once b ts) \<le> b"
proof (induction ts arbitrary: b)
  case (Cons t ts)
  from Cons [of "b - 1"] show ?case by (cases b) (simp_all add: take_once_def Cons [of 0, simplified])
qed simp

theorem limiter_bounds_subject_and_bearer_witness:
  "length (allowed_calls (\<lambda>(_, sub). sub = Some ''u'')
     [(1, ''a'', Some ''u''), (2, ''b'', Some ''u''), (3, ''c'', Some ''u'')]
     (run_checks (\<lambda>q. q) take_once 2
       [(1, ''a'', Some ''u''), (2, ''b'', Some ''u''), (3, ''c'', Some ''u'')] [] [])) \<le> 2"
  using limiter_bounds_subject_and_bearer [where W = UNIV and tk = take_once and fresh = "\<lambda>q. q"
      and quota = 2 and N = 2 and s = "''u''" and h = "''a''"
      and cs = "[(1, ''a'', Some ''u''), (2, ''b'', Some ''u''), (3, ''c'', Some ''u'')]",
      OF take_once_allows subset_UNIV]
  by (rule conjunct1)

end
