(* ===== verification/KeyBackupGate.thy ===== *)
theory KeyBackupGate
  imports HashMap
begin

text \<open>
  \<open>src/key_backup_gate.rs\<close>: the process-wide limiter of key-backup pulls, its
  permits and its per-caller cooldown. A permit is held from \<open>try_acquire\<close> until it is
  dropped; the step relation interleaves acquisitions, successes and drops of any callers.
\<close>

definition MAX_CONCURRENT :: nat where "MAX_CONCURRENT = 4"
definition COOLDOWN :: nat where "COOLDOWN = 5 * 60"
definition PER_PULL_TIMEOUT :: nat where "PER_PULL_TIMEOUT = 30"

type_synonym cooldown_key = "rstr \<times> rstr"

record KeyBackupGate =
  available :: nat
  last_pull :: "(cooldown_key, instant) hmap"

definition new_gate :: KeyBackupGate where
  "new_gate = \<lparr>available = MAX_CONCURRENT, last_pull = []\<rparr>"

text \<open>\<open>GateBusy\<close> is the error, \<open>Cooling\<close> the silent skip.\<close>

datatype Acquired = Permit cooldown_key | Cooling | GateBusy

definition in_cooldown :: "instant \<Rightarrow> KeyBackupGate \<Rightarrow> cooldown_key \<Rightarrow> bool" where
  "in_cooldown now g k = (case hm_get (last_pull g) k of None \<Rightarrow> False
     | Some t \<Rightarrow> now - t < COOLDOWN)"

definition try_acquire :: "instant \<Rightarrow> rstr \<Rightarrow> rstr \<Rightarrow> KeyBackupGate \<Rightarrow> Acquired \<times> KeyBackupGate" where
  "try_acquire now caller room_id g =
     (if in_cooldown now g (caller, room_id) then (Cooling, g)
      else if available g = 0 then (GateBusy, g)
      else (Permit (caller, room_id), g\<lparr>available := available g - 1\<rparr>))"

definition record_success :: "instant \<Rightarrow> cooldown_key \<Rightarrow> KeyBackupGate \<Rightarrow> KeyBackupGate" where
  "record_success now k g = g\<lparr>last_pull := hm_insert (last_pull g) k now\<rparr>"

definition drop_permit :: "KeyBackupGate \<Rightarrow> KeyBackupGate" where
  "drop_permit g = g\<lparr>available := available g + 1\<rparr>"

section \<open>The gate under concurrency\<close>

record GateState =
  gate :: KeyBackupGate
  gate_clock :: instant
  held :: "cooldown_key list"
  successes :: "(cooldown_key \<times> instant) list"

inductive gate_step :: "GateState \<Rightarrow> GateState \<Rightarrow> bool" where
  gate_tick: "gate_step s (s\<lparr>gate_clock := gate_clock s + d\<rparr>)"
| gate_acquire: "try_acquire (gate_clock s) caller room (gate s) = (Permit k, g)
    \<Longrightarrow> gate_step s (s\<lparr>gate := g, held := k # held s\<rparr>)"
| gate_success: "k \<in> set (held s)
    \<Longrightarrow> gate_step s (s\<lparr>gate := record_success (gate_clock s) k (gate s),
          successes := (k, gate_clock s) # successes s\<rparr>)"
| gate_drop: "k \<in> set (held s)
    \<Longrightarrow> gate_step s (s\<lparr>gate := drop_permit (gate s), held := remove1 k (held s)\<rparr>)"

inductive gate_reachable :: "GateState \<Rightarrow> bool" where
  gate_init: "gate_reachable \<lparr>gate = new_gate, gate_clock = t, held = [], successes = []\<rparr>"
| gate_next: "gate_reachable s \<Longrightarrow> gate_step s s' \<Longrightarrow> gate_reachable s'"

text \<open>
  Permits held and available add up; the cooldown map holds exactly the time of the last success of
  each caller and room, and no success lies in the future.
\<close>

definition gate_inv :: "GateState \<Rightarrow> bool" where
  "gate_inv s \<longleftrightarrow> available (gate s) + length (held s) = MAX_CONCURRENT
     \<and> (\<forall>k. hm_get (last_pull (gate s)) k = map_of (successes s) k)
     \<and> (\<forall>(k, t)\<in>set (successes s). t \<le> gate_clock s)"

lemma gate_inv_step: "gate_step s s' \<Longrightarrow> gate_inv s \<Longrightarrow> gate_inv s'"
proof (induction rule: gate_step.induct)
  case (gate_drop k s)
  have "0 < length (held s)" using gate_drop(1) by (rule length_pos_if_in_set)
  moreover have "length (remove1 k (held s)) = length (held s) - 1"
    using gate_drop(1) by (simp add: length_remove1)
  ultimately have "Suc (length (remove1 k (held s))) = length (held s)" by arith
  with gate_drop show ?case
    by (auto simp: gate_inv_def drop_permit_def)
next
  case (gate_tick s d)
  then show ?case by (auto simp: gate_inv_def)
next
  case (gate_acquire s caller room k g)
  then show ?case by (auto simp: gate_inv_def try_acquire_def split: if_splits)
next
  case (gate_success k s)
  then show ?case by (auto simp: gate_inv_def record_success_def hm_simps)
qed

lemma gate_reachable_inv: "gate_reachable s \<Longrightarrow> gate_inv s"
proof (induction rule: gate_reachable.induct)
  case (gate_init t)
  then show ?case by (simp add: gate_inv_def new_gate_def)
qed (rule gate_inv_step)



end
