(* ===== verification/SessionStore.thy ===== *)
theory SessionStore
  imports HashMap
begin

text \<open>
  \<open>src/session_store.rs\<close>: the durable session files. The directory is a map from file
  names to a modification time, when it can be read, and a content. Which file operations succeed
  is an argument of every operation, as are the digest of a session id and the encoding of a state.
\<close>

definition SESSION_STATE_TTL :: nat where "SESSION_STATE_TTL = 7 * 24 * 60 * 60"
definition MAX_PERSISTED_SESSIONS :: nat where "MAX_PERSISTED_SESSIONS = 4096"
definition SWEEP_EVERY_N_WRITES :: nat where "SWEEP_EVERY_N_WRITES = 64"

text \<open>\<open>{digest}.json\<close> and \<open>{digest}.json.tmp\<close>.\<close>

datatype 'h file_name = StateFile 'h | TmpFile 'h

record file_entry =
  mtime :: "instant option"
  content :: rstr

record 'h FileSessionStore =
  store_dir :: "('h file_name, file_entry) hmap"
  store_ttl :: nat
  max_entries :: nat
  writes :: nat

datatype StoreError = IoError | CapReached

text \<open>
  What the file system does during one operation: a write of the temporary file can fail before
  the file exists or leave a torn one behind.
\<close>

datatype write_outcome = Written | Torn rstr | NotCreated

record 'h filesystem =
  listable :: bool
  readable :: "'h file_name \<Rightarrow> bool"
  removable :: "'h file_name \<Rightarrow> bool"
  tmp_write :: write_outcome
  renamable :: bool

definition new_store :: "'h FileSessionStore" where
  "new_store = \<lparr>store_dir = [], store_ttl = SESSION_STATE_TTL,
     max_entries = MAX_PERSISTED_SESSIONS, writes = 0\<rparr>"

definition path_for :: "(rstr \<Rightarrow> 'h) \<Rightarrow> rstr \<Rightarrow> 'h file_name" where
  "path_for digest session_id = StateFile (digest session_id)"

text \<open>A time that cannot be read, or lies in the future, counts as fresh.\<close>

definition is_expired :: "instant \<Rightarrow> 'h FileSessionStore \<Rightarrow> file_entry \<Rightarrow> bool" where
  "is_expired now st f =
     (case mtime f of None \<Rightarrow> False | Some t \<Rightarrow> t \<le> now \<and> store_ttl st < now - t)"

definition remove_file ::
  "'h filesystem \<Rightarrow> 'h file_name \<Rightarrow> 'h FileSessionStore \<Rightarrow> 'h FileSessionStore" where
  "remove_file fs path st =
     (if removable fs path then st\<lparr>store_dir := hm_remove (store_dir st) path\<rparr> else st)"

definition sweep ::
  "'h filesystem \<Rightarrow> instant \<Rightarrow> 'h FileSessionStore \<Rightarrow> nat \<times> 'h FileSessionStore" where
  "sweep fs now st =
     (if \<not> listable fs then (0, st)
      else
        (let live = hm_retain (\<lambda>p f. \<not> (is_expired now st f \<and> removable fs p)) (store_dir st)
         in (length live, st\<lparr>store_dir := live\<rparr>)))"

definition load ::
  "(rstr \<Rightarrow> 'h) \<Rightarrow> (rstr \<Rightarrow> 's option) \<Rightarrow> 'h filesystem \<Rightarrow> instant \<Rightarrow> rstr
     \<Rightarrow> 'h FileSessionStore \<Rightarrow> (StoreError + 's option) \<times> 'h FileSessionStore" where
  "load digest decode fs now session_id st =
     (let path = path_for digest session_id in
      case hm_get (store_dir st) path of
        None \<Rightarrow> (Inr None, st)
      | Some f \<Rightarrow>
          if \<not> readable fs path then (Inl IoError, st)
          else if is_expired now st f then (Inr None, remove_file fs path st)
          else (case decode (content f) of
            Some s \<Rightarrow> (Inr (Some s), st)
          | None \<Rightarrow> (Inr None, remove_file fs path st)))"

text \<open>Write the temporary file, then rename it over the state file.\<close>

definition write_state ::
  "(rstr \<Rightarrow> 'h) \<Rightarrow> 'h filesystem \<Rightarrow> instant \<Rightarrow> rstr \<Rightarrow> rstr
     \<Rightarrow> 'h FileSessionStore \<Rightarrow> (StoreError + unit) \<times> 'h FileSessionStore" where
  "write_state digest fs now session_id body st =
     (let tmp = TmpFile (digest session_id); path = path_for digest session_id;
          f = \<lparr>mtime = Some now, content = body\<rparr>
      in case tmp_write fs of
        NotCreated \<Rightarrow> (Inl IoError, st)
      | Torn b \<Rightarrow> (Inl IoError, st\<lparr>store_dir := hm_insert (store_dir st) tmp (f\<lparr>content := b\<rparr>)\<rparr>)
      | Written \<Rightarrow>
          if renamable fs
          then (Inr (), st\<lparr>store_dir := hm_insert (hm_remove (store_dir st) tmp) path f\<rparr>)
          else (Inl IoError, st\<lparr>store_dir := hm_insert (store_dir st) tmp f\<rparr>))"

definition store ::
  "(rstr \<Rightarrow> 'h) \<Rightarrow> ('s \<Rightarrow> rstr) \<Rightarrow> 'h filesystem \<Rightarrow> instant \<Rightarrow> rstr \<Rightarrow> 's
     \<Rightarrow> 'h FileSessionStore \<Rightarrow> (StoreError + unit) \<times> 'h FileSessionStore" where
  "store digest encode fs now session_id s st =
     (let is_new = \<not> hm_contains (store_dir st) (path_for digest session_id);
          due = (writes st mod SWEEP_EVERY_N_WRITES = 0);
          st = st\<lparr>writes := writes st + 1\<rparr>;
          (live, st) = (if due \<or> is_new then sweep fs now st else (0, st))
      in if (due \<or> is_new) \<and> is_new \<and> max_entries st \<le> live then (Inl CapReached, st)
         else write_state digest fs now session_id (encode s) st)"

definition delete_session ::
  "(rstr \<Rightarrow> 'h) \<Rightarrow> 'h filesystem \<Rightarrow> rstr
     \<Rightarrow> 'h FileSessionStore \<Rightarrow> (StoreError + unit) \<times> 'h FileSessionStore" where
  "delete_session digest fs session_id st =
     (let path = path_for digest session_id in
      if \<not> hm_contains (store_dir st) path then (Inr (), st)
      else if removable fs path then (Inr (), remove_file fs path st)
      else (Inl IoError, st))"

section \<open>Facts\<close>

lemma sweep_facts:
  "hm_ok (store_dir st) \<Longrightarrow> hm_ok (store_dir (snd (sweep fs now st)))"
  "listable fs \<Longrightarrow> fst (sweep fs now st) = length (store_dir (snd (sweep fs now st)))"
  "store_ttl (snd (sweep fs now st)) = store_ttl st"
  "max_entries (snd (sweep fs now st)) = max_entries st"
  "length (store_dir (snd (sweep fs now st))) \<le> length (store_dir st)"
  by (auto simp: sweep_def Let_def hm_simps)

lemma sweep_get:
  "hm_ok (store_dir st) \<Longrightarrow> hm_get (store_dir (snd (sweep fs now st))) p = Some f
    \<Longrightarrow> hm_get (store_dir st) p = Some f"
  by (auto simp: sweep_def Let_def hm_simps split: option.splits if_splits)

lemma sweep_keeps:
  "hm_ok (store_dir st) \<Longrightarrow> hm_get (store_dir st) p = Some f \<Longrightarrow> \<not> is_expired now st f
    \<Longrightarrow> hm_get (store_dir (snd (sweep fs now st))) p = Some f"
  by (simp add: sweep_def Let_def hm_get_retain)

lemma sweep_lost:
  assumes "hm_contains (store_dir st) p" and "\<not> hm_contains (store_dir (snd (sweep fs now st))) p"
  shows "length (store_dir (snd (sweep fs now st))) < length (store_dir st)"
proof -
  from assms obtain f where "(p, f) \<in> set (store_dir st)"
    and "(p, f) \<notin> set (store_dir (snd (sweep fs now st)))"
    by (force simp: hm_contains_iff)
  then show ?thesis
    by (auto simp: sweep_def Let_def hm_retain_def split: if_splits intro!: length_filter_less)
qed

text \<open>The part of \<open>store\<close> before the write.\<close>

definition before_write ::
  "(rstr \<Rightarrow> 'h) \<Rightarrow> 'h filesystem \<Rightarrow> instant \<Rightarrow> rstr \<Rightarrow> 'h FileSessionStore \<Rightarrow> 'h FileSessionStore" where
  "before_write digest fs now session_id st =
     (let st' = st\<lparr>writes := writes st + 1\<rparr> in
      if writes st mod SWEEP_EVERY_N_WRITES = 0 \<or> \<not> hm_contains (store_dir st) (path_for digest session_id)
      then snd (sweep fs now st') else st')"

lemma before_write_facts:
  "hm_ok (store_dir st) \<Longrightarrow> hm_ok (store_dir (before_write digest fs now i st))"
  "store_ttl (before_write digest fs now i st) = store_ttl st"
  "max_entries (before_write digest fs now i st) = max_entries st"
  "length (store_dir (before_write digest fs now i st)) \<le> length (store_dir st)"
  by (auto simp: before_write_def Let_def sweep_facts intro: order.trans [OF sweep_facts(5)])

lemma before_write_get:
  "hm_ok (store_dir st) \<Longrightarrow> hm_get (store_dir (before_write digest fs now i st)) p = Some f
    \<Longrightarrow> hm_get (store_dir st) p = Some f"
  using sweep_get [of "st\<lparr>writes := Suc (writes st)\<rparr>" fs now p f]
  by (auto simp: before_write_def Let_def split: if_splits)

lemma before_write_lost:
  "hm_contains (store_dir st) p \<Longrightarrow> \<not> hm_contains (store_dir (before_write digest fs now i st)) p
    \<Longrightarrow> length (store_dir (before_write digest fs now i st)) < length (store_dir st)"
  using sweep_lost [of "st\<lparr>writes := Suc (writes st)\<rparr>" p fs now]
  by (auto simp: before_write_def Let_def split: if_splits)

lemma store_eq:
  "store digest encode fs now i s st =
     (if \<not> hm_contains (store_dir st) (path_for digest i) \<and> listable fs
         \<and> max_entries st \<le> length (store_dir (before_write digest fs now i st))
       \<or> \<not> hm_contains (store_dir st) (path_for digest i) \<and> \<not> listable fs \<and> max_entries st = 0
      then (Inl CapReached, before_write digest fs now i st)
      else write_state digest fs now i (encode s) (before_write digest fs now i st))"
  by (auto simp: store_def before_write_def Let_def sweep_facts case_prod_unfold sweep_def)

lemma store_ok:
  assumes "fst (store digest encode fs now i s st) = Inr ()"
  shows "store digest encode fs now i s st = (Inr (), (before_write digest fs now i st)\<lparr>store_dir :=
      hm_insert (hm_remove (store_dir (before_write digest fs now i st)) (TmpFile (digest i)))
        (path_for digest i) \<lparr>mtime = Some now, content = encode s\<rparr>\<rparr>)"
  using assms
  by (auto simp: store_eq write_state_def Let_def split: if_splits write_outcome.splits)

text \<open>A store that fails leaves the prepared directory, but for its temporary file.\<close>

lemma store_fails:
  assumes "fst (store digest encode fs now i s st) \<noteq> Inr ()"
  obtains "store digest encode fs now i s st = (Inl CapReached, before_write digest fs now i st)"
      "\<not> hm_contains (store_dir st) (path_for digest i)"
  | "store digest encode fs now i s st = (Inl IoError, before_write digest fs now i st)"
  | f where "store digest encode fs now i s st = (Inl IoError, (before_write digest fs now i st)\<lparr>store_dir :=
      hm_insert (store_dir (before_write digest fs now i st)) (TmpFile (digest i)) f\<rparr>)"
  using assms
  by (auto simp: store_eq write_state_def Let_def split: if_splits write_outcome.splits)

section \<open>What a session can rely on\<close>


lemmas store_run_simps = store_def write_state_def sweep_def new_store_def path_for_def is_expired_def
  hm_contains_def hm_insert_def hm_remove_def hm_retain_def Let_def

definition good_fs :: "rstr filesystem" where
  "good_fs = \<lparr>listable = True, readable = (\<lambda>_. True), removable = (\<lambda>_. True), tmp_write = Written,
     renamable = True\<rparr>"


text \<open>A successful store never takes the directory over its cap, and a new session that the cap
  refuses is the only effect of reaching it: no live state is dropped to make room.\<close>

theorem store_keeps_cap:
  assumes "hm_ok (store_dir st)" and "length (store_dir st) \<le> max_entries st" and "listable fs"
  shows "case store digest encode fs now i s st of
      (Inr _, st') \<Rightarrow> length (store_dir st') \<le> max_entries st'
    | (Inl CapReached, st') \<Rightarrow> \<not> hm_contains (store_dir st) (path_for digest i)
        \<and> (\<forall>p f. hm_get (store_dir st) p = Some f \<and> \<not> is_expired now st f
              \<longrightarrow> hm_get (store_dir st') p = Some f)
    | (Inl IoError, st') \<Rightarrow> length (store_dir st') \<le> max_entries st' + 1"
proof (cases "fst (store digest encode fs now i s st) = Inr ()")
  case True
  let ?b = "before_write digest fs now i st" and ?p = "path_for digest i"
  let ?m = "hm_remove (store_dir ?b) (TmpFile (digest i))"
  have le: "length ?m \<le> length (store_dir ?b)" by (rule hm_len_remove_le)
  have "length (hm_insert ?m ?p f) \<le> max_entries st" for f
  proof (cases "hm_get (store_dir ?b) ?p = None")
    case gone: True
    then have "length (store_dir ?b) < max_entries st"
    proof (cases "hm_contains (store_dir st) ?p")
      case True
      with before_write_lost [OF True, of digest fs now i] gone assms(2) show ?thesis
        by (simp add: hm_contains_def)
    next
      case False
      with True assms(3) show ?thesis by (auto simp: store_eq split: if_splits)
    qed
    with le show ?thesis by (simp add: hm_len_insert)
  next
    case False
    have "length ?m \<le> max_entries st"
      using le before_write_facts(4) [of digest fs now i st] assms(2) by (meson order.trans)
    moreover from False obtain y where "hm_get (store_dir ?b) ?p = Some y" by auto
    ultimately show ?thesis
      by (simp add: hm_len_insert hm_get_remove path_for_def)
  qed
  with True show ?thesis by (simp add: store_ok [OF True] before_write_facts)
next
  case False
  let ?b = "before_write digest fs now i st"
  from assms(2) before_write_facts(4) [of digest fs now i st]
  have "length (hm_insert (store_dir ?b) k f) \<le> Suc (max_entries st)" for k f
    by (simp add: hm_len_insert)
  moreover have "hm_get (store_dir ?b) p = Some f"
    if "hm_get (store_dir st) p = Some f" "\<not> is_expired now st f" for p f
    using that assms(1) sweep_keeps [of "st\<lparr>writes := Suc (writes st)\<rparr>" p f now fs]
    by (auto simp: before_write_def Let_def is_expired_def cong: option.case_cong)
  moreover have "length (store_dir ?b) \<le> Suc (max_entries st)"
    using assms(2) before_write_facts(4) [of digest fs now i st] by simp
  ultimately show ?thesis
    by (cases rule: store_fails [OF False]) (simp_all add: before_write_facts)
qed

theorem store_keeps_cap_witness:
  "length (store_dir (snd (store (\<lambda>i. i) (\<lambda>s. s) good_fs 5 ''s1'' ''state'' new_store))) \<le> 4096"
proof -
  have "fst (store (\<lambda>i. i) (\<lambda>s. s) good_fs 5 ''s1'' ''state'' new_store) = Inr ()"
    "max_entries (snd (store (\<lambda>i. i) (\<lambda>s. s) good_fs 5 ''s1'' ''state'' new_store)) = 4096"
    by (simp_all add: store_run_simps good_fs_def MAX_PERSISTED_SESSIONS_def SWEEP_EVERY_N_WRITES_def)
  with store_keeps_cap [where st = new_store and encode = "\<lambda>s. s" and digest = "\<lambda>i. i"
      and i = "''s1''" and now = 5 and fs = good_fs and s = "''state''"]
  show ?thesis
    by (simp add: new_store_def good_fs_def case_prod_unfold)
qed

end
