(* ===== verification/SessionCap.thy ===== *)
theory SessionCap
  imports Prelude
begin

text \<open>
  \<open>src/session.rs\<close>: the cap on sessions held in memory. Creation and restoration share
  a gate; the count and the insertion are two steps, between which sessions may end but, by the gate,
  none begins. What the inner manager of the transport answers is part of each step.
\<close>

definition MAX_SESSIONS :: nat where "MAX_SESSIONS = 256"
definition SESSION_KEEP_ALIVE :: nat where "SESSION_KEEP_ALIVE = 30 * 60"

text \<open>The request that holds the gate, and whether it has counted; the sessions of the inner manager.\<close>

record 'r CappedSessionManager =
  gate :: "('r \<times> bool) option"
  live_sessions :: "rstr list"

datatype 'e CappedSessionError = Inner 'e | CapReached

text \<open>What \<open>create_session\<close> and \<open>restore_session\<close> do under the gate: the check, and then the
  inner call, which fails, adds the session, or (a restoration) finds it there.\<close>

definition check_cap :: "'r CappedSessionManager \<Rightarrow> bool" where
  "check_cap m = (length (live_sessions m) < MAX_SESSIONS)"

datatype 'e inner_answer = InnerFailed 'e | Added rstr | AlreadyThere rstr

definition inner_call :: "'e inner_answer \<Rightarrow> 'r CappedSessionManager \<Rightarrow> ('e CappedSessionError + rstr) \<times> 'r CappedSessionManager" where
  "inner_call answer m = (case answer of
      InnerFailed e \<Rightarrow> (Inl (Inner e), m)
    | Added sid \<Rightarrow> (Inr sid, m\<lparr>live_sessions := sid # live_sessions m\<rparr>)
    | AlreadyThere sid \<Rightarrow> (Inr sid, m))"

text \<open>One request that no other one interrupts.\<close>

definition create_session :: "'e inner_answer \<Rightarrow> 'r CappedSessionManager \<Rightarrow> ('e CappedSessionError + rstr) \<times> 'r CappedSessionManager" where
  "create_session answer m = (if \<not> check_cap m then (Inl CapReached, m) else inner_call answer m)"

section \<open>Any interleaving\<close>

datatype ('r, 'e) gate_log = Refused 'r | Answered 'r "'e CappedSessionError + rstr"

inductive cap_step :: "'r CappedSessionManager \<Rightarrow> ('r, 'e) gate_log list \<Rightarrow> 'r CappedSessionManager \<Rightarrow> bool" where
  cap_lock: "gate m = None \<Longrightarrow> cap_step m [] (m\<lparr>gate := Some (r, False)\<rparr>)"
| cap_count: "gate m = Some (r, False) \<Longrightarrow> check_cap m \<Longrightarrow> cap_step m [] (m\<lparr>gate := Some (r, True)\<rparr>)"
| cap_refuse: "gate m = Some (r, False) \<Longrightarrow> \<not> check_cap m \<Longrightarrow> cap_step m [Refused r] (m\<lparr>gate := None\<rparr>)"
| cap_inner: "gate m = Some (r, True) \<Longrightarrow> inner_call answer m = (res, m') \<Longrightarrow>
    cap_step m [Answered r res] (m'\<lparr>gate := None\<rparr>)"
| cap_end: "cap_step m [] (m\<lparr>live_sessions := filter P (live_sessions m)\<rparr>)"

inductive cap_run :: "'r CappedSessionManager \<Rightarrow> ('r, 'e) gate_log list \<Rightarrow> bool" where
  cap_start: "cap_run \<lparr>gate = None, live_sessions = []\<rparr> []"
| cap_next: "cap_run m log \<Longrightarrow> cap_step m new m' \<Longrightarrow> cap_run m' (log @ new)"

definition cap_inv :: "'r CappedSessionManager \<Rightarrow> bool" where
  "cap_inv m \<longleftrightarrow> length (live_sessions m) \<le> MAX_SESSIONS
     \<and> (case gate m of Some (r, True) \<Rightarrow> check_cap m | _ \<Rightarrow> True)"

lemma cap_inv_step: "cap_step m new m' \<Longrightarrow> cap_inv m \<Longrightarrow> cap_inv m'"
proof (induction rule: cap_step.induct)
  case (cap_end m P)
  then show ?case
    by (auto simp: cap_inv_def check_cap_def split: option.splits prod.splits bool.splits
        intro: order.trans [OF length_filter_le] le_less_trans [OF length_filter_le])
next
  case (cap_inner m r answer res m')
  then show ?case
    by (cases answer) (auto simp: cap_inv_def check_cap_def inner_call_def)
qed (auto simp: cap_inv_def check_cap_def split: option.splits)

lemma cap_run_inv: "cap_run m log \<Longrightarrow> cap_inv m"
proof (induction rule: cap_run.induct)
  case cap_start
  show ?case by (simp add: cap_inv_def)
next
  case (cap_next m log new m')
  from cap_next(2,3) show ?case by (rule cap_inv_step)
qed



end
