(* ===== verification/DeviceIdentity.thy ===== *)
theory DeviceIdentity
  imports Utf8
begin

text \<open>
  \<open>src/device_identity.rs\<close>: the Matrix device id kept in a file of the store volume. The
  directory is the id file and the temporary file beside it, each absent or with a content; which
  file operations succeed, and how much of a failing write is left, is an argument of each call.
\<close>

definition MAX_DEVICE_ID_LEN :: nat where "MAX_DEVICE_ID_LEN = 64"
definition RANDOM_ALPHABET :: rstr where "RANDOM_ALPHABET = ''ABCDEFGHJKLMNPQRSTUVWXYZ23456789''"
definition RANDOM_SUFFIX_LEN :: nat where "RANDOM_SUFFIX_LEN = 8"

record DeviceDir =
  id_file :: "rstr option"
  tmp_file :: "rstr option"

text \<open>\<open>df_visible\<close>: the check that the file exists can see it.\<close>

record DeviceFs =
  df_create_dir :: bool
  df_visible :: bool
  df_readable :: bool
  df_write :: bool
  df_written :: nat
  df_rename :: bool

datatype DeviceIdError = StoreRootFailed | IdReadFailed | InvalidIdFile | InvalidBootstrap | PersistFailed

definition ascii_alphanumeric :: "char \<Rightarrow> bool" where
  "ascii_alphanumeric c \<longleftrightarrow>
     c \<in> set ''ABCDEFGHIJKLMNOPQRSTUVWXYZabcdefghijklmnopqrstuvwxyz0123456789''"

definition device_char :: "char \<Rightarrow> bool" where
  "device_char c \<longleftrightarrow> ascii_alphanumeric c \<or> c = CHR ''-'' \<or> c = CHR ''_''"

definition validate_device_id :: "rstr \<Rightarrow> bool" where
  "validate_device_id s \<longleftrightarrow> s \<noteq> [] \<and> length s \<le> MAX_DEVICE_ID_LEN \<and> list_all device_char s"

text \<open>The \<open>k\<close>-th draw of the generator, reduced to the alphabet.\<close>

definition generate_random_id :: "(nat \<Rightarrow> nat) \<Rightarrow> rstr" where
  "generate_random_id rng = ''MATRIXMCP-''
     @ map (\<lambda>k. RANDOM_ALPHABET ! (rng k mod length RANDOM_ALPHABET)) [0..<RANDOM_SUFFIX_LEN]"

definition persist_atomic :: "DeviceFs \<Rightarrow> rstr \<Rightarrow> DeviceDir \<Rightarrow> bool \<times> DeviceDir" where
  "persist_atomic fs content dir =
     (if \<not> df_write fs then (False, dir\<lparr>tmp_file := Some (take (df_written fs) content)\<rparr>)
      else let dir = dir\<lparr>tmp_file := Some content\<rparr>
        in if \<not> df_rename fs then (False, dir)
           else (True, \<lparr>id_file = tmp_file dir, tmp_file = None\<rparr>))"

definition resolve_device_id ::
  "DeviceFs \<Rightarrow> (nat \<Rightarrow> nat) \<Rightarrow> rstr option \<Rightarrow> DeviceDir \<Rightarrow> (DeviceIdError + rstr) \<times> DeviceDir" where
  "resolve_device_id fs rng bootstrap_override dir =
     (if \<not> df_create_dir fs then (Inl StoreRootFailed, dir)
      else case (if df_visible fs then id_file dir else None) of
        Some raw \<Rightarrow>
          (if \<not> df_readable fs \<or> \<not> utf8_valid raw then (Inl IdReadFailed, dir)
           else if validate_device_id (trim raw) then (Inr (trim raw), dir)
           else (Inl InvalidIdFile, dir))
      | None \<Rightarrow>
          (let new_id = (case map_option trim bootstrap_override of
                 Some override_id \<Rightarrow>
                   if override_id = [] then Inr (generate_random_id rng)
                   else if \<not> validate_device_id override_id then Inl InvalidBootstrap
                   else Inr override_id
               | None \<Rightarrow> Inr (generate_random_id rng))
           in case new_id of
             Inl e \<Rightarrow> (Inl e, dir)
           | Inr new_id \<Rightarrow>
               (case persist_atomic fs new_id dir of
                  (False, dir) \<Rightarrow> (Inl PersistFailed, dir)
                | (True, dir) \<Rightarrow> (Inr new_id, dir))))"

section \<open>Ids survive trimming\<close>

lemma device_char_ws: "device_char c \<Longrightarrow> c \<notin> set (concat ws_seqs)"
proof -
  have "list_all (\<lambda>c. c \<notin> set (concat ws_seqs))
      ''ABCDEFGHIJKLMNOPQRSTUVWXYZabcdefghijklmnopqrstuvwxyz0123456789-_''"
    by code_simp
  then show "device_char c \<Longrightarrow> c \<notin> set (concat ws_seqs)"
    unfolding list_all_iff by (rule bspec) (auto simp: device_char_def ascii_alphanumeric_def)
qed

lemma device_id_ws_free: "validate_device_id s \<Longrightarrow> ws_free s"
  using device_char_ws by (auto simp: validate_device_id_def ws_free_def list_all_iff)

lemma device_char_ascii: "device_char c \<Longrightarrow> byte_of c < 128"
proof -
  have "list_all (\<lambda>c. byte_of c < 128)
      ''ABCDEFGHIJKLMNOPQRSTUVWXYZabcdefghijklmnopqrstuvwxyz0123456789-_''"
    by code_simp
  then show "device_char c \<Longrightarrow> byte_of c < 128"
    unfolding list_all_iff by (rule bspec) (auto simp: device_char_def ascii_alphanumeric_def)
qed

lemma device_id_utf8: "validate_device_id s \<Longrightarrow> utf8_valid s"
  using device_char_ascii by (auto simp: validate_device_id_def list_all_iff intro: utf8_valid_ascii)

lemma random_id_valid: "validate_device_id (generate_random_id rng)"
proof -
  have "list_all device_char RANDOM_ALPHABET" "list_all device_char ''MATRIXMCP-''"
    by code_simp+
  moreover have "RANDOM_ALPHABET ! (n mod length RANDOM_ALPHABET) \<in> set RANDOM_ALPHABET" for n
    by (intro nth_mem mod_less_divisor) (simp add: RANDOM_ALPHABET_def)
  ultimately show ?thesis
    by (auto simp: validate_device_id_def generate_random_id_def RANDOM_SUFFIX_LEN_def MAX_DEVICE_ID_LEN_def
        list_all_iff)
qed

section \<open>Stability\<close>

lemma persist_atomic_cases:
  "persist_atomic fs content dir = (True, dir') \<Longrightarrow> id_file dir' = Some content"
  "persist_atomic fs content dir = (False, dir') \<Longrightarrow> id_file dir' = id_file dir"
  by (auto simp: persist_atomic_def Let_def split: if_splits)

lemma resolve_ok:
  assumes "resolve_device_id fs rng b dir = (Inr i, dir')"
  shows "validate_device_id i" and "\<exists>raw. id_file dir' = Some raw \<and> trim raw = i \<and> utf8_valid raw"
    and "df_visible fs \<Longrightarrow> id_file dir = Some raw \<Longrightarrow> dir' = dir"
  using assms
  by (auto simp: resolve_device_id_def Let_def random_id_valid device_id_ws_free trim_ws_free device_id_utf8
      dest: persist_atomic_cases split: if_splits option.splits sum.splits prod.splits bool.splits)

text \<open>Once a boot has resolved a device id, it is valid and every later boot that can read the file resolves the
  same one, whatever the override and the random draws are then; an id file that is seen is never
  written; and a boot that fails, at any file operation, leaves the id file as it was.\<close>

theorem device_id_stable:
  assumes "resolve_device_id fs rng b dir = (Inr i, dir')" and "df_create_dir fs'" and "df_visible fs'"
    and "df_readable fs'"
  shows "validate_device_id i \<and> resolve_device_id fs' rng' b' dir' = (Inr i, dir')
    \<and> (df_visible fs \<and> id_file dir \<noteq> None \<longrightarrow> dir' = dir)
    \<and> (case resolve_device_id fs'' rng' b' dir'' of (Inl e, d) \<Rightarrow> id_file d = id_file dir'' | _ \<Rightarrow> True)"
proof (intro conjI impI)
  from resolve_ok(2) [OF assms(1)] obtain raw where
    "id_file dir' = Some raw" "trim raw = i" "utf8_valid raw" by auto
  with assms(2-4) resolve_ok(1) [OF assms(1)]
  show "resolve_device_id fs' rng' b' dir' = (Inr i, dir')" by (simp add: resolve_device_id_def)
  show "df_visible fs \<and> id_file dir \<noteq> None \<Longrightarrow> dir' = dir" using resolve_ok(3) [OF assms(1)] by auto
  show "case resolve_device_id fs'' rng' b' dir'' of (Inl e, d) \<Rightarrow> id_file d = id_file dir'' | _ \<Rightarrow> True"
    by (auto simp: resolve_device_id_def Let_def dest: persist_atomic_cases
        split: if_splits option.splits sum.splits prod.splits bool.splits)
qed (rule resolve_ok(1) [OF assms(1)])

definition good_fs :: DeviceFs where
  "good_fs = \<lparr>df_create_dir = True, df_visible = True, df_readable = True, df_write = True, df_written = 0,
     df_rename = True\<rparr>"

theorem device_id_stable_witness:
  "resolve_device_id good_fs (\<lambda>_. 5) (Some ''OTHER'') \<lparr>id_file = Some ''MATRIXMCP-AAAAAAAA'', tmp_file = None\<rparr>
     = (Inr ''MATRIXMCP-AAAAAAAA'', \<lparr>id_file = Some ''MATRIXMCP-AAAAAAAA'', tmp_file = None\<rparr>)"
proof -
  have "resolve_device_id good_fs (\<lambda>_. 0) None \<lparr>id_file = None, tmp_file = None\<rparr>
      = (Inr ''MATRIXMCP-AAAAAAAA'', \<lparr>id_file = Some ''MATRIXMCP-AAAAAAAA'', tmp_file = None\<rparr>)"
    by (simp add: resolve_device_id_def good_fs_def persist_atomic_def generate_random_id_def RANDOM_ALPHABET_def
        RANDOM_SUFFIX_LEN_def upt_rec)
  from device_id_stable [OF this, of good_fs "\<lambda>_. 5" "Some ''OTHER''"] show ?thesis by (simp add: good_fs_def)
qed

end
