(* ===== verification/Configuration.thy ===== *)
theory Configuration
  imports DeviceIdentity
begin

text \<open>
  \<open>src/config.rs\<close>: the configuration, read from the environment once at start. The
  environment is a partial map; the parser of socket addresses and the file operations of the
  device id are arguments; an error is its kind with the variable it is about.
\<close>

section \<open>Data\<close>

datatype SocketAddr = SocketAddr rstr nat

record TtsConfig =
  tts_base_url :: rstr
  bearer_token :: rstr

record StoreConfig =
  store_root :: rstr
  store_pepper :: rstr

record IntrospectionCredentials =
  client_id :: rstr
  client_secret :: rstr

record Config =
  cfg_resource_url :: rstr
  cfg_authorization_server :: rstr
  bind_addr :: SocketAddr
  metrics_bind_addr :: SocketAddr
  homeserver_url :: rstr
  cfg_server_name :: rstr
  introspection :: "IntrospectionCredentials option"
  store_config :: "StoreConfig option"
  rate_limit_reads_per_min :: nat
  rate_limit_writes_per_min :: nat
  download_max_bytes :: nat
  upload_max_bytes :: nat
  trusted_hops :: nat
  cfg_device_id :: rstr
  allowed_origins :: "rstr list"
  tts :: "TtsConfig option"

definition DEFAULT_RATE_LIMIT_READS :: nat where "DEFAULT_RATE_LIMIT_READS = 60"
definition DEFAULT_RATE_LIMIT_WRITES :: nat where "DEFAULT_RATE_LIMIT_WRITES = 30"
definition DEFAULT_DOWNLOAD_MAX_BYTES :: nat where "DEFAULT_DOWNLOAD_MAX_BYTES = 5 * 1024 * 1024"
definition DEFAULT_UPLOAD_MAX_BYTES :: nat where "DEFAULT_UPLOAD_MAX_BYTES = 10 * 1024 * 1024"
definition DEFAULT_TRUSTED_PROXY_HOPS :: nat where "DEFAULT_TRUSTED_PROXY_HOPS = 2"

datatype ConfigError = MissingVar rstr | InvalidAddress rstr | EmptyServerName | ServerNameIsUrl
  | NotHttpUrl rstr | NotAnInteger rstr | ZeroNotAllowed rstr | ShortPepper | DeviceIdFailed DeviceIdError

section \<open>Parsers\<close>

fun strip_slashes_rev :: "rstr \<Rightarrow> rstr" where
  "strip_slashes_rev (c # s) = (if c = CHR ''/'' then strip_slashes_rev s else c # s)"
| "strip_slashes_rev [] = []"

definition strip_trailing_slash :: "rstr \<Rightarrow> rstr" where
  "strip_trailing_slash url = rev (strip_slashes_rev (rev url))"

definition validate_url :: "rstr \<Rightarrow> rstr \<Rightarrow> ConfigError + unit" where
  "validate_url url key =
     (if \<not> prefix ''https://'' url \<and> \<not> prefix ''http://'' url then Inl (NotHttpUrl key) else Inr ())"

definition require_env :: "(rstr \<Rightarrow> rstr option) \<Rightarrow> rstr \<Rightarrow> ConfigError + rstr" where
  "require_env env key = (case env key of Some v \<Rightarrow> Inr v | None \<Rightarrow> Inl (MissingVar key))"

text \<open>
  \<open>str::parse\<close> of an unsigned integer of \<open>w\<close> bits: an optional plus sign and then
  digits, at least one, whose value fits. A \<open>usize\<close> has 64 bits.
\<close>

definition digit_value :: "char \<Rightarrow> nat option" where
  "digit_value c = (if c \<in> set ''0123456789'' then Some (byte_of c - 48) else None)"

fun parse_digits :: "nat \<Rightarrow> nat \<Rightarrow> rstr \<Rightarrow> nat option" where
  "parse_digits w acc [] = Some acc"
| "parse_digits w acc (c # s) = (case digit_value c of
      None \<Rightarrow> None
    | Some d \<Rightarrow> if 2 ^ w \<le> acc * 10 + d then None else parse_digits w (acc * 10 + d) s)"

definition parse_uint :: "nat \<Rightarrow> rstr \<Rightarrow> nat option" where
  "parse_uint w s = (case s of
      [] \<Rightarrow> None
    | c # rest \<Rightarrow>
        if c = CHR ''+'' then (if rest = [] then None else parse_digits w 0 rest)
        else parse_digits w 0 s)"

definition parse_env_uint :: "nat \<Rightarrow> bool \<Rightarrow> (rstr \<Rightarrow> rstr option) \<Rightarrow> rstr \<Rightarrow> nat \<Rightarrow> ConfigError + nat" where
  "parse_env_uint w zero_ok env key dflt = (case env key of
      None \<Rightarrow> Inr dflt
    | Some raw \<Rightarrow> (case parse_uint w raw of
        None \<Rightarrow> Inl (NotAnInteger key)
      | Some n \<Rightarrow> if n = 0 \<and> \<not> zero_ok then Inl (ZeroNotAllowed key) else Inr n))"

definition parse_rate_limit :: "(rstr \<Rightarrow> rstr option) \<Rightarrow> rstr \<Rightarrow> nat \<Rightarrow> ConfigError + nat" where
  "parse_rate_limit = parse_env_uint 32 False"

definition parse_download_max_bytes :: "(rstr \<Rightarrow> rstr option) \<Rightarrow> ConfigError + nat" where
  "parse_download_max_bytes env = parse_env_uint 64 True env ''MATRIX_MCP_DOWNLOAD_MAX_BYTES'' DEFAULT_DOWNLOAD_MAX_BYTES"

definition parse_trusted_proxy_hops :: "(rstr \<Rightarrow> rstr option) \<Rightarrow> ConfigError + nat" where
  "parse_trusted_proxy_hops env = parse_env_uint 64 True env ''MATRIX_MCP_TRUSTED_PROXY_HOPS'' DEFAULT_TRUSTED_PROXY_HOPS"

definition parse_upload_max_bytes :: "(rstr \<Rightarrow> rstr option) \<Rightarrow> ConfigError + nat" where
  "parse_upload_max_bytes env = parse_env_uint 64 False env ''MATRIX_MCP_UPLOAD_MAX_BYTES'' DEFAULT_UPLOAD_MAX_BYTES"

definition parse_allowed_origins :: "rstr option \<Rightarrow> rstr list" where
  "parse_allowed_origins raw = (case raw of None \<Rightarrow> []
     | Some v \<Rightarrow> filter (\<lambda>s. s \<noteq> []) (map trim (split_on (CHR '','') v)))"

definition parse_tts_config :: "(rstr \<Rightarrow> rstr option) \<Rightarrow> ConfigError + TtsConfig option" where
  "parse_tts_config env =
     (case (env ''MATRIX_MCP_TTS_BASE_URL'', env ''MATRIX_MCP_TTS_BEARER_TOKEN'') of
        (Some url, Some token) \<Rightarrow>
          if token = [] then Inr None
          else (let base_url = strip_trailing_slash url in
            case validate_url base_url ''MATRIX_MCP_TTS_BASE_URL'' of
              Inl e \<Rightarrow> Inl e
            | Inr _ \<Rightarrow> Inr (Some \<lparr>tts_base_url = base_url, bearer_token = token\<rparr>))
      | _ \<Rightarrow> Inr None)"

definition resolve_metrics_bind_addr ::
  "(rstr \<Rightarrow> SocketAddr option) \<Rightarrow> rstr option \<Rightarrow> rstr option \<Rightarrow> ConfigError + SocketAddr" where
  "resolve_metrics_bind_addr parse_addr explicit_addr pod_ip =
     (let addr_str = (case explicit_addr of Some a \<Rightarrow> a
          | None \<Rightarrow> (case pod_ip of None \<Rightarrow> ''127.0.0.1:9090'' | Some ip \<Rightarrow> ip @ '':9090''))
      in case parse_addr addr_str of Some a \<Rightarrow> Inr a | None \<Rightarrow> Inl (InvalidAddress ''MATRIX_MCP_METRICS_BIND_ADDR''))"

section \<open>Construction\<close>

text \<open>The error operator of the source, \<open>?\<close>.\<close>

fun and_then :: "'e + 'a \<Rightarrow> ('a \<Rightarrow> 'e + 'b) \<Rightarrow> 'e + 'b" where
  "and_then (Inl e) f = Inl e"
| "and_then (Inr a) f = f a"

lemma and_then_Inr: "and_then r f = Inr b \<longleftrightarrow> (\<exists>a. r = Inr a \<and> f a = Inr b)"
  by (cases r) auto

definition new_config :: "rstr \<Rightarrow> rstr \<Rightarrow> rstr \<Rightarrow> rstr \<Rightarrow> SocketAddr \<Rightarrow> ConfigError + Config" where
  "new_config resource_url auth_server homeserver sname baddr =
     (let res = strip_trailing_slash resource_url;
          auth = trim auth_server;
          hs = strip_trailing_slash homeserver
      in if sname = [] then Inl EmptyServerName
         else if prefix ''http'' sname then Inl ServerNameIsUrl
         else and_then (validate_url res ''MATRIX_MCP_RESOURCE_URL'')
           (\<lambda>_. and_then (validate_url auth ''MATRIX_MCP_AUTHORIZATION_SERVER'')
           (\<lambda>_. and_then (validate_url hs ''MATRIX_MCP_HOMESERVER_URL'')
           (\<lambda>_. Inr \<lparr>cfg_resource_url = res, cfg_authorization_server = auth, bind_addr = baddr,
             metrics_bind_addr = SocketAddr ''127.0.0.1'' 9090, homeserver_url = hs, cfg_server_name = sname,
             introspection = None, store_config = None, rate_limit_reads_per_min = DEFAULT_RATE_LIMIT_READS,
             rate_limit_writes_per_min = DEFAULT_RATE_LIMIT_WRITES,
             download_max_bytes = DEFAULT_DOWNLOAD_MAX_BYTES, upload_max_bytes = DEFAULT_UPLOAD_MAX_BYTES,
             trusted_hops = DEFAULT_TRUSTED_PROXY_HOPS, cfg_device_id = ''UNRESOLVED'', allowed_origins = [],
             tts = None\<rparr>))))"

definition authorization_server_base :: "Config \<Rightarrow> rstr" where
  "authorization_server_base cfg = strip_trailing_slash (cfg_authorization_server cfg)"

text \<open>The settings after the device id is resolved.\<close>

definition config_settings :: "(rstr \<Rightarrow> rstr option) \<Rightarrow> Config \<Rightarrow> ConfigError + Config" where
  "config_settings env cfg =
     and_then (parse_rate_limit env ''MATRIX_MCP_RATE_LIMIT_READS_PER_MIN'' DEFAULT_RATE_LIMIT_READS) (\<lambda>reads.
     and_then (parse_rate_limit env ''MATRIX_MCP_RATE_LIMIT_WRITES_PER_MIN'' DEFAULT_RATE_LIMIT_WRITES) (\<lambda>writes.
     and_then (parse_download_max_bytes env) (\<lambda>down.
     and_then (parse_upload_max_bytes env) (\<lambda>up.
     and_then (parse_trusted_proxy_hops env) (\<lambda>hops.
     and_then (parse_tts_config env) (\<lambda>tc.
       Inr (cfg\<lparr>rate_limit_reads_per_min := reads, rate_limit_writes_per_min := writes,
         download_max_bytes := down, upload_max_bytes := up, trusted_hops := hops,
         allowed_origins := parse_allowed_origins (env ''MATRIX_MCP_ALLOWED_ORIGINS''), tts := tc\<rparr>)))))))"

text \<open>The required variables and the addresses, read before the device id.\<close>

record Required =
  rq_resource :: rstr
  rq_auth :: rstr
  rq_homeserver :: rstr
  rq_server :: rstr
  rq_bind :: SocketAddr
  rq_metrics :: SocketAddr
  rq_creds :: IntrospectionCredentials
  rq_store :: StoreConfig

definition config_required :: "(rstr \<Rightarrow> rstr option) \<Rightarrow> (rstr \<Rightarrow> SocketAddr option) \<Rightarrow> ConfigError + Required" where
  "config_required env parse_addr =
     and_then (require_env env ''MATRIX_MCP_RESOURCE_URL'') (\<lambda>res.
     and_then (require_env env ''MATRIX_MCP_AUTHORIZATION_SERVER'') (\<lambda>auth.
     and_then (require_env env ''MATRIX_MCP_HOMESERVER_URL'') (\<lambda>hs.
     and_then (require_env env ''MATRIX_MCP_SERVER_NAME'') (\<lambda>sname.
     and_then (case parse_addr (case env ''MATRIX_MCP_BIND_ADDR'' of Some a \<Rightarrow> a | None \<Rightarrow> ''0.0.0.0:3000'') of
         Some a \<Rightarrow> Inr a | None \<Rightarrow> Inl (InvalidAddress ''MATRIX_MCP_BIND_ADDR'')) (\<lambda>baddr.
     and_then (resolve_metrics_bind_addr parse_addr (env ''MATRIX_MCP_METRICS_BIND_ADDR'') (env ''POD_IP'')) (\<lambda>maddr.
     and_then (require_env env ''MATRIX_MCP_INTROSPECTION_CLIENT_ID'') (\<lambda>cid.
     and_then (require_env env ''MATRIX_MCP_INTROSPECTION_CLIENT_SECRET'') (\<lambda>secret.
     and_then (require_env env ''MATRIX_MCP_STORE_DIR'') (\<lambda>root.
     and_then (require_env env ''MATRIX_MCP_STORE_PEPPER'') (\<lambda>pep.
       Inr \<lparr>rq_resource = res, rq_auth = auth, rq_homeserver = hs, rq_server = sname, rq_bind = baddr,
         rq_metrics = maddr, rq_creds = \<lparr>client_id = cid, client_secret = secret\<rparr>,
         rq_store = \<lparr>store_root = root, store_pepper = pep\<rparr>\<rparr>))))))))))"

definition from_env ::
  "(rstr \<Rightarrow> rstr option) \<Rightarrow> (rstr \<Rightarrow> SocketAddr option) \<Rightarrow> DeviceFs \<Rightarrow> (nat \<Rightarrow> nat) \<Rightarrow> DeviceDir
     \<Rightarrow> (ConfigError + Config) \<times> DeviceDir" where
  "from_env env parse_addr fs rng dir = (case config_required env parse_addr of
      Inl e \<Rightarrow> (Inl e, dir)
    | Inr rq \<Rightarrow>
        (case resolve_device_id fs rng (env ''MATRIX_MCP_DEVICE_ID_BOOTSTRAP'') dir of
          (Inl e, dir) \<Rightarrow> (Inl (DeviceIdFailed e), dir)
        | (Inr device_id, dir) \<Rightarrow>
            (if length (store_pepper (rq_store rq)) < 32 then (Inl ShortPepper, dir)
             else (and_then (new_config (rq_resource rq) (rq_auth rq) (rq_homeserver rq) (rq_server rq) (rq_bind rq)) (\<lambda>cfg.
               and_then (config_settings env (cfg\<lparr>metrics_bind_addr := rq_metrics rq\<rparr>)) (\<lambda>cfg.
                 Inr (cfg\<lparr>cfg_device_id := device_id, introspection := Some (rq_creds rq),
                   store_config := Some (rq_store rq)\<rparr>))), dir))))"

section \<open>A configuration that is returned is sound\<close>

definition http_url :: "rstr \<Rightarrow> bool" where
  "http_url u \<longleftrightarrow> prefix ''https://'' u \<or> prefix ''http://'' u"

definition base_url :: "rstr \<Rightarrow> bool" where
  "base_url u \<longleftrightarrow> http_url u \<and> \<not> suffix ''/'' u"

lemma strip_slashes_rev_hd: "strip_slashes_rev s = [] \<or> hd (strip_slashes_rev s) \<noteq> CHR ''/''"
  by (induction s) auto

lemma strip_trailing_slash_end: "\<not> suffix ''/'' (strip_trailing_slash s)"
  using strip_slashes_rev_hd [of "rev s"]
  by (cases "strip_slashes_rev (rev s)") (auto simp: strip_trailing_slash_def suffix_to_prefix)

lemma validate_url_ok: "validate_url u k = Inr x \<longleftrightarrow> http_url u"
  by (auto simp: validate_url_def http_url_def)

lemma new_config_ok:
  assumes "new_config r a h n b = Inr cfg"
  shows "base_url (cfg_resource_url cfg)" and "http_url (cfg_authorization_server cfg)"
    and "base_url (homeserver_url cfg)" and "cfg_server_name cfg \<noteq> [] \<and> \<not> prefix ''http'' (cfg_server_name cfg)"
    and "cfg_resource_url cfg = strip_trailing_slash r \<and> cfg_authorization_server cfg = trim a"
  using assms
  by (auto simp: new_config_def Let_def and_then_Inr validate_url_ok base_url_def strip_trailing_slash_end
      split: if_splits)

lemma parse_digits_bound: "parse_digits w acc s = Some n \<Longrightarrow> acc < 2 ^ w \<Longrightarrow> n < 2 ^ w"
  by (induction w acc s rule: parse_digits.induct) (auto split: option.splits if_splits)

lemma parse_uint_bound: "parse_uint w s = Some n \<Longrightarrow> n < 2 ^ w"
  by (auto simp: parse_uint_def simp del: parse_digits.simps dest: parse_digits_bound split: list.splits if_splits)

lemma parse_env_uint_ok:
  "parse_env_uint w z env k d = Inr n \<Longrightarrow> d < 2 ^ w \<Longrightarrow> 0 < d \<Longrightarrow> n < 2 ^ w \<and> (z \<or> 0 < n)"
  by (auto simp: parse_env_uint_def dest: parse_uint_bound split: option.splits if_splits)

lemma parse_tts_ok: "parse_tts_config env = Inr (Some t) \<Longrightarrow> base_url (tts_base_url t) \<and> bearer_token t \<noteq> []"
  by (auto simp: parse_tts_config_def Let_def base_url_def validate_url_ok strip_trailing_slash_end
      split: option.splits if_splits sum.splits)

lemma config_settings_ok:
  assumes "config_settings env cfg = Inr cfg'"
  shows "cfg_resource_url cfg' = cfg_resource_url cfg \<and> cfg_authorization_server cfg' = cfg_authorization_server cfg
      \<and> homeserver_url cfg' = homeserver_url cfg \<and> cfg_server_name cfg' = cfg_server_name cfg
      \<and> metrics_bind_addr cfg' = metrics_bind_addr cfg"
    and "0 < rate_limit_reads_per_min cfg' \<and> rate_limit_reads_per_min cfg' < 2 ^ 32"
    and "0 < rate_limit_writes_per_min cfg' \<and> rate_limit_writes_per_min cfg' < 2 ^ 32"
    and "0 < upload_max_bytes cfg'"
    and "case tts cfg' of None \<Rightarrow> True | Some t \<Rightarrow> base_url (tts_base_url t) \<and> bearer_token t \<noteq> []"
    and "allowed_origins cfg' = parse_allowed_origins (env ''MATRIX_MCP_ALLOWED_ORIGINS'')"
  using assms
  by (auto simp: config_settings_def and_then_Inr parse_rate_limit_def parse_upload_max_bytes_def
      DEFAULT_RATE_LIMIT_READS_def DEFAULT_RATE_LIMIT_WRITES_def DEFAULT_UPLOAD_MAX_BYTES_def
      dest: parse_env_uint_ok parse_tts_ok split: option.splits)

lemma from_env_ok:
  assumes "from_env env pa fs rng dir = (Inr cfg, dir')"
  obtains rq c c' where "config_required env pa = Inr rq" and "32 \<le> length (store_pepper (rq_store rq))"
    and "resolve_device_id fs rng (env ''MATRIX_MCP_DEVICE_ID_BOOTSTRAP'') dir = (Inr (cfg_device_id cfg), dir')"
    and "new_config (rq_resource rq) (rq_auth rq) (rq_homeserver rq) (rq_server rq) (rq_bind rq) = Inr c"
    and "config_settings env (c\<lparr>metrics_bind_addr := rq_metrics rq\<rparr>) = Inr c'"
    and "cfg = c'\<lparr>cfg_device_id := cfg_device_id cfg, introspection := Some (rq_creds rq),
      store_config := Some (rq_store rq)\<rparr>"
  using assms by (auto simp: from_env_def and_then_Inr split: sum.splits prod.splits if_splits)

lemma from_env_sound:
  assumes "from_env env pa fs rng dir = (Inr cfg, dir')"
  shows "base_url (cfg_resource_url cfg) \<and> http_url (cfg_authorization_server cfg) \<and> base_url (homeserver_url cfg)
    \<and> cfg_server_name cfg \<noteq> [] \<and> \<not> prefix ''http'' (cfg_server_name cfg)
    \<and> 0 < rate_limit_reads_per_min cfg \<and> rate_limit_reads_per_min cfg < 2 ^ 32
    \<and> 0 < rate_limit_writes_per_min cfg \<and> rate_limit_writes_per_min cfg < 2 ^ 32 \<and> 0 < upload_max_bytes cfg
    \<and> introspection cfg \<noteq> None \<and> (\<exists>st. store_config cfg = Some st \<and> 32 \<le> length (store_pepper st))
    \<and> validate_device_id (cfg_device_id cfg) \<and> map_option trim (id_file dir') = Some (cfg_device_id cfg)
    \<and> pa (case env ''MATRIX_MCP_METRICS_BIND_ADDR'' of Some a \<Rightarrow> a | None \<Rightarrow>
         (case env ''POD_IP'' of None \<Rightarrow> ''127.0.0.1:9090'' | Some ip \<Rightarrow> ip @ '':9090'')) = Some (metrics_bind_addr cfg)"
proof -
  obtain rq c c' where f: "config_required env pa = Inr rq" "32 \<le> length (store_pepper (rq_store rq))"
    "resolve_device_id fs rng (env ''MATRIX_MCP_DEVICE_ID_BOOTSTRAP'') dir = (Inr (cfg_device_id cfg), dir')"
    "new_config (rq_resource rq) (rq_auth rq) (rq_homeserver rq) (rq_server rq) (rq_bind rq) = Inr c"
    "config_settings env (c\<lparr>metrics_bind_addr := rq_metrics rq\<rparr>) = Inr c'"
    and cfg: "cfg = c'\<lparr>cfg_device_id := cfg_device_id cfg, introspection := Some (rq_creds rq),
      store_config := Some (rq_store rq)\<rparr>" by (rule from_env_ok [OF assms])
  have fields: "cfg_resource_url cfg = cfg_resource_url c'" "cfg_authorization_server cfg = cfg_authorization_server c'"
    "homeserver_url cfg = homeserver_url c'" "cfg_server_name cfg = cfg_server_name c'"
    "rate_limit_reads_per_min cfg = rate_limit_reads_per_min c'"
    "rate_limit_writes_per_min cfg = rate_limit_writes_per_min c'" "upload_max_bytes cfg = upload_max_bytes c'"
    "metrics_bind_addr cfg = metrics_bind_addr c'" "introspection cfg = Some (rq_creds rq)"
    "store_config cfg = Some (rq_store rq)"
    by (subst cfg, simp)+
  have metrics: "pa (case env ''MATRIX_MCP_METRICS_BIND_ADDR'' of Some a \<Rightarrow> a | None \<Rightarrow>
      (case env ''POD_IP'' of None \<Rightarrow> ''127.0.0.1:9090'' | Some ip \<Rightarrow> ip @ '':9090'')) = Some (rq_metrics rq)"
    using f(1) by (auto simp: config_required_def and_then_Inr resolve_metrics_bind_addr_def Let_def split: option.splits)
  have "map_option trim (id_file dir') = Some (cfg_device_id cfg)" using resolve_ok(2) [OF f(3)] by auto
  with resolve_ok(1) [OF f(3)] new_config_ok [OF f(4)] config_settings_ok [OF f(5)] f(2) metrics show ?thesis
    unfolding fields by simp
qed


definition base_config :: Config where
  "base_config = \<lparr>cfg_resource_url = ''https://x'', cfg_authorization_server = ''https://mas/'',
     bind_addr = SocketAddr ''0.0.0.0'' 3000, metrics_bind_addr = SocketAddr ''127.0.0.1'' 9090,
     homeserver_url = ''https://hs'', cfg_server_name = ''example.com'',
     introspection = Some \<lparr>client_id = ''cid'', client_secret = ''sec''\<rparr>, store_config = None,
     rate_limit_reads_per_min = 60, rate_limit_writes_per_min = 30, download_max_bytes = 1, upload_max_bytes = 1,
     trusted_hops = 1, cfg_device_id = ''DEV'', allowed_origins = [], tts = None\<rparr>"

definition sample_env :: "rstr \<Rightarrow> rstr option" where
  "sample_env k =
    (if length k = 20 then (if k = ''MATRIX_MCP_STORE_DIR'' then Some ''/d'' else None)
     else if length k = 22 then (if k = ''MATRIX_MCP_SERVER_NAME'' then Some ''example.com'' else None)
     else if length k = 23 then (if k = ''MATRIX_MCP_RESOURCE_URL'' then Some ''https://x/'' else if k = ''MATRIX_MCP_STORE_PEPPER'' then Some ''0123456789abcdef0123456789abcdef'' else None)
     else if length k = 25 then (if k = ''MATRIX_MCP_HOMESERVER_URL'' then Some ''https://hs'' else None)
     else if length k = 31 then (if k = ''MATRIX_MCP_AUTHORIZATION_SERVER'' then Some ''https://mas/'' else None)
     else if length k = 34 then (if k = ''MATRIX_MCP_INTROSPECTION_CLIENT_ID'' then Some ''cid'' else None)
     else if length k = 35 then (if k = ''MATRIX_MCP_RATE_LIMIT_READS_PER_MIN'' then Some ''+90'' else None)
     else if length k = 38 then (if k = ''MATRIX_MCP_INTROSPECTION_CLIENT_SECRET'' then Some ''sec'' else None) else None)"

definition sample_addr :: "rstr \<Rightarrow> SocketAddr option" where
  "sample_addr s = (if s = ''127.0.0.1:9090'' then Some (SocketAddr ''127.0.0.1'' 9090)
     else if s = ''0.0.0.0:3000'' then Some (SocketAddr ''0.0.0.0'' 3000) else None)"

definition sample_dir :: DeviceDir where
  "sample_dir = \<lparr>id_file = Some ''DEV'', tmp_file = None\<rparr>"

lemma demo_device: "resolve_device_id good_fs rng b sample_dir = (Inr ''DEV'', sample_dir)"
proof -
  have "utf8_valid ''DEV'' \<and> trim ''DEV'' = ''DEV'' \<and> validate_device_id ''DEV''" by code_simp
  then show ?thesis by (simp add: resolve_device_id_def good_fs_def sample_dir_def)
qed

lemma sample_vars:
  "sample_env ''MATRIX_MCP_RESOURCE_URL'' = Some ''https://x/''"
  "sample_env ''MATRIX_MCP_AUTHORIZATION_SERVER'' = Some ''https://mas/''"
  "sample_env ''MATRIX_MCP_HOMESERVER_URL'' = Some ''https://hs''" "sample_env ''MATRIX_MCP_SERVER_NAME'' = Some ''example.com''"
  "sample_env ''MATRIX_MCP_INTROSPECTION_CLIENT_ID'' = Some ''cid''"
  "sample_env ''MATRIX_MCP_INTROSPECTION_CLIENT_SECRET'' = Some ''sec''" "sample_env ''MATRIX_MCP_STORE_DIR'' = Some ''/d''"
  "sample_env ''MATRIX_MCP_STORE_PEPPER'' = Some ''0123456789abcdef0123456789abcdef''"
  "sample_env ''MATRIX_MCP_RATE_LIMIT_READS_PER_MIN'' = Some ''+90''" "sample_env ''MATRIX_MCP_RATE_LIMIT_WRITES_PER_MIN'' = None"
  "sample_env ''MATRIX_MCP_BIND_ADDR'' = None" "sample_env ''MATRIX_MCP_METRICS_BIND_ADDR'' = None" "sample_env ''POD_IP'' = None"
  "sample_env ''MATRIX_MCP_DOWNLOAD_MAX_BYTES'' = None" "sample_env ''MATRIX_MCP_UPLOAD_MAX_BYTES'' = None"
  "sample_env ''MATRIX_MCP_TRUSTED_PROXY_HOPS'' = None" "sample_env ''MATRIX_MCP_TTS_BASE_URL'' = None"
  "sample_env ''MATRIX_MCP_TTS_BEARER_TOKEN'' = None" "sample_env ''MATRIX_MCP_ALLOWED_ORIGINS'' = None"
  by (simp_all add: sample_env_def)

lemma sample_addrs:
  "sample_addr ''127.0.0.1:9090'' = Some (SocketAddr ''127.0.0.1'' 9090)"
  "sample_addr ''0.0.0.0:3000'' = Some (SocketAddr ''0.0.0.0'' 3000)"
  by (simp_all add: sample_addr_def)

lemma demo_required:
  "config_required sample_env sample_addr = Inr \<lparr>rq_resource = ''https://x/'', rq_auth = ''https://mas/'',
     rq_homeserver = ''https://hs'', rq_server = ''example.com'', rq_bind = SocketAddr ''0.0.0.0'' 3000,
     rq_metrics = SocketAddr ''127.0.0.1'' 9090, rq_creds = \<lparr>client_id = ''cid'', client_secret = ''sec''\<rparr>,
     rq_store = \<lparr>store_root = ''/d'', store_pepper = ''0123456789abcdef0123456789abcdef''\<rparr>\<rparr>"
  unfolding config_required_def require_env_def resolve_metrics_bind_addr_def Let_def sample_vars option.case
    and_then.simps sample_addrs ..

lemma demo_settings:
  "config_settings sample_env c = Inr (c\<lparr>rate_limit_reads_per_min := 90,
     rate_limit_writes_per_min := DEFAULT_RATE_LIMIT_WRITES, download_max_bytes := DEFAULT_DOWNLOAD_MAX_BYTES,
     upload_max_bytes := DEFAULT_UPLOAD_MAX_BYTES, trusted_hops := DEFAULT_TRUSTED_PROXY_HOPS,
     allowed_origins := [], tts := None\<rparr>)"
proof -
  have "digit_value (CHR ''9'') = Some 9" "digit_value (CHR ''0'') = Some 0" by (simp_all add: digit_value_def)
  then have "parse_uint 32 ''+90'' = Some 90" by (simp add: parse_uint_def)
  then have "parse_rate_limit sample_env ''MATRIX_MCP_RATE_LIMIT_READS_PER_MIN'' d = Inr 90" for d
    by (simp add: parse_rate_limit_def parse_env_uint_def sample_vars)
  moreover have "parse_tts_config sample_env = Inr None" "parse_allowed_origins None = []"
    by (simp_all add: parse_tts_config_def parse_allowed_origins_def sample_vars)
  ultimately show ?thesis
    unfolding config_settings_def
    by (simp only: parse_rate_limit_def parse_env_uint_def parse_download_max_bytes_def
        parse_upload_max_bytes_def parse_trusted_proxy_hops_def sample_vars option.case and_then.simps)
qed

lemma demo_new_config:
  "\<exists>c. new_config ''https://x/'' ''https://mas/'' ''https://hs'' ''example.com'' b = Inr c
     \<and> cfg_resource_url c = ''https://x''"
proof -
  have "strip_trailing_slash ''https://x/'' = ''https://x''" "strip_trailing_slash ''https://hs'' = ''https://hs''"
    "trim ''https://mas/'' = ''https://mas/''" by code_simp+
  then show ?thesis by (simp add: new_config_def validate_url_def)
qed

lemma demo_from_env:
  obtains cfg where "from_env sample_env sample_addr good_fs rng sample_dir = (Inr cfg, sample_dir)"
    and "cfg_resource_url cfg = ''https://x''" and "cfg_device_id cfg = ''DEV''"
proof -
  obtain c where c: "new_config ''https://x/'' ''https://mas/'' ''https://hs'' ''example.com''
      (SocketAddr ''0.0.0.0'' 3000) = Inr c" "cfg_resource_url c = ''https://x''"
    using demo_new_config by blast
  obtain c' where c': "config_settings sample_env (c\<lparr>metrics_bind_addr := SocketAddr ''127.0.0.1'' 9090\<rparr>) = Inr c'"
    "cfg_resource_url c' = ''https://x''"
    using c(2) by (simp add: demo_settings)
  show thesis
    by (rule that [where cfg = "c'\<lparr>cfg_device_id := ''DEV'', introspection := Some \<lparr>client_id = ''cid'', client_secret = ''sec''\<rparr>,
        store_config := Some \<lparr>store_root = ''/d'', store_pepper = ''0123456789abcdef0123456789abcdef''\<rparr>\<rparr>"])
      (simp_all add: from_env_def demo_required demo_device c c')
qed


end
