(* ===== verification/Introspection.thy ===== *)
theory Introspection
  imports Configuration HashMap
begin

text \<open>
  \<open>src/mas.rs\<close> and \<open>src/oauth_metadata.rs\<close>: the resource identifiers this
  server publishes, the decision on an introspection response of the authorization server, and the
  cache of accepted tokens. The hash of a token and the reply of the server are arguments; time is
  counted in seconds, the wall clock beside the monotonic one.
\<close>

section \<open>Resource identifiers and scopes\<close>

record ProtectedResourceMetadata =
  resource :: rstr
  authorization_servers :: "rstr list"
  bearer_methods_supported :: "rstr list"
  scopes_supported :: "rstr list"

definition mcp_resource :: "rstr \<Rightarrow> rstr" where
  "mcp_resource resource_url = resource_url @ ''/mcp''"

definition required_scopes :: "Config \<Rightarrow> rstr list" where
  "required_scopes cfg = [''openid'', ''urn:matrix:org.matrix.msc2967.client:api:*'',
     ''urn:matrix:org.matrix.msc2967.client:device:'' @ cfg_device_id cfg]"

definition metadata_from_config :: "Config \<Rightarrow> ProtectedResourceMetadata" where
  "metadata_from_config cfg = \<lparr>resource = mcp_resource (cfg_resource_url cfg),
     authorization_servers = [cfg_authorization_server cfg],
     bearer_methods_supported = [''header''], scopes_supported = required_scopes cfg\<rparr>"

definition www_authenticate_header :: "Config \<Rightarrow> rstr" where
  "www_authenticate_header cfg =
     ''Bearer resource_metadata='' @ [CHR 0x22] @ cfg_resource_url cfg
       @ ''/.well-known/oauth-protected-resource/mcp'' @ [CHR 0x22] @ '', scope='' @ [CHR 0x22]
       @ join '' '' (required_scopes cfg) @ [CHR 0x22]"

section \<open>The response of the authorization server\<close>

datatype AudField = Single rstr | Multi "rstr list"

fun matches :: "AudField \<Rightarrow> rstr \<Rightarrow> bool" where
  "matches (Single s) expected = (s = expected)"
| "matches (Multi xs) expected = list_ex (\<lambda>s. s = expected) xs"

definition matches_any :: "AudField \<Rightarrow> rstr list \<Rightarrow> bool" where
  "matches_any a expected = list_ex (matches a) expected"

record IntrospectionResponse =
  r_active :: bool
  r_sub :: "rstr option"
  r_username :: "rstr option"
  r_scope :: "rstr option"
  r_aud :: "AudField option"
  r_exp :: "int option"
  r_device_id :: "rstr option"

record AuthenticatedIdentity =
  mas_subject :: rstr
  mxid :: rstr
  id_device :: "rstr option"
  raw_scope :: "rstr option"
  id_exp :: "int option"

datatype IntrospectionError = AudienceMismatch rstr | HttpError | Upstream nat

text \<open>No reply at all, or a status and, when it decodes, a body.\<close>

datatype mas_reply = SendFailed | HttpReply nat "IntrospectionResponse option"

definition has_matrix_scope :: "rstr option \<Rightarrow> bool" where
  "has_matrix_scope scp = (case scp of None \<Rightarrow> False
     | Some s \<Rightarrow> list_ex (\<lambda>t. prefix ''urn:matrix:client:api:'' t
           \<or> prefix ''urn:matrix:org.matrix.msc2967.client:api:'' t) (split_whitespace s))"

abbreviation STABLE_DEVICE :: rstr where
  "STABLE_DEVICE \<equiv> ''urn:matrix:client:device:''"
abbreviation UNSTABLE_DEVICE :: rstr where
  "UNSTABLE_DEVICE \<equiv> ''urn:matrix:org.matrix.msc2967.client:device:''"

definition scan_device ::
  "rstr option \<times> rstr option \<Rightarrow> rstr \<Rightarrow> rstr option \<times> rstr option" where
  "scan_device su t =
     (if prefix STABLE_DEVICE t then (Some (drop (length STABLE_DEVICE) t), snd su)
      else if prefix UNSTABLE_DEVICE t then (fst su, Some (drop (length UNSTABLE_DEVICE) t))
      else su)"

definition device_from_scope :: "rstr \<Rightarrow> rstr option" where
  "device_from_scope scp =
     (let (stable, unstable) = foldl scan_device (None, None) (split_whitespace scp)
      in case stable of Some d \<Rightarrow> Some d | None \<Rightarrow> unstable)"

record CacheEntry =
  c_identity :: AuthenticatedIdentity
  expires_at :: instant

record 'h MasIntrospectionClient =
  introspection_url :: rstr
  expected_audiences :: "rstr list"
  mas_server_name :: rstr
  mas_cache :: "('h, CacheEntry) hmap"

definition new_mas_client :: "rstr \<Rightarrow> rstr \<Rightarrow> rstr \<Rightarrow> 'h MasIntrospectionClient" where
  "new_mas_client authorization_server resource_url sname =
     \<lparr>introspection_url = authorization_server @ ''/oauth2/introspect'',
      expected_audiences = [mcp_resource resource_url, resource_url],
      mas_server_name = sname, mas_cache = []\<rparr>"

text \<open>What \<open>introspect\<close> makes of the reply, before it caches.\<close>

definition accept_body ::
  "rstr list \<Rightarrow> rstr \<Rightarrow> IntrospectionResponse
     \<Rightarrow> IntrospectionError + AuthenticatedIdentity option" where
  "accept_body audiences sname body =
     (if \<not> r_active body then Inr None
      else if (case r_aud body of None \<Rightarrow> False | Some a \<Rightarrow> \<not> matches_any a audiences)
      then Inl (AudienceMismatch (join '', '' audiences))
      else if \<not> has_matrix_scope (r_scope body) then Inr None
      else case r_sub body of None \<Rightarrow> Inr None
        | Some sub \<Rightarrow> (case r_username body of None \<Rightarrow> Inr None
          | Some username \<Rightarrow> Inr (Some
              \<lparr>mas_subject = sub, mxid = ''@'' @ username @ '':'' @ sname,
               id_device = (case r_device_id body of Some d \<Rightarrow> Some d
                  | None \<Rightarrow> Option.bind (r_scope body) device_from_scope),
               raw_scope = r_scope body, id_exp = r_exp body\<rparr>)))"

definition accept_reply ::
  "rstr list \<Rightarrow> rstr \<Rightarrow> mas_reply \<Rightarrow> IntrospectionError + AuthenticatedIdentity option" where
  "accept_reply audiences sname reply = (case reply of
      SendFailed \<Rightarrow> Inl HttpError
    | HttpReply status body \<Rightarrow>
        if status < 200 \<or> 300 \<le> status then Inl (Upstream status)
        else (case body of None \<Rightarrow> Inl HttpError | Some b \<Rightarrow> accept_body audiences sname b))"

section \<open>The cache\<close>

definition MAX_CACHE_TTL :: nat where "MAX_CACHE_TTL = 60"
definition CACHE_SOFT_CAP :: nat where "CACHE_SOFT_CAP = 256"

text \<open>\<open>exp - now\<close> on \<open>i64\<close> wraps in a release build.\<close>

definition wrap_i64 :: "int \<Rightarrow> int" where
  "wrap_i64 x = signed_take_bit 63 x"

definition cache_ttl :: "nat \<Rightarrow> int option \<Rightarrow> nat" where
  "cache_ttl unix_secs token_exp = (case token_exp of None \<Rightarrow> MAX_CACHE_TTL
     | Some e \<Rightarrow>
         (let now = min (int unix_secs) (2 ^ 63 - 1); remaining = max 0 (wrap_i64 (e - now))
          in min (nat remaining) MAX_CACHE_TTL))"

definition cache_lookup ::
  "instant \<Rightarrow> 'h \<Rightarrow> ('h, CacheEntry) hmap \<Rightarrow> AuthenticatedIdentity option" where
  "cache_lookup now key cache = (case hm_get cache key of None \<Rightarrow> None
     | Some e \<Rightarrow> if now < expires_at e then Some (c_identity e) else None)"

definition cache_insert ::
  "instant \<Rightarrow> nat \<Rightarrow> 'h \<Rightarrow> AuthenticatedIdentity \<Rightarrow> int option
     \<Rightarrow> ('h, CacheEntry) hmap \<Rightarrow> ('h, CacheEntry) hmap" where
  "cache_insert now unix_secs key ident token_exp cache =
     (let entry = \<lparr>c_identity = ident, expires_at = now + cache_ttl unix_secs token_exp\<rparr>;
          cache = (if CACHE_SOFT_CAP \<le> length cache
                   then hm_retain (\<lambda>_ e. now < expires_at e) cache else cache)
      in hm_insert cache key entry)"

text \<open>\<open>now\<close> and \<open>unix_secs\<close> are read at the lookup and, after the reply, again.\<close>

definition introspect ::
  "(rstr \<Rightarrow> 'h) \<Rightarrow> instant \<Rightarrow> (rstr \<Rightarrow> mas_reply) \<Rightarrow> instant \<Rightarrow> nat \<Rightarrow> rstr
     \<Rightarrow> 'h MasIntrospectionClient
     \<Rightarrow> (IntrospectionError + AuthenticatedIdentity option) \<times> 'h MasIntrospectionClient" where
  "introspect hash_token now post later unix_secs token c =
     (let key = hash_token token in
      case cache_lookup now key (mas_cache c) of
        Some hit \<Rightarrow> (Inr (Some hit), c)
      | None \<Rightarrow>
          (case accept_reply (expected_audiences c) (mas_server_name c) (post token) of
            Inr (Some ident) \<Rightarrow> (Inr (Some ident),
              c\<lparr>mas_cache := cache_insert later unix_secs key ident (id_exp ident) (mas_cache c)\<rparr>)
          | r \<Rightarrow> (r, c)))"

definition drop_token ::
  "(rstr \<Rightarrow> 'h) \<Rightarrow> rstr \<Rightarrow> 'h MasIntrospectionClient \<Rightarrow> 'h MasIntrospectionClient" where
  "drop_token hash_token token c = c\<lparr>mas_cache := hm_remove (mas_cache c) (hash_token token)\<rparr>"

section \<open>Which identities are accepted\<close>

definition aud_values :: "AudField \<Rightarrow> rstr set" where
  "aud_values a = (case a of Single s \<Rightarrow> {s} | Multi xs \<Rightarrow> set xs)"

lemma matches_any_iff: "matches_any a es \<longleftrightarrow> aud_values a \<inter> set es \<noteq> {}"
  by (cases a) (auto simp: matches_any_def aud_values_def list_ex_iff)

lemma accept_body_Some:
  "accept_body audiences sname b = Inr (Some ident) \<longleftrightarrow>
     r_active b \<and> (\<forall>a. r_aud b = Some a \<longrightarrow> aud_values a \<inter> set audiences \<noteq> {})
     \<and> has_matrix_scope (r_scope b) \<and> r_sub b = Some (mas_subject ident)
     \<and> (\<exists>u. r_username b = Some u \<and> mxid ident = ''@'' @ u @ '':'' @ sname)
     \<and> id_device ident = (case r_device_id b of Some d \<Rightarrow> Some d
          | None \<Rightarrow> Option.bind (r_scope b) device_from_scope)
     \<and> raw_scope ident = r_scope b \<and> id_exp ident = r_exp b"
  by (cases ident; cases "r_sub b"; cases "r_username b"; cases "r_aud b")
    (auto simp: accept_body_def matches_any_iff)

lemma accept_reply_Some:
  "accept_reply audiences sname r = Inr (Some ident) \<longleftrightarrow>
     (\<exists>st b. r = HttpReply st (Some b) \<and> 200 \<le> st \<and> st < 300
        \<and> accept_body audiences sname b = Inr (Some ident))"
  by (auto simp: accept_reply_def split: mas_reply.splits option.splits)

lemma introspect_cases:
  "fst (introspect h now post later u token c) = (case cache_lookup now (h token) (mas_cache c) of
      Some hit \<Rightarrow> Inr (Some hit)
    | None \<Rightarrow> accept_reply (expected_audiences c) (mas_server_name c) (post token))"
  by (auto simp: introspect_def Let_def split: option.splits sum.splits)

text \<open>C11: a token that is not cached yields an identity exactly when the server answered with a success
  status and an active response whose audience, if it has one, names this server with or without
  \<open>/mcp\<close>, whose scope has a Matrix API token, and which names a subject and a username; and
  the identity is made of that response alone.\<close>

theorem identity_only_from_accepted_reply:
  fixes asrv url sname :: rstr and h :: "rstr \<Rightarrow> 'h"
  defines "c \<equiv> new_mas_client asrv url sname"
  shows "fst (introspect h now post later u token c) = Inr (Some ident) \<longleftrightarrow>
    (\<exists>st b user. post token = HttpReply st (Some b) \<and> 200 \<le> st \<and> st < 300 \<and> r_active b
      \<and> (\<forall>a. r_aud b = Some a \<longrightarrow> url \<in> aud_values a \<or> url @ ''/mcp'' \<in> aud_values a)
      \<and> has_matrix_scope (r_scope b) \<and> r_username b = Some user
      \<and> r_sub b = Some (mas_subject ident) \<and> mxid ident = ''@'' @ user @ '':'' @ sname
      \<and> raw_scope ident = r_scope b \<and> id_exp ident = r_exp b
      \<and> id_device ident = (case r_device_id b of Some d \<Rightarrow> Some d
          | None \<Rightarrow> Option.bind (r_scope b) device_from_scope))"
proof -
  have "cache_lookup now (h token) (mas_cache c) = None"
    by (simp add: c_def new_mas_client_def cache_lookup_def)
  moreover have "expected_audiences c = [url @ ''/mcp'', url]" "mas_server_name c = sname"
    by (simp_all add: c_def new_mas_client_def mcp_resource_def)
  ultimately show ?thesis
    by (simp add: introspect_cases accept_reply_Some accept_body_Some Int_commute) blast
qed

definition good_body :: IntrospectionResponse where
  "good_body = \<lparr>r_active = True, r_sub = Some ''01J'', r_username = Some ''julian'',
     r_scope = Some ''openid urn:matrix:client:api:*'', r_aud = Some (Multi [''https://x/mcp'']),
     r_exp = Some 1000, r_device_id = Some ''DEV''\<rparr>"

lemma good_body_scope: "has_matrix_scope (r_scope good_body)"
  by code_simp

theorem identity_only_from_accepted_reply_witness:
  "fst (introspect (\<lambda>t. t) 0 (\<lambda>_. HttpReply 200 (Some good_body)) 1 990 ''tok''
     (new_mas_client ''https://mas'' ''https://x'' ''example.com'')) =
   Inr (Some \<lparr>mas_subject = ''01J'', mxid = ''@julian:example.com'', id_device = Some ''DEV'',
     raw_scope = r_scope good_body, id_exp = Some 1000\<rparr>)"
  unfolding identity_only_from_accepted_reply
  using good_body_scope by (auto simp: good_body_def aud_values_def)

section \<open>The device of a scope\<close>

lemma scan_device_foldl:
  "foldl scan_device (s, u) ts =
     (case filter (prefix STABLE_DEVICE) ts of [] \<Rightarrow> s
        | xs \<Rightarrow> Some (drop (length STABLE_DEVICE) (last xs)),
      case filter (\<lambda>t. \<not> prefix STABLE_DEVICE t \<and> prefix UNSTABLE_DEVICE t) ts of [] \<Rightarrow> u
        | xs \<Rightarrow> Some (drop (length UNSTABLE_DEVICE) (last xs)))"
proof (induction ts rule: rev_induct)
  case (snoc t ts)
  then show ?case
    by (simp add: scan_device_def split: list.splits)
qed simp

lemma prefixes_disjoint: "prefix STABLE_DEVICE t \<Longrightarrow> \<not> prefix UNSTABLE_DEVICE t"
proof
  assume "prefix STABLE_DEVICE t" "prefix UNSTABLE_DEVICE t"
  then have "prefix STABLE_DEVICE UNSTABLE_DEVICE \<or> prefix UNSTABLE_DEVICE STABLE_DEVICE"
    using prefix_same_cases by blast
  then show False by simp
qed

text \<open>The device of a scope is the last stable device token's, and without one the last unstable
  one's; the order between the two kinds does not matter.\<close>

theorem device_from_scope_spec:
  "device_from_scope scp =
    (let ts = split_whitespace scp; st = filter (prefix STABLE_DEVICE) ts;
         un = filter (prefix UNSTABLE_DEVICE) ts
     in if st \<noteq> [] then Some (drop (length STABLE_DEVICE) (last st))
        else if un \<noteq> [] then Some (drop (length UNSTABLE_DEVICE) (last un)) else None)"
proof -
  have "filter (\<lambda>t. \<not> prefix STABLE_DEVICE t \<and> prefix UNSTABLE_DEVICE t) ts
      = filter (prefix UNSTABLE_DEVICE) ts" for ts
    using prefixes_disjoint by (auto intro: filter_cong)
  then show ?thesis
    by (cases "filter (prefix STABLE_DEVICE) (split_whitespace scp)";
        cases "filter (prefix UNSTABLE_DEVICE) (split_whitespace scp)")
      (simp_all add: device_from_scope_def scan_device_foldl Let_def)
qed

section \<open>How long an acceptance lasts\<close>

text \<open>
  Replies arrive, tokens are dropped and the clocks advance in any order; \<open>accepted\<close> is the
  record of the accepted replies of the tokens not dropped since, with both clocks at the reply.
\<close>

record 'h MasState =
  ms_client :: "'h MasIntrospectionClient"
  ms_clock :: instant
  ms_unix :: nat
  accepted :: "('h \<times> IntrospectionResponse \<times> instant \<times> nat) list"

inductive mas_step :: "(rstr \<Rightarrow> 'h) \<Rightarrow> 'h MasState \<Rightarrow> 'h MasState \<Rightarrow> bool" for h where
  mas_tick: "mas_step h s (s\<lparr>ms_clock := ms_clock s + d, ms_unix := u\<rparr>)"
| mas_reply: "accept_body (expected_audiences (ms_client s)) (mas_server_name (ms_client s)) b = Inr (Some ident)
    \<Longrightarrow> mas_step h s (s\<lparr>ms_client := (ms_client s)\<lparr>mas_cache :=
          cache_insert (ms_clock s) (ms_unix s) (h token) ident (id_exp ident) (mas_cache (ms_client s))\<rparr>,
        accepted := (h token, b, ms_clock s, ms_unix s) # accepted s\<rparr>)"
| mas_drop: "mas_step h s (s\<lparr>ms_client := drop_token h token (ms_client s),
        accepted := filter (\<lambda>(k, _). k \<noteq> h token) (accepted s)\<rparr>)"

inductive mas_reachable :: "(rstr \<Rightarrow> 'h) \<Rightarrow> 'h MasState \<Rightarrow> bool" for h where
  mas_init: "mas_reachable h \<lparr>ms_client = new_mas_client asrv url sname, ms_clock = t, ms_unix = u,
     accepted = []\<rparr>"
| mas_next: "mas_reachable h s \<Longrightarrow> mas_step h s s' \<Longrightarrow> mas_reachable h s'"

text \<open>Every entry comes from an accepted reply that was not dropped, and expires with it.\<close>

definition mas_inv :: "'h MasState \<Rightarrow> bool" where
  "mas_inv s \<longleftrightarrow> hm_ok (mas_cache (ms_client s))
     \<and> (\<forall>k e. hm_get (mas_cache (ms_client s)) k = Some e \<longrightarrow>
          (\<exists>b t u. (k, b, t, u) \<in> set (accepted s)
             \<and> accept_body (expected_audiences (ms_client s)) (mas_server_name (ms_client s)) b
                 = Inr (Some (c_identity e))
             \<and> expires_at e = t + cache_ttl u (r_exp b)))"

lemma cache_insert_get:
  "hm_ok m \<Longrightarrow> hm_get (cache_insert now u k ident x m) i = Some e
    \<Longrightarrow> i = k \<and> e = \<lparr>c_identity = ident, expires_at = now + cache_ttl u x\<rparr> \<or> hm_get m i = Some e"
  by (auto simp: cache_insert_def Let_def hm_simps split: if_splits option.splits)

lemma cache_insert_ok: "hm_ok m \<Longrightarrow> hm_ok (cache_insert now u k ident x m)"
  by (simp add: cache_insert_def Let_def hm_simps)

lemma mas_inv_step: "mas_step h s s' \<Longrightarrow> mas_inv s \<Longrightarrow> mas_inv s'"
proof (induction rule: mas_step.induct)
  case (mas_tick s d u)
  then show ?case by (simp add: mas_inv_def)
next
  case (mas_reply s b ident token)
  from mas_reply(2) have ok: "hm_ok (mas_cache (ms_client s))" by (simp add: mas_inv_def)
  from mas_reply(1) have x: "id_exp ident = r_exp b" by (simp add: accept_body_Some)
  show ?case
    unfolding mas_inv_def
  proof (intro conjI allI impI, goal_cases)
    case 1
    with ok show ?case by (simp add: cache_insert_ok)
  next
    case (2 k e)
    then have "hm_get (cache_insert (ms_clock s) (ms_unix s) (h token) ident (id_exp ident)
        (mas_cache (ms_client s))) k = Some e" by simp
    from cache_insert_get [OF ok this] show ?case
    proof (elim disjE conjE)
      assume "hm_get (mas_cache (ms_client s)) k = Some e"
      with mas_reply(2) show ?thesis by (simp add: mas_inv_def) blast
    qed (use mas_reply(1) x in auto)
  qed
next
  case (mas_drop s token)
  then have "\<And>k e. hm_get (mas_cache (ms_client s)) k = Some e \<Longrightarrow> \<exists>b t u. (k, b, t, u) \<in> set (accepted s)
      \<and> accept_body (expected_audiences (ms_client s)) (mas_server_name (ms_client s)) b
          = Inr (Some (c_identity e)) \<and> expires_at e = t + cache_ttl u (r_exp b)"
    and "hm_ok (mas_cache (ms_client s))"
    by (auto simp: mas_inv_def)
  then show ?case
    by (fastforce simp: mas_inv_def drop_token_def hm_simps split: if_splits)
qed

lemma mas_reachable_inv: "mas_reachable h s \<Longrightarrow> mas_inv s"
proof (induction rule: mas_reachable.induct)
  case (mas_init asrv url sname t u)
  then show ?case by (simp add: mas_inv_def new_mas_client_def)
qed (rule mas_inv_step)

lemma cache_ttl_le: "cache_ttl u x \<le> 60"
  by (simp add: cache_ttl_def MAX_CACHE_TTL_def Let_def split: option.splits)

text \<open>However replies, drops and lookups interleave, an identity comes from a reply accepted for this
  token's hash now, or from one accepted less than a minute ago, within the lifetime that reply
  gave the token, and with no drop of the token since.\<close>

theorem identity_is_fresh:
  assumes "mas_reachable h s"
    and "fst (introspect h (ms_clock s) post later v token (ms_client s)) = Inr (Some ident)"
  shows "accept_reply (expected_audiences (ms_client s)) (mas_server_name (ms_client s)) (post token)
       = Inr (Some ident)
    \<or> (\<exists>b t u. (h token, b, t, u) \<in> set (accepted s) \<and> ms_clock s < t + 60
        \<and> ms_clock s < t + cache_ttl u (r_exp b)
        \<and> accept_body (expected_audiences (ms_client s)) (mas_server_name (ms_client s)) b = Inr (Some ident))"
proof (cases "cache_lookup (ms_clock s) (h token) (mas_cache (ms_client s))")
  case None
  with assms(2) show ?thesis by (simp add: introspect_cases)
next
  case (Some hit)
  with assms(2) have "hit = ident" by (simp add: introspect_cases)
  with Some obtain e where e: "hm_get (mas_cache (ms_client s)) (h token) = Some e"
    "ms_clock s < expires_at e" "c_identity e = ident"
    by (auto simp: cache_lookup_def split: option.splits if_splits)
  with mas_reachable_inv [OF assms(1)] obtain b t u where
    "(h token, b, t, u) \<in> set (accepted s)" "expires_at e = t + cache_ttl u (r_exp b)"
    "accept_body (expected_audiences (ms_client s)) (mas_server_name (ms_client s)) b = Inr (Some ident)"
    unfolding mas_inv_def by blast
  moreover with e(2) cache_ttl_le [of u "r_exp b"] have "ms_clock s < t + 60" by linarith
  ultimately show ?thesis using e(2) by auto
qed

theorem identity_is_fresh_witness:
  "(\<exists>ident. accept_reply [''https://x/mcp'', ''https://x''] ''example.com'' (HttpReply 200 (Some good_body))
     = Inr (Some ident))"
proof -
  let ?s = "\<lparr>ms_client = new_mas_client ''https://mas'' ''https://x'' ''example.com'', ms_clock = 0,
    ms_unix = 990, accepted = []\<rparr> :: rstr MasState"
  let ?post = "\<lambda>_. HttpReply 200 (Some good_body)"
  obtain ident where i: "accept_body [''https://x/mcp'', ''https://x''] ''example.com'' good_body = Inr (Some ident)"
    using good_body_scope by (simp add: accept_body_def good_body_def matches_any_def)
  then have "fst (introspect (\<lambda>t. t) (ms_clock ?s) ?post 1 990 ''tok'' (ms_client ?s)) = Inr (Some ident)"
    by (simp add: introspect_cases cache_lookup_def new_mas_client_def mcp_resource_def accept_reply_def)
  from identity_is_fresh [OF mas_init this] show ?thesis
    by (auto simp: new_mas_client_def mcp_resource_def)
qed

lemma wrap_i64_small: "- (2 ^ 63) \<le> x \<Longrightarrow> x < 2 ^ 63 \<Longrightarrow> wrap_i64 x = x"
  unfolding wrap_i64_def by (rule signed_take_bit_int_eq_self) simp_all

lemma wrap_i64_below:
  assumes "- (2 ^ 64) < x" and "x < - (2 ^ 63)"
  shows "wrap_i64 x = x + 2 ^ 64"
proof -
  have "wrap_i64 x = signed_take_bit 63 (x + 2 ^ 64)"
    unfolding wrap_i64_def signed_take_bit_eq_iff_take_bit_eq
    by (simp add: take_bit_eq_mod flip: numeral_plus_one)
  also have "\<dots> = x + 2 ^ 64"
    by (rule signed_take_bit_int_eq_self) (use assms in simp_all)
  finally show ?thesis .
qed

text \<open>A token is cached for its remaining lifetime up to a minute, an expired one not at all; but the
  64-bit subtraction wraps for an expiry below the least value that many seconds in, and such a
  long-expired token is cached for the full minute.\<close>

theorem cache_ttl_spec:
  assumes "u < 2 ^ 62" and "- (2 ^ 63) \<le> e" and "e < 2 ^ 63"
  shows "cache_ttl u (Some e) = (if e < int u - 2 ^ 63 then 60 else min 60 (nat (e - int u)))"
proof -
  have u: "min (int u) 9223372036854775807 = int u" using assms(1) by simp
  show ?thesis
  proof (cases "e < int u - 2 ^ 63")
    case True
    with assms have "wrap_i64 (e - int u) = e - int u + 2 ^ 64"
      by (intro wrap_i64_below) auto
    moreover have "60 \<le> e - int u + 2 ^ 64" using assms by simp
    ultimately show ?thesis
      using True by (simp add: cache_ttl_def u MAX_CACHE_TTL_def Let_def)
  next
    case False
    with assms have "wrap_i64 (e - int u) = e - int u"
      by (intro wrap_i64_small) auto
    with False show ?thesis
      by (simp add: cache_ttl_def u MAX_CACHE_TTL_def Let_def min.commute)
  qed
qed

theorem cache_ttl_spec_witness:
  "cache_ttl 1000 (Some 1010) = 10 \<and> cache_ttl 1000 (Some (- (2 ^ 63))) = 60"
  using cache_ttl_spec [of 1000 1010] cache_ttl_spec [of 1000 "- (2 ^ 63)"] by simp

end
