(* ===== verification/Auth.thy ===== *)
theory Auth
  imports Introspection LastUsed RateLimit
begin

text \<open>
  \<open>src/auth.rs\<close>, \<open>src/token_introspect.rs\<close> and the middleware stack of
  \<open>src/main.rs\<close>: what a request to the protected routes must carry, what it is given,
  and what is recorded of it. The record \<open>AuthEnv\<close> holds what one request meets outside
  the program: the clocks, the reply of the authorization server, the hashes and the address parser.
\<close>

section \<open>Requests\<close>

record Request =
  req_method :: rstr
  req_path :: rstr
  h_authorization :: "rstr option"
  h_forwarded :: "rstr option"
  h_session :: bool
  ext_identity :: "AuthenticatedIdentity option"
  ext_token :: "rstr option"

record ('h, 'ip) AuthEnv =
  e_hash_token :: "rstr \<Rightarrow> 'h"
  e_token_hash :: "rstr \<Rightarrow> rstr"
  e_parse_ip :: "rstr \<Rightarrow> 'ip option"
  e_now :: instant
  e_later :: instant
  e_unix :: nat
  e_post :: "rstr \<Rightarrow> mas_reply"

record ('h, 'ip) AuthState =
  au_config :: Config
  au_mas :: "'h MasIntrospectionClient"
  au_last_used :: "'ip tracker"
  au_chain :: nat

record 'ip TokenIntrospectResponse =
  ti_mxid :: rstr
  ti_device_id :: "rstr option"
  ti_scope :: "rstr option"
  ti_exp :: "int option"
  ti_token_hash :: rstr
  ti_last_used :: "'ip LastUsedRecord option"

datatype 'ip Response = Unauthorized rstr | InternalError rstr | TooManyHandshakes nat
  | MethodNotAllowed | TokenInfo "'ip TokenIntrospectResponse" | Service Request

text \<open>One \<open>introspect\<close> event of the audit log: the short hash, the outcome and the user.\<close>

type_synonym audit_event = "rstr \<times> rstr \<times> rstr option"

section \<open>The bearer\<close>

text \<open>\<open>HeaderValue::to_str\<close> and \<open>HeaderValue::from_str\<close> on the bytes.\<close>

definition header_to_str :: "rstr \<Rightarrow> rstr option" where
  "header_to_str v =
     (if list_all (\<lambda>c. 32 \<le> byte_of c \<and> byte_of c < 127 \<or> byte_of c = 9) v then Some v else None)"

definition header_from_str :: "rstr \<Rightarrow> rstr option" where
  "header_from_str s =
     (if list_all (\<lambda>c. 32 \<le> byte_of c \<and> byte_of c \<noteq> 127 \<or> byte_of c = 9) s then Some s else None)"

definition extract_bearer :: "rstr option \<Rightarrow> rstr option" where
  "extract_bearer header = (case Option.bind header header_to_str of None \<Rightarrow> None
     | Some raw \<Rightarrow>
        (case split_once (CHR '' '') (trim raw) of None \<Rightarrow> None
         | Some (scheme, val) \<Rightarrow>
            if scheme \<noteq> ''Bearer'' then None
            else if trim val = [] then None else Some (trim val)))"

definition unauthorized :: "Config \<Rightarrow> 'ip Response" where
  "unauthorized cfg = Unauthorized (case header_from_str (www_authenticate_header cfg) of
      Some v \<Rightarrow> v | None \<Rightarrow> ''Bearer'')"

definition UPSTREAM_ERROR :: rstr where
  "UPSTREAM_ERROR = ''introspection upstream error'' @ [CHR 0x0A]"

section \<open>The middleware\<close>

text \<open>The left value is the early response, the right one the request handed on.\<close>

definition bearer_auth ::
  "('h, 'ip) AuthEnv \<Rightarrow> Request \<Rightarrow> ('h, 'ip) AuthState
     \<Rightarrow> ('ip Response + Request) \<times> ('h, 'ip) AuthState \<times> audit_event list" where
  "bearer_auth env req st =
     (case extract_bearer (h_authorization req) of
        None \<Rightarrow> (Inl (unauthorized (au_config st)), st, [])
      | Some token \<Rightarrow>
          (let token_hash = e_token_hash env token;
               is_introspect_path = (req_path req = ''/token/introspect'');
               (verdict, mas) = introspect (e_hash_token env) (e_now env) (e_post env) (e_later env)
                  (e_unix env) token (au_mas st);
               st = st\<lparr>au_mas := mas\<rparr>
           in case verdict of
             Inr (Some ident) \<Rightarrow>
               (let xff = Option.bind (h_forwarded req) header_to_str;
                    hops = trusted_hops (au_config st);
                    st = (if is_introspect_path then st
                          else st\<lparr>au_chain := snd (observe_ingress_chain xff (au_chain st)),
                            au_last_used := record_use (e_later env) token_hash
                              (parse_client_ip (e_parse_ip env) xff hops) (au_last_used st)\<rparr>)
                in (Inr (req\<lparr>ext_identity := Some ident, ext_token := Some token\<rparr>), st,
                    [(token_hash, ''active'', Some (mxid ident))]))
           | Inr None \<Rightarrow> (Inl (unauthorized (au_config st)), st, [(token_hash, ''inactive'', None)])
           | Inl (AudienceMismatch expected) \<Rightarrow>
               (Inl (unauthorized (au_config st)), st, [(token_hash, ''inactive'', None)])
           | Inl _ \<Rightarrow> (Inl (InternalError UPSTREAM_ERROR), st, [(token_hash, ''error'', None)])))"

definition is_fresh_mcp_session_request :: "Request \<Rightarrow> bool" where
  "is_fresh_mcp_session_request req \<longleftrightarrow> req_method req = ''POST'' \<and> \<not> h_session req"

definition initialize_rate_limit ::
  "(Quota \<Rightarrow> 'b) \<Rightarrow> (instant \<Rightarrow> 'b \<Rightarrow> bool \<times> 'b) \<Rightarrow> ('h, 'ip) AuthEnv \<Rightarrow> Request
     \<Rightarrow> 'b InitializeLimiter \<Rightarrow> ('ip Response + Request) \<times> 'b InitializeLimiter" where
  "initialize_rate_limit fresh tk env req lim =
     (if \<not> is_fresh_mcp_session_request req then (Inr req, lim)
      else case ext_token req of
        None \<Rightarrow> (Inl (InternalError ''authenticated request missing token extension''), lim)
      | Some token \<Rightarrow> (case ext_identity req of
          None \<Rightarrow> (Inl (InternalError ''authenticated request missing identity extension''), lim)
        | Some ident \<Rightarrow>
            (let (ok, lim) = initialize_check fresh tk (e_later env) (e_token_hash env token)
                   (Some (mas_subject ident)) lim
             in if ok then (Inr req, lim)
                else (Inl (TooManyHandshakes INITIALIZE_REFILL_INTERVAL), lim))))"

definition token_introspect_handler ::
  "('h, 'ip) AuthEnv \<Rightarrow> Request \<Rightarrow> ('h, 'ip) AuthState \<Rightarrow> 'ip Response" where
  "token_introspect_handler env req st = (case ext_identity req of
      None \<Rightarrow> InternalError ''auth middleware did not populate identity''
    | Some ident \<Rightarrow> (case ext_token req of
        None \<Rightarrow> InternalError ''auth middleware did not populate access token''
      | Some token \<Rightarrow>
          (let th = e_token_hash env token
           in TokenInfo \<lparr>ti_mxid = mxid ident, ti_device_id = id_device ident,
                ti_scope = raw_scope ident, ti_exp = id_exp ident, ti_token_hash = th,
                ti_last_used = get_last_used (au_last_used st) th\<rparr>)))"

text \<open>
  The stack of \<open>mcp_routes\<close>: authentication, then the handshake limit, then the route;
  \<open>Service\<close> is the request as \<open>/mcp\<close> or \<open>/channel\<close> receives it.
\<close>

definition serve ::
  "(Quota \<Rightarrow> 'b) \<Rightarrow> (instant \<Rightarrow> 'b \<Rightarrow> bool \<times> 'b) \<Rightarrow> ('h, 'ip) AuthEnv \<Rightarrow> Request
     \<Rightarrow> ('h, 'ip) AuthState \<times> 'b InitializeLimiter
     \<Rightarrow> 'ip Response \<times> ('h, 'ip) AuthState \<times> 'b InitializeLimiter" where
  "serve fresh tk env req sl =
     (let (r, st, _) = bearer_auth env req (fst sl) in
      case r of Inl resp \<Rightarrow> (resp, st, snd sl)
      | Inr req \<Rightarrow>
          (let (r, lim) = initialize_rate_limit fresh tk env req (snd sl) in
           case r of Inl resp \<Rightarrow> (resp, st, lim)
           | Inr req \<Rightarrow>
               (if req_path req \<noteq> ''/token/introspect'' then (Service req, st, lim)
                else if req_method req \<in> {''GET'', ''HEAD''}
                then (token_introspect_handler env req st, st, lim)
                else (MethodNotAllowed, st, lim))))"

section \<open>What counts as a bearer\<close>

lemma header_to_str_Some: "header_to_str v = Some s \<longleftrightarrow> s = v \<and>
    (\<forall>c\<in>set v. 32 \<le> byte_of c \<and> byte_of c < 127 \<or> byte_of c = 9)"
  by (auto simp: header_to_str_def list_all_iff)

lemma extract_bearer_Some:
  "extract_bearer h = Some token \<longleftrightarrow> (\<exists>raw rest. h = Some raw \<and> header_to_str raw = Some raw
     \<and> trim raw = ''Bearer '' @ rest \<and> token = trim rest \<and> token \<noteq> [])"
proof -
  have "split_once (CHR '' '') t = Some (''Bearer'', rest) \<longleftrightarrow> t = ''Bearer '' @ rest" for t rest
    by (auto simp: split_once_join)
  note so = this
  show ?thesis
  proof (cases h)
    case (Some raw)
    show ?thesis
    proof (cases "header_to_str raw")
      case None
      with Some show ?thesis by (simp add: extract_bearer_def)
    next
      case (Some r)
      then have raw: "header_to_str raw = Some raw" by (simp add: header_to_str_Some)
      have "extract_bearer h = Some token \<longleftrightarrow> (\<exists>rest. split_once (CHR '' '') (trim raw) = Some (''Bearer'', rest)
          \<and> token = trim rest \<and> token \<noteq> [])"
        using raw \<open>h = Some raw\<close>
        by (cases "split_once (CHR '' '') (trim raw)") (auto simp: extract_bearer_def split: if_splits)
      then show ?thesis
        unfolding so using raw \<open>h = Some raw\<close> by simp
    qed
  qed (simp add: extract_bearer_def)
qed

lemma set_trim: "set (trim s) \<subseteq> set s"
proof -
  have "set (trim_end t) \<subseteq> set t" for t
    using set_mono_prefix [OF trim_end_prefix] .
  moreover have "set (trim_start s) \<subseteq> set s"
    using set_mono_suffix [OF trim_start_suffix] .
  ultimately show ?thesis by (auto simp: trim_def)
qed

lemma trim_clean: "ws_head s = 0 \<Longrightarrow> ws_last s = 0 \<Longrightarrow> trim s = s"
  by (simp add: trim_def trim_start.simps trim_end.simps)

text \<open>A token is taken only from a header of visible ASCII that reads, after trimming,
  \<open>Bearer\<close>, one space and the token, and it is that token trimmed, non-empty and of visible
  ASCII; and a clean token sent that way is the token received.\<close>

theorem extract_bearer_exact:
  "(extract_bearer h = Some token \<longrightarrow>
      (\<exists>raw rest. h = Some raw \<and> trim raw = ''Bearer '' @ rest \<and> token = trim rest \<and> token \<noteq> []
        \<and> (\<forall>c\<in>set token. 32 \<le> byte_of c \<and> byte_of c < 127 \<or> byte_of c = 9)))
   \<and> (clean \<noteq> [] \<and> ws_head clean = 0 \<and> ws_last clean = 0 \<and> ws_last (''Bearer '' @ clean) = 0
        \<and> (\<forall>c\<in>set clean. 32 \<le> byte_of c \<and> byte_of c < 127)
      \<longrightarrow> extract_bearer (Some (''Bearer '' @ clean)) = Some clean)"
proof (intro conjI impI)
  assume "extract_bearer h = Some token"
  then obtain raw rest where r: "h = Some raw" "header_to_str raw = Some raw"
    "trim raw = ''Bearer '' @ rest" "token = trim rest" "token \<noteq> []"
    by (auto simp: extract_bearer_Some)
  have "set token \<subseteq> set raw"
    using set_trim [of raw] set_trim [of rest] r(3,4) by auto
  with r(2) have "\<forall>c\<in>set token. 32 \<le> byte_of c \<and> byte_of c < 127 \<or> byte_of c = 9"
    by (auto simp: header_to_str_Some)
  with r show "\<exists>raw rest. h = Some raw \<and> trim raw = ''Bearer '' @ rest \<and> token = trim rest \<and> token \<noteq> []
      \<and> (\<forall>c\<in>set token. 32 \<le> byte_of c \<and> byte_of c < 127 \<or> byte_of c = 9)"
    by blast
next
  assume c: "clean \<noteq> [] \<and> ws_head clean = 0 \<and> ws_last clean = 0 \<and> ws_last (''Bearer '' @ clean) = 0
      \<and> (\<forall>c\<in>set clean. 32 \<le> byte_of c \<and> byte_of c < 127)"
  have "ws_head (''Bearer '' @ clean) = 0"
    by (simp add: ws_head_def ws_seqs_def)
  with c have "trim (''Bearer '' @ clean) = ''Bearer '' @ clean" "trim clean = clean"
    by (auto intro!: trim_clean)
  moreover have "header_to_str (''Bearer '' @ clean) = Some (''Bearer '' @ clean)"
    using c by (auto simp: header_to_str_Some)
  ultimately show "extract_bearer (Some (''Bearer '' @ clean)) = Some clean"
    using c unfolding extract_bearer_Some
    by (intro exI [of _ "''Bearer '' @ clean"] exI [of _ clean]) simp
qed

theorem extract_bearer_exact_witness:
  "extract_bearer (Some ''Bearer mat_1'') = Some ''mat_1''"
proof -
  have "ws_head ''mat_1'' = 0" "ws_last ''mat_1'' = 0" "ws_last (''Bearer '' @ ''mat_1'') = 0"
    by code_simp+
  with extract_bearer_exact [of None "[]" "''mat_1''"] show ?thesis by simp
qed

section \<open>What the middleware lets through\<close>

text \<open>The verdict on a request with a bearer.\<close>

abbreviation verdict_of ::
  "('h, 'ip) AuthEnv \<Rightarrow> rstr \<Rightarrow> ('h, 'ip) AuthState \<Rightarrow> IntrospectionError + AuthenticatedIdentity option" where
  "verdict_of env token st \<equiv> fst (introspect (e_hash_token env) (e_now env) (e_post env) (e_later env)
     (e_unix env) token (au_mas st))"

lemma bearer_auth_forwards:
  "fst (bearer_auth env req st) = Inr req' \<longleftrightarrow>
    (\<exists>token ident. extract_bearer (h_authorization req) = Some token
       \<and> verdict_of env token st = Inr (Some ident)
       \<and> req' = req\<lparr>ext_identity := Some ident, ext_token := Some token\<rparr>)"
  by (cases "extract_bearer (h_authorization req)")
    (auto simp: bearer_auth_def Let_def case_prod_unfold
      split: sum.splits option.splits IntrospectionError.splits)

lemma bearer_auth_last_used:
  "au_last_used (fst (snd (bearer_auth env req st))) =
     (case fst (bearer_auth env req st) of Inl _ \<Rightarrow> au_last_used st
      | Inr req' \<Rightarrow>
         if req_path req = ''/token/introspect'' then au_last_used st
         else record_use (e_later env) (e_token_hash env (the (ext_token req')))
            (parse_client_ip (e_parse_ip env) (Option.bind (h_forwarded req) header_to_str)
               (trusted_hops (au_config st))) (au_last_used st))"
  by (cases "extract_bearer (h_authorization req)")
    (auto simp: bearer_auth_def Let_def case_prod_unfold
      split: sum.splits option.splits IntrospectionError.splits)

lemma bearer_auth_config: "au_config (fst (snd (bearer_auth env req st))) = au_config st"
  by (cases "extract_bearer (h_authorization req)")
    (auto simp: bearer_auth_def Let_def case_prod_unfold
      split: sum.splits option.splits IntrospectionError.splits)

lemma bearer_auth_rejects:
  "fst (bearer_auth env req st) = Inl resp \<Longrightarrow>
    resp = unauthorized (au_config st)
    \<or> resp = InternalError UPSTREAM_ERROR \<and> (\<exists>token. extract_bearer (h_authorization req) = Some token
        \<and> (verdict_of env token st = Inl HttpError \<or> (\<exists>n. verdict_of env token st = Inl (Upstream n))))"
  by (cases "extract_bearer (h_authorization req)")
    (auto simp: bearer_auth_def Let_def case_prod_unfold
      split: sum.splits option.splits IntrospectionError.splits)

lemma initialize_rate_limit_cases:
  "fst (initialize_rate_limit fresh tk env req lim) = Inr req' \<Longrightarrow> req' = req"
  "ext_token req = Some token \<Longrightarrow> ext_identity req = Some ident
    \<Longrightarrow> fst (initialize_rate_limit fresh tk env req lim) = Inl resp \<Longrightarrow> resp = TooManyHandshakes 120"
  by (auto simp: initialize_rate_limit_def Let_def case_prod_unfold INITIALIZE_REFILL_INTERVAL_def
      split: if_splits option.splits)

lemma serve_cases:
  obtains resp where "fst (bearer_auth env req (fst sl)) = Inl resp"
      "serve fresh tk env req sl = (resp, fst (snd (bearer_auth env req (fst sl))), snd sl)"
  | token ident req' where "extract_bearer (h_authorization req) = Some token"
      "verdict_of env token (fst sl) = Inr (Some ident)"
      "req' = req\<lparr>ext_identity := Some ident, ext_token := Some token\<rparr>"
      "fst (bearer_auth env req (fst sl)) = Inr req'"
      "fst (serve fresh tk env req sl) =
         (if fst (initialize_rate_limit fresh tk env req' (snd sl)) \<noteq> (Inr req' :: 'b Response + Request)
          then TooManyHandshakes 120
          else if req_path req \<noteq> ''/token/introspect'' then Service req'
          else if req_method req \<in> {''GET'', ''HEAD''}
          then token_introspect_handler env req' (fst (snd (bearer_auth env req (fst sl))))
          else MethodNotAllowed)"
      "fst (snd (serve fresh tk env req sl)) = fst (snd (bearer_auth env req (fst sl)))"
      "snd (snd (serve fresh tk env req sl)) =
         snd (initialize_rate_limit fresh tk env req' (snd sl) :: ('b Response + Request) \<times> _)"
proof (cases "fst (bearer_auth env req (fst sl))")
  case (Inl resp)
  then show ?thesis
    using that(1) by (simp add: serve_def case_prod_unfold)
next
  case (Inr req')
  then obtain token ident where t: "extract_bearer (h_authorization req) = Some token"
      "verdict_of env token (fst sl) = Inr (Some ident)"
      "req' = req\<lparr>ext_identity := Some ident, ext_token := Some token\<rparr>"
    by (auto simp: bearer_auth_forwards)
  let ?i = "initialize_rate_limit fresh tk env req' (snd sl) :: ('b Response + Request) \<times> _"
  show ?thesis
  proof (cases "fst ?i")
    case i: (Inl resp)
    then have "resp = TooManyHandshakes 120"
      by (rule initialize_rate_limit_cases(2) [rotated 2]) (simp_all add: t(3))
    with i Inr t show ?thesis
      by (intro that(2) [OF t Inr]) (simp_all add: serve_def case_prod_unfold Let_def)
  next
    case i: (Inr req'')
    then have "req'' = req'" by (rule initialize_rate_limit_cases(1))
    with i Inr t show ?thesis
      by (intro that(2) [OF t Inr]) (simp_all add: serve_def case_prod_unfold Let_def)
  qed
qed

section \<open>Properties of the protected routes\<close>

lemma token_introspect_handler_populated:
  "ext_token req = Some token \<Longrightarrow> ext_identity req = Some ident \<Longrightarrow>
    token_introspect_handler env req st = TokenInfo
      \<lparr>ti_mxid = mxid ident, ti_device_id = id_device ident, ti_scope = raw_scope ident,
       ti_exp = id_exp ident, ti_token_hash = e_token_hash env token,
       ti_last_used = get_last_used (au_last_used st) (e_token_hash env token)\<rparr>"
  by (simp add: token_introspect_handler_def Let_def)


section \<open>The audit signal\<close>

lemma serve_last_used:
  "au_last_used (fst (snd (serve fresh tk env req sl))) =
     au_last_used (fst (snd (bearer_auth env req (fst sl))))"
  by (cases rule: serve_cases [of env req sl fresh tk]) simp_all

text \<open>A run of requests through the stack, each with what it meets outside.\<close>

definition serve_all ::
  "(Quota \<Rightarrow> 'b) \<Rightarrow> (instant \<Rightarrow> 'b \<Rightarrow> bool \<times> 'b) \<Rightarrow> (('h, 'ip) AuthEnv \<times> Request) list
     \<Rightarrow> ('h, 'ip) AuthState \<times> 'b InitializeLimiter \<Rightarrow> ('h, 'ip) AuthState \<times> 'b InitializeLimiter" where
  "serve_all fresh tk rs sl = foldl (\<lambda>sl (env, req). snd (serve fresh tk env req sl)) sl rs"

lemma serve_all_introspections:
  "list_all (\<lambda>(env, req). req_path req = ''/token/introspect'') rs
    \<Longrightarrow> au_last_used (fst (serve_all fresh tk rs sl)) = au_last_used (fst sl)"
proof (induction rs arbitrary: sl)
  case (Cons r rs)
  obtain env req where r: "r = (env, req)" by (cases r)
  with Cons.prems have "au_last_used (fst (snd (serve fresh tk env req sl))) = au_last_used (fst sl)"
    by (simp add: serve_last_used bearer_auth_last_used split: sum.splits)
  with Cons r show ?case by (simp add: serve_all_def)
qed (simp add: serve_all_def)

text \<open>After a use of a bearer, however many introspections by anyone come between, the endpoint tells
  that bearer the time of that use and the address the trusted hops give for it; asking never
  overwrites the answer.\<close>

theorem introspection_reports_last_real_use:
  assumes "fst (serve fresh tk env req sl) = Service req'"
    and "list_all (\<lambda>(e, q). req_path q = ''/token/introspect'') rs"
    and "fst (serve fresh tk env2 req2 (serve_all fresh tk rs (snd (serve fresh tk env req sl)))) = TokenInfo r"
    and "e_token_hash env2 (the (extract_bearer (h_authorization req2)))
       = e_token_hash env (the (extract_bearer (h_authorization req)))"
  shows "ti_last_used r = Some \<lparr>used_at = e_later env,
      used_ip = parse_client_ip (e_parse_ip env) (Option.bind (h_forwarded req) header_to_str)
        (trusted_hops (au_config (fst sl)))\<rparr>"
proof -
  let ?sl1 = "snd (serve fresh tk env req sl)"
  let ?sl2 = "serve_all fresh tk rs ?sl1"
  let ?use = "\<lparr>used_at = e_later env,
      used_ip = parse_client_ip (e_parse_ip env) (Option.bind (h_forwarded req) header_to_str)
        (trusted_hops (au_config (fst sl)))\<rparr>"
  from assms(1) obtain token ident where t: "extract_bearer (h_authorization req) = Some token"
    "fst (bearer_auth env req (fst sl)) = Inr (req\<lparr>ext_identity := Some ident, ext_token := Some token\<rparr>)"
    "req_path req \<noteq> ''/token/introspect''"
    by (cases rule: serve_cases [of env req sl fresh tk])
      (auto simp: token_introspect_handler_def Let_def unauthorized_def
        dest!: bearer_auth_rejects split: if_splits)
  have use: "get_last_used (au_last_used (fst ?sl1)) (e_token_hash env token) = Some ?use"
    using t by (simp add: serve_last_used bearer_auth_last_used record_use_def put_last_used_def
        get_last_used_def hm_simps)
  have "au_last_used (fst ?sl2) = au_last_used (fst ?sl1)"
    using assms(2) by (rule serve_all_introspections)
  moreover from assms(3) obtain token2 where t2: "extract_bearer (h_authorization req2) = Some token2"
    "ti_last_used r = get_last_used (au_last_used (fst ?sl2)) (e_token_hash env2 token2)"
    by (cases rule: serve_cases [of env2 req2 ?sl2 fresh tk])
      (auto simp: token_introspect_handler_def Let_def unauthorized_def bearer_auth_last_used
        dest!: bearer_auth_rejects split: if_splits)
  ultimately show ?thesis using use assms(4) t(1) by simp
qed

text \<open>A bucket that never refuses, and what one request meets: a token accepted as \<open>good_body\<close>.\<close>

definition demo_env :: "instant \<Rightarrow> (rstr, rstr) AuthEnv" where
  "demo_env t = \<lparr>e_hash_token = (\<lambda>x. x), e_token_hash = (\<lambda>x. x), e_parse_ip = Some, e_now = t,
     e_later = t, e_unix = 900, e_post = (\<lambda>_. HttpReply 200 (Some good_body))\<rparr>"

definition demo_state :: "(rstr, rstr) AuthState \<times> nat InitializeLimiter" where
  "demo_state = (\<lparr>au_config = base_config,
     au_mas = new_mas_client ''https://mas'' ''https://x'' ''example.com'', au_last_used = [],
     au_chain = 0\<rparr>, new_initialize_limiter 120 16)"

definition demo_request :: "rstr \<Rightarrow> rstr \<Rightarrow> Request" where
  "demo_request m p = \<lparr>req_method = m, req_path = p, h_authorization = Some ''Bearer mat_1'',
     h_forwarded = Some ''6.6.6.6, 203.0.113.9'', h_session = False, ext_identity = None, ext_token = None\<rparr>"

definition demo_serve where
  "demo_serve t m p = serve burst take_once (demo_env t) (demo_request m p)"

theorem introspection_reports_last_real_use_witness:
  "\<exists>r. fst (demo_serve 9 ''GET'' ''/token/introspect''
      (snd (demo_serve 5 ''POST'' ''/mcp'' demo_state))) = TokenInfo r
     \<and> ti_last_used r = Some \<lparr>used_at = 5, used_ip = Some ''203.0.113.9''\<rparr>"
proof -
  have "(case fst (demo_serve 5 ''POST'' ''/mcp'' demo_state) of Service _ \<Rightarrow> True | _ \<Rightarrow> False)"
    by code_simp
  then obtain q where q: "fst (demo_serve 5 ''POST'' ''/mcp'' demo_state) = Service q"
    by (auto split: Response.splits)
  have "(case fst (demo_serve 9 ''GET'' ''/token/introspect''
      (snd (demo_serve 5 ''POST'' ''/mcp'' demo_state))) of TokenInfo _ \<Rightarrow> True | _ \<Rightarrow> False)"
    by code_simp
  then obtain r where r: "fst (demo_serve 9 ''GET'' ''/token/introspect''
      (snd (demo_serve 5 ''POST'' ''/mcp'' demo_state))) = TokenInfo r"
    by (auto split: Response.splits)
  have ip: "parse_client_ip Some (Option.bind (h_forwarded (demo_request ''POST'' ''/mcp'')) header_to_str)
      (trusted_hops (au_config (fst demo_state))) = Some ''203.0.113.9''"
    by code_simp
  have "ti_last_used r = Some \<lparr>used_at = 5, used_ip = Some ''203.0.113.9''\<rparr>"
    using introspection_reports_last_real_use [where rs = "[]" and sl = demo_state and fresh = burst
        and tk = take_once and ?env2.0 = "demo_env 9" and env = "demo_env 5"
        and ?req2.0 = "demo_request ''GET'' ''/token/introspect''" and req = "demo_request ''POST'' ''/mcp''"]
      q r ip
    by (simp add: demo_serve_def serve_all_def demo_env_def demo_request_def)
  with r show ?thesis by blast
qed

section \<open>Sessions per identity\<close>

text \<open>A request that reached a service to create a session, for this subject.\<close>

definition creates_session :: "rstr \<Rightarrow> 'ip Response \<Rightarrow> bool" where
  "creates_session s r = (case r of
      Service req \<Rightarrow> is_fresh_mcp_session_request req
        \<and> (case ext_identity req of None \<Rightarrow> False | Some ident \<Rightarrow> mas_subject ident = s)
    | _ \<Rightarrow> False)"

fun serve_responses ::
  "(Quota \<Rightarrow> 'b) \<Rightarrow> (instant \<Rightarrow> 'b \<Rightarrow> bool \<times> 'b) \<Rightarrow> (('h, 'ip) AuthEnv \<times> Request) list
     \<Rightarrow> ('h, 'ip) AuthState \<times> 'b InitializeLimiter \<Rightarrow> 'ip Response list" where
  "serve_responses fresh tk [] sl = []"
| "serve_responses fresh tk ((env, req) # rs) sl =
     (let (r, sl) = serve fresh tk env req sl in r # serve_responses fresh tk rs sl)"

abbreviation subject_bucket :: "(Quota \<Rightarrow> 'b) \<Rightarrow> rstr \<Rightarrow> 'b InitializeLimiter \<Rightarrow> 'b" where
  "subject_bucket fresh s lim \<equiv> bucket_at fresh (init_quota lim) (init_sub lim) s"

lemma initialize_check_bucket:
  "init_quota (snd (initialize_check fresh tk t bh sub lim)) = init_quota lim"
  "fst (initialize_check fresh tk t bh sub lim) \<Longrightarrow> sub = Some s \<Longrightarrow> fst (tk t (subject_bucket fresh s lim))"
  "subject_bucket fresh s (snd (initialize_check fresh tk t bh sub lim)) \<in>
     (if fst (initialize_check fresh tk t bh sub lim) \<and> sub = Some s then {snd (tk t (subject_bucket fresh s lim))}
      else {subject_bucket fresh s lim, snd (tk t (subject_bucket fresh s lim))})"
  by (auto simp: initialize_check_def case_prod_unfold Let_def check_both_eq)

lemma initialize_rate_limit_populated:
  "ext_token req = Some token \<Longrightarrow> ext_identity req = Some ident \<Longrightarrow>
    initialize_rate_limit fresh tk env req lim =
      (if is_fresh_mcp_session_request req
       then (let c = initialize_check fresh tk (e_later env) (e_token_hash env token)
               (Some (mas_subject ident)) lim
             in (if fst c then Inr req else Inl (TooManyHandshakes INITIALIZE_REFILL_INTERVAL), snd c))
       else (Inr req, lim))"
  by (simp add: initialize_rate_limit_def Let_def case_prod_unfold)

text \<open>One request: the subject's bucket is untouched or asked once, and a session is created for the
  subject only by asking it and being allowed.\<close>

lemma serve_bucket:
  fixes sl :: "('h, 'ip) AuthState \<times> 'b InitializeLimiter" and fresh :: "Quota \<Rightarrow> 'b" and s :: rstr
    and tk :: "instant \<Rightarrow> 'b \<Rightarrow> bool \<times> 'b" and env :: "('h, 'ip) AuthEnv" and req :: Request
  defines "b \<equiv> subject_bucket fresh s (snd sl)" and "r \<equiv> serve fresh tk env req sl"
  shows "init_quota (snd (snd r)) = init_quota (snd sl)
    \<and> subject_bucket fresh s (snd (snd r)) \<in> {b, snd (tk (e_later env) b)}
    \<and> (creates_session s (fst r) \<longrightarrow> fst (tk (e_later env) b)
         \<and> subject_bucket fresh s (snd (snd r)) = snd (tk (e_later env) b))"
proof (cases rule: serve_cases [of env req sl fresh tk])
  case (1 resp)
  with bearer_auth_rejects [OF 1(1)] show ?thesis
    by (auto simp: r_def b_def creates_session_def unauthorized_def)
next
  case (2 token ident req')
  have ext: "ext_token req' = Some token" "ext_identity req' = Some ident" by (simp_all add: 2(3))
  let ?c = "initialize_check fresh tk (e_later env) (e_token_hash env token) (Some (mas_subject ident)) (snd sl)"
  note lim = initialize_rate_limit_populated [OF ext]
  show ?thesis
  proof (cases "is_fresh_mcp_session_request req'")
    case False
    then have "snd (snd r) = snd sl" by (simp add: r_def 2(7) lim)
    moreover have "\<not> creates_session s (fst r)"
      using False by (simp add: r_def 2(5) lim creates_session_def token_introspect_handler_populated [OF ext])
    ultimately show ?thesis by (simp add: b_def)
  next
    case True
    have l: "snd (snd r) = snd ?c" using True by (simp add: r_def 2(7) lim Let_def)
    have "creates_session s (fst r) \<longrightarrow> fst ?c \<and> mas_subject ident = s"
      using True ext
      by (auto simp: r_def 2(5) lim Let_def creates_session_def token_introspect_handler_populated [OF ext]
          split: if_splits)
    with initialize_check_bucket(2,3) [where fresh = fresh and tk = tk and t = "e_later env" and s = s
        and bh = "e_token_hash env token" and sub = "Some (mas_subject ident)" and lim = "snd sl"]
    show ?thesis unfolding l b_def by (auto simp: initialize_check_bucket(1) split: if_splits)
  qed
qed

lemma created_from_one_bucket:
  "\<exists>ts. set ts \<subseteq> (\<lambda>(env, _). e_later env) ` set rs \<and>
     length (filter (creates_session s) (serve_responses fresh tk rs sl))
       \<le> length (bucket_allows tk (subject_bucket fresh s (snd sl)) ts)"
proof (induction rs arbitrary: sl)
  case Nil
  show ?case by (intro exI [of _ "[]"]) simp
next
  case (Cons q rs)
  obtain env req where q: "q = (env, req)" by (cases q)
  let ?r = "serve fresh tk env req sl" and ?b = "subject_bucket fresh s (snd sl)"
  from Cons [of "snd ?r"] obtain ts where ts: "set ts \<subseteq> (\<lambda>(env, _). e_later env) ` set rs"
    "length (filter (creates_session s) (serve_responses fresh tk rs (snd ?r)))
       \<le> length (bucket_allows tk (subject_bucket fresh s (snd (snd ?r))) ts)" by blast
  note step = serve_bucket [where fresh = fresh and tk = tk and env = env and req = req and sl = sl and s = s]
  show ?case
  proof (cases "subject_bucket fresh s (snd (snd ?r)) = ?b \<and> \<not> creates_session s (fst ?r)")
    case True
    with ts q show ?thesis by (intro exI [of _ ts]) (auto simp: case_prod_unfold Let_def)
  next
    case False
    with step have "subject_bucket fresh s (snd (snd ?r)) = snd (tk (e_later env) ?b)"
      "creates_session s (fst ?r) \<longrightarrow> fst (tk (e_later env) ?b)" by auto
    with ts q show ?thesis
      by (intro exI [of _ "e_later env # ts"]) (auto simp: case_prod_unfold Let_def)
  qed
qed

text \<open>C32: However a user spreads session creation over bearers, headers and paths, no more sessions are
  created for one subject than one bucket grants.\<close>

theorem sessions_per_subject_bounded:
  assumes "\<And>ts. set ts \<subseteq> W \<Longrightarrow> length (bucket_allows tk (fresh (init_quota (snd sl))) ts) \<le> N"
    and "init_sub (snd sl) = []" and "\<forall>(env, req)\<in>set rs. e_later env \<in> W"
  shows "length (filter (creates_session s) (serve_responses fresh tk rs sl)) \<le> N"
proof -
  obtain ts where ts: "set ts \<subseteq> (\<lambda>(env, _). e_later env) ` set rs"
    "length (filter (creates_session s) (serve_responses fresh tk rs sl))
       \<le> length (bucket_allows tk (subject_bucket fresh s (snd sl)) ts)"
    using created_from_one_bucket by blast
  have "set ts \<subseteq> W" using ts(1) assms(3) by auto
  from assms(1) [OF this] ts(2) assms(2) show ?thesis by (simp add: bucket_at_def)
qed

theorem sessions_per_subject_bounded_witness:
  "length (filter (creates_session ''01J'') (serve_responses burst take_once
     [(demo_env 1, demo_request ''POST'' ''/mcp''), (demo_env 2, demo_request ''POST'' ''/channel'')]
     demo_state)) \<le> 16"
  by (rule sessions_per_subject_bounded [where W = UNIV])
    (simp_all add: demo_state_def new_initialize_limiter_def order.trans [OF take_once_allows])

end
