(* ===== verification/AuditTrail.thy ===== *)
theory AuditTrail
  imports Utf8
begin

text \<open>
  \<open>src/audit.rs\<close> and \<open>src/audit_room.rs\<close>: the room field of the audit log, the
  class of an error, and the notice a write tool leaves in the user's audit room. The room-id parser
  of ruma and what the SDK answers are arguments.
\<close>

section \<open>Identifiers that may be logged\<close>

text \<open>The UTF-8 encodings of the code points of the category Cc: \<open>char::is_control\<close>.\<close>

definition control_head :: "rstr \<Rightarrow> bool" where
  "control_head s = (case s of [] \<Rightarrow> False
     | c # rest \<Rightarrow> byte_of c < 0x20 \<or> byte_of c = 0x7F
         \<or> (byte_of c = 0xC2 \<and> (case rest of [] \<Rightarrow> False | d # _ \<Rightarrow> 0x80 \<le> byte_of d \<and> byte_of d < 0xA0)))"

text \<open>Some character is white space or a control character: in a valid string the byte sequences of both
  occur only at character boundaries.\<close>

fun any_space_or_control :: "rstr \<Rightarrow> bool" where
  "any_space_or_control [] = False"
| "any_space_or_control (c # s) =
     (0 < ws_head (c # s) \<or> control_head (c # s) \<or> any_space_or_control s)"

definition is_safe_room_id :: "(rstr \<Rightarrow> bool) \<Rightarrow> rstr \<Rightarrow> bool" where
  "is_safe_room_id parse rid \<longleftrightarrow> \<not> any_space_or_control rid \<and> parse rid"

definition audit_room_field :: "(rstr \<Rightarrow> bool) \<Rightarrow> rstr option \<Rightarrow> rstr option" where
  "audit_room_field parse room_id =
     map_option (\<lambda>rid. if is_safe_room_id parse rid then rid else ''<invalid>'') room_id"

definition RATE_LIMITED_CODE :: int where "RATE_LIMITED_CODE = -32029"
definition AUTH_EXPIRED_CODE :: int where "AUTH_EXPIRED_CODE = -32028"

definition error_class :: "int \<Rightarrow> rstr" where
  "error_class code =
     (if code = -32700 then ''parse''
      else if code = -32600 then ''invalid_request''
      else if code = -32601 then ''method_not_found''
      else if code = -32602 then ''invalid_params''
      else if code = -32603 then ''internal''
      else if code = RATE_LIMITED_CODE then ''rate_limited''
      else if code = AUTH_EXPIRED_CODE then ''auth_expired''
      else ''other'')"

section \<open>The notice\<close>

definition arrow :: rstr where "arrow = [CHR 0xE2, CHR 0x86, CHR 0x92]"

definition build_notice_body :: "(rstr \<Rightarrow> bool) \<Rightarrow> rstr \<Rightarrow> rstr option \<Rightarrow> rstr \<Rightarrow> rstr" where
  "build_notice_body parse tool target_room outcome =
     (let kept = (case target_room of None \<Rightarrow> None
          | Some rid \<Rightarrow> if any_space_or_control rid then None else if parse rid then Some rid else None)
      in case kept of
        None \<Rightarrow> ''matrix-mcp: '' @ tool @ '' outcome='' @ outcome
      | Some rid \<Rightarrow> ''matrix-mcp: '' @ tool @ '' '' @ arrow @ '' '' @ rid @ '' outcome='' @ outcome)"

datatype StoredRoom = FetchFailed | NotSet | Undecodable | Stored rstr

datatype AuditRoomState = NotInCache | NotJoined | InRoom

definition get_audit_room :: "StoredRoom \<Rightarrow> rstr option" where
  "get_audit_room answer = (case answer of Stored r \<Rightarrow> Some r | _ \<Rightarrow> None)"

text \<open>The room and body a notice is sent to, when one is.\<close>

definition emit_notice ::
  "(rstr \<Rightarrow> bool) \<Rightarrow> StoredRoom \<Rightarrow> (rstr \<Rightarrow> AuditRoomState) \<Rightarrow> rstr \<Rightarrow> rstr option \<Rightarrow> rstr \<Rightarrow> (rstr \<times> rstr) option" where
  "emit_notice parse answer room_state tool target_room outcome = (case get_audit_room answer of
      None \<Rightarrow> None
    | Some audit_room \<Rightarrow>
        if \<not> parse audit_room then None
        else (case room_state audit_room of
          InRoom \<Rightarrow> Some (audit_room, build_notice_body parse tool target_room outcome)
        | NotJoined \<Rightarrow> None
        | NotInCache \<Rightarrow> None))"

section \<open>Words\<close>

lemma ws_seq_blank: "w \<in> set ws_seqs \<Longrightarrow> CHR '' '' \<in> set w \<Longrightarrow> w = '' ''"
  by (auto simp: ws_seqs_def)

lemma ws_head_zero: "ws_head s = 0 \<longleftrightarrow> (\<forall>w\<in>set ws_seqs. \<not> prefix w s)"
proof
  assume z: "ws_head s = 0"
  show "\<forall>w\<in>set ws_seqs. \<not> prefix w s"
  proof (cases "filter (\<lambda>w. prefix w s) ws_seqs")
    case Nil
    then show ?thesis by (simp add: filter_empty_conv)
  next
    case (Cons w ws)
    have "w \<in> set (filter (\<lambda>w. prefix w s) ws_seqs)" unfolding Cons by simp
    then have "w \<in> set ws_seqs" by simp
    with z Cons ws_seqs_ne show ?thesis by (simp add: ws_head_def)
  qed
qed (simp add: ws_head_def filter_empty_conv [THEN iffD2])

lemma ws_head_append_blank:
  assumes "t \<noteq> []" and "ws_head t = 0"
  shows "ws_head (t @ CHR '' '' # s) = 0"
proof -
  have False if w: "w \<in> set ws_seqs" "prefix w (t @ CHR '' '' # s)" for w
  proof (cases "length w \<le> length t")
    case True
    with w(2) have "prefix w t" by (metis prefix_length_prefix prefixI)
    with w(1) assms(2) show False by (simp add: ws_head_zero)
  next
    case False
    then obtain v where "w = t @ CHR '' '' # v"
      using w(2) by (auto simp: prefix_append prefix_Cons dest: prefix_length_le)
    with ws_seq_blank [OF w(1)] assms(1) show False by (cases t) auto
  qed
  then show ?thesis by (auto simp: ws_head_zero)
qed

lemma split_ws_spaceless:
  "\<not> any_space_or_control w \<Longrightarrow> split_ws_from acc (w @ CHR '' '' # s) = split_ws_from (acc @ w) (CHR '' '' # s)"
proof (induction w arbitrary: acc)
  case (Cons c w)
  then have "ws_head (c # w) = 0" by simp
  with ws_head_append_blank [of "c # w" s] have "ws_head (c # w @ CHR '' '' # s) = 0" by simp
  with Cons show ?case by (simp add: split_ws_from.simps [of acc "c # w @ CHR '' '' # s"])
qed simp

lemma split_ws_words:
  assumes "ws_free w" and "w \<noteq> []"
  shows "split_ws_from [] (w @ CHR '' '' # s) = w # split_ws_from [] s" and "split_ws_from [] w = [w]"
  using assms split_ws_word [of w "[]" "CHR '' '' # s"] split_ws_word [of w "[]" "[]"]
  by (simp_all add: split_ws_blank split_ws_from.simps [of w "[]"])

text \<open>C38: A caller cannot forge an audit notice: for a tool and an outcome that are words, the words of the notice
  are the fixed ones, the tool, the outcome and, only when the caller's room id has no white space or
  control character and parses, that id as one word. Nothing is sent but to the room the user
  stored, while joined to it. The room field of the log is absent, such an id, or a placeholder.\<close>

theorem notice_not_forgeable:
  assumes "ws_free tool" and "tool \<noteq> []" and "ws_free outcome" and "\<not> parse []"
  shows "split_whitespace (build_notice_body parse tool target outcome) = [''matrix-mcp:'', tool]
      @ (case target of Some rid \<Rightarrow> if is_safe_room_id parse rid then [arrow, rid] else [] | None \<Rightarrow> [])
      @ [''outcome='' @ outcome]
    \<and> (case emit_notice parse answer room_state tool target outcome of None \<Rightarrow> True
       | Some (room, body) \<Rightarrow> answer = Stored room \<and> room_state room = InRoom
           \<and> body = build_notice_body parse tool target outcome)
    \<and> (case audit_room_field parse target of None \<Rightarrow> target = None
       | Some f \<Rightarrow> f = ''<invalid>'' \<or> (target = Some f \<and> is_safe_room_id parse f))"
proof (intro conjI)
  have fixed: "ws_free ''matrix-mcp:''" "ws_free ''outcome=''" "\<not> any_space_or_control arrow" by code_simp+
  then have out: "ws_free (''outcome='' @ outcome)" using assms(3) by (simp add: ws_free_def)
  define tail where "tail = ''outcome='' @ outcome"
  have tail: "split_ws_from [] tail = [tail]" using split_ws_words(2) [OF out] by (simp add: tail_def)
  note words = split_ws_words(1) [OF fixed(1)] split_ws_words(1) [OF assms(1,2)] split_ws_spaceless [OF fixed(3)] tail
  have plain: "split_ws_from [] (''matrix-mcp:'' @ CHR '' '' # tool @ CHR '' '' # tail) = [''matrix-mcp:'', tool, tail]"
    using words by (simp del: append_Cons append_Nil)
  have "split_ws_from [] (''matrix-mcp:'' @ CHR '' '' # tool @ CHR '' '' # arrow @ CHR '' '' # rid @ CHR '' '' # tail)
      = [''matrix-mcp:'', tool, arrow, rid, tail]" if "is_safe_room_id parse rid" for rid
  proof -
    have "rid \<noteq> []" "\<not> any_space_or_control rid" using that assms(4) by (auto simp: is_safe_room_id_def)
    then have "split_ws_from [] (rid @ CHR '' '' # tail) = [rid, tail]"
      by (simp add: split_ws_spaceless split_ws_blank tail)
    moreover have "arrow \<noteq> []" by (simp add: arrow_def)
    ultimately show ?thesis using words by (simp del: append_Cons append_Nil add: split_ws_blank)
  qed
  with plain show "split_whitespace (build_notice_body parse tool target outcome) = [''matrix-mcp:'', tool]
      @ (case target of Some rid \<Rightarrow> if is_safe_room_id parse rid then [arrow, rid] else [] | None \<Rightarrow> [])
      @ [''outcome='' @ outcome]"
    by (auto simp: build_notice_body_def split_whitespace_def is_safe_room_id_def tail_def split: option.splits)
  show "case emit_notice parse answer room_state tool target outcome of None \<Rightarrow> True
      | Some (room, body) \<Rightarrow> answer = Stored room \<and> room_state room = InRoom
          \<and> body = build_notice_body parse tool target outcome"
    by (auto simp: emit_notice_def get_audit_room_def split: StoredRoom.splits AuditRoomState.splits option.splits)
  show "case audit_room_field parse target of None \<Rightarrow> target = None
      | Some f \<Rightarrow> f = ''<invalid>'' \<or> (target = Some f \<and> is_safe_room_id parse f)"
    by (auto simp: audit_room_field_def split: option.splits)
qed

theorem notice_not_forgeable_witness:
  "split_whitespace (build_notice_body (\<lambda>s. s \<noteq> []) ''mark_read'' (Some ''!r:x outcome=ok'') ''error'')
     = [''matrix-mcp:'', ''mark_read'', ''outcome=error'']"
proof -
  have "ws_free ''mark_read''" "ws_free ''error''" "any_space_or_control ''!r:x outcome=ok''" by code_simp+
  with notice_not_forgeable [of "''mark_read''" "''error''" "\<lambda>s. s \<noteq> []" "Some ''!r:x outcome=ok''"]
  show ?thesis by (simp add: is_safe_room_id_def)
qed

end
