(* ===== verification/ClientLoops.thy ===== *)
theory ClientLoops
  imports Prelude
begin

text \<open>
  The two loops of \<open>src/matrix_client.rs\<close>: the sync watchdog with its backoff, and the
  bounded wait for a rebuilt client's device keys. The watchdog may run for ever, so it returns an
  option; what one round of either loop meets is a function of the round. The watchdog's times are
  in seconds, the wait's in milliseconds.
\<close>

definition BACKOFF_INIT :: nat where "BACKOFF_INIT = 1"
definition BACKOFF_CAP :: nat where "BACKOFF_CAP = 60"
definition PUBLISH_CEILING :: nat where "PUBLISH_CEILING = 20000"
definition PUBLISH_POLL_INTERVAL :: nat where "PUBLISH_POLL_INTERVAL = 500"

section \<open>The sync watchdog\<close>

definition next_backoff :: "nat \<Rightarrow> nat" where
  "next_backoff prev = min (prev * 2) BACKOFF_CAP"

definition is_permanent_auth_failure :: "rstr \<Rightarrow> bool" where
  "is_permanent_auth_failure msg \<longleftrightarrow>
     contains_str msg ''M_UNKNOWN_TOKEN'' \<or> contains_str msg ''Token is not active''"

text \<open>One round: the cache has dropped the client, or the sync ends, or it fails with a message.\<close>

datatype sync_round = ClientGone | SyncDone | SyncError rstr

datatype watchdog_exit = Dropped | Completed | AuthFailed

text \<open>The result is how the watchdog ended and how long it slept after each failure.\<close>

partial_function (option) sync_watchdog ::
  "(nat \<Rightarrow> sync_round) \<Rightarrow> nat \<Rightarrow> nat \<Rightarrow> nat list \<Rightarrow> (watchdog_exit \<times> nat list) option" where
  "sync_watchdog rounds attempt backoff slept =
     (case rounds attempt of
        ClientGone \<Rightarrow> Some (Dropped, slept)
      | SyncDone \<Rightarrow> Some (Completed, slept)
      | SyncError err_msg \<Rightarrow>
          if is_permanent_auth_failure err_msg then Some (AuthFailed, slept)
          else sync_watchdog rounds (attempt + 1) (next_backoff backoff) (slept @ [backoff]))"

fun exit_of :: "sync_round \<Rightarrow> watchdog_exit option" where
  "exit_of ClientGone = Some Dropped"
| "exit_of SyncDone = Some Completed"
| "exit_of (SyncError e) = (if is_permanent_auth_failure e then Some AuthFailed else None)"

lemma sync_watchdog_step:
  "sync_watchdog rounds n b s = (case exit_of (rounds n) of
      Some x \<Rightarrow> Some (x, s)
    | None \<Rightarrow> sync_watchdog rounds (n + 1) (next_backoff b) (s @ [b]))"
  by (subst sync_watchdog.simps) (simp split: sync_round.splits)

definition backoff :: "nat \<Rightarrow> nat" where
  "backoff k = min (2 ^ k) 60"

lemma next_backoff_backoff: "next_backoff (backoff k) = backoff (Suc k)"
  by (simp add: next_backoff_def backoff_def BACKOFF_CAP_def min_def)

lemma sync_watchdog_runs:
  assumes "\<And>k. n \<le> k \<Longrightarrow> k < n + m \<Longrightarrow> exit_of (rounds k) = None"
  shows "sync_watchdog rounds n (backoff n) (map backoff [0..<n])
    = sync_watchdog rounds (n + m) (backoff (n + m)) (map backoff [0..<n + m])"
  using assms
proof (induction m)
  case (Suc m)
  then have "exit_of (rounds (n + m)) = None" by simp
  with Suc show ?case
    by (simp add: sync_watchdog_step [of rounds "n + m"] next_backoff_backoff)
qed simp

lemma sync_watchdog_returns:
  "sync_watchdog rounds n b s = Some r \<Longrightarrow> \<exists>k. n \<le> k \<and> exit_of (rounds k) \<noteq> None"
proof (rule sync_watchdog.raw_induct [where P = "\<lambda>rounds n b s r. \<exists>k. n \<le> k \<and> exit_of (rounds k) \<noteq> None"])
  fix f rounds b s r and n :: nat
  assume IH: "\<And>rounds n b s r. f rounds n b s = Some r \<Longrightarrow> \<exists>k. n \<le> k \<and> exit_of (rounds k) \<noteq> None"
    and eq: "(case rounds n of ClientGone \<Rightarrow> Some (Dropped, s) | SyncDone \<Rightarrow> Some (Completed, s)
      | SyncError e \<Rightarrow> if is_permanent_auth_failure e then Some (AuthFailed, s)
          else f rounds (n + 1) (next_backoff b) (s @ [b])) = Some r"
  show "\<exists>k. n \<le> k \<and> exit_of (rounds k) \<noteq> None"
  proof (cases "exit_of (rounds n)")
    case None
    with eq have "f rounds (n + 1) (next_backoff b) (s @ [b]) = Some r"
      by (auto split: sync_round.splits if_splits)
    from IH [OF this] obtain k where "n + 1 \<le> k" "exit_of (rounds k) \<noteq> None" by blast
    then show ?thesis by (intro exI [of _ k]) simp
  qed auto
qed


section \<open>The wait for publication\<close>

datatype PublishWait = Published | Expired | CheckFailed

text \<open>
  \<open>took n\<close> is the time the \<open>n\<close>-th check takes and \<open>late n\<close> how much the
  sleep after it exceeds the interval. The second component counts the checks.
\<close>

partial_function (option) wait_for_publish ::
  "(nat \<Rightarrow> rstr + bool) \<Rightarrow> (nat \<Rightarrow> nat) \<Rightarrow> (nat \<Rightarrow> nat) \<Rightarrow> nat \<Rightarrow> nat \<Rightarrow> nat \<Rightarrow> nat
     \<Rightarrow> (PublishWait \<times> nat) option" where
  "wait_for_publish check took late ceiling interval n elapsed =
     (case check n of
        Inl e \<Rightarrow> Some (CheckFailed, n + 1)
      | Inr published \<Rightarrow>
          if published then Some (Published, n + 1)
          else if ceiling \<le> elapsed + took n then Some (Expired, n + 1)
          else wait_for_publish check took late ceiling interval (n + 1)
            (elapsed + took n + interval + late n))"

definition wait_result ::
  "(nat \<Rightarrow> rstr + bool) \<Rightarrow> nat \<Rightarrow> PublishWait \<Rightarrow> nat \<Rightarrow> bool" where
  "wait_result check start r n \<longleftrightarrow> start < n
     \<and> list_all (\<lambda>i. check i = Inr False) [start..<n - 1]
     \<and> (case r of Published \<Rightarrow> check (n - 1) = Inr True | Expired \<Rightarrow> check (n - 1) = Inr False
         | CheckFailed \<Rightarrow> \<exists>e. check (n - 1) = Inl e)"

lemma wait_result_Suc:
  "check n = Inr False \<Longrightarrow> wait_result check (Suc n) r m \<Longrightarrow> wait_result check n r m"
  by (auto simp: wait_result_def list_all_iff less_Suc_eq_le Suc_le_eq le_less)

lemma wait_returns:
  assumes "0 < interval"
  shows "\<exists>r m. wait_for_publish check took late ceiling interval n elapsed = Some (r, m) \<and> wait_result check n r m
    \<and> (Suc n < m \<longrightarrow> elapsed + (m - n - 2) * interval < ceiling)"
proof (induction "ceiling - elapsed" arbitrary: n elapsed rule: less_induct)
  case less
  show ?case
  proof (cases "check n = Inr False \<and> elapsed + took n < ceiling")
    case True
    let ?e = "elapsed + took n + interval + late n"
    have "ceiling - ?e < ceiling - elapsed" using True assms by linarith
    from less [OF this, of "n + 1"] obtain r m where
      r: "wait_for_publish check took late ceiling interval (n + 1) ?e = Some (r, m)"
        "wait_result check (n + 1) r m" "Suc (n + 1) < m \<longrightarrow> ?e + (m - (n + 1) - 2) * interval < ceiling"
      by auto
    have "elapsed + (m - n - 2) * interval < ceiling"
    proof (cases "Suc (n + 1) < m")
      case more: True
      then have "m - n - 2 = Suc (m - (n + 1) - 2)" by simp
      with r(3) more show ?thesis by simp
    next
      case False
      with True show ?thesis by simp
    qed
    with r True show ?thesis
      by (subst wait_for_publish.simps) (auto intro: wait_result_Suc)
  next
    case False
    then show ?thesis
      by (subst wait_for_publish.simps) (auto simp: wait_result_def split: sum.splits bool.splits)
  qed
qed

text \<open>Whatever the homeserver answers and however long it takes, the wait for a rebuilt client's keys ends
  after at least one and at most 41 checks, every check before the last one said no, and the verdict
  is that of the last one: a late yes is a yes, a failed check is neither, and only a no at the
  ceiling is an expiry.\<close>

theorem publish_wait_bounded:
  "\<exists>r n. wait_for_publish check took late PUBLISH_CEILING PUBLISH_POLL_INTERVAL 0 0 = Some (r, n)
     \<and> 1 \<le> n \<and> n \<le> 41 \<and> list_all (\<lambda>i. check i = Inr False) [0..<n - 1]
     \<and> (case r of Published \<Rightarrow> check (n - 1) = Inr True | Expired \<Rightarrow> check (n - 1) = Inr False
         | CheckFailed \<Rightarrow> \<exists>e. check (n - 1) = Inl e)"
proof -
  obtain r n where "wait_for_publish check took late PUBLISH_CEILING PUBLISH_POLL_INTERVAL 0 0 = Some (r, n)"
    and w: "wait_result check 0 r n" and "Suc 0 < n \<longrightarrow> 0 + (n - 0 - 2) * 500 < (20000 :: nat)"
    using wait_returns [of PUBLISH_POLL_INTERVAL check took late PUBLISH_CEILING 0 0]
    unfolding PUBLISH_POLL_INTERVAL_def PUBLISH_CEILING_def by auto
  moreover from this have "n \<le> 41" by linarith
  ultimately show ?thesis unfolding wait_result_def by (intro exI [of _ r] exI [of _ n]) auto
qed

end
