(* ===== verification/ClientCache.thy ===== *)
theory ClientCache
  imports Introspection
begin

text \<open>
  \<open>MatrixClientCache\<close> of \<open>src/matrix_client.rs\<close>: the SDK client of each user,
  its session token, and the self-heal of a store whose device keys the homeserver does not have.
  A client is a handle, counted by the cache; what the SDK, the file system and the homeserver answer
  is the record \<open>ClientEnv\<close> of one call. What is done to them is the log of the call.
\<close>

text \<open>The digest of a token, the hex digest of a string, and the hex HKDF of a salt, a key and an info.\<close>

record 'h Primitives =
  pr_token_hash :: "rstr \<Rightarrow> 'h"
  pr_sha_hex :: "rstr \<Rightarrow> rstr"
  pr_hkdf_hex :: "rstr \<Rightarrow> rstr \<Rightarrow> rstr \<Rightarrow> rstr"

record 'a ClientEnv =
  ce_user_id :: "rstr \<Rightarrow> bool"
  ce_sync_finished :: "nat \<Rightarrow> bool"
  ce_create_dir :: "nat \<Rightarrow> rstr \<Rightarrow> bool"
  ce_open :: "nat \<Rightarrow> rstr \<Rightarrow> rstr \<Rightarrow> bool"
  ce_restore :: "nat \<Rightarrow> rstr \<Rightarrow> rstr \<Rightarrow> rstr \<Rightarrow> bool"
  ce_subscribe :: "nat \<Rightarrow> bool"
  ce_device :: "nat \<Rightarrow> rstr option"
  ce_keys_query :: "nat \<Rightarrow> rstr \<Rightarrow> (rstr, (rstr, 'a) hmap) hmap option"
  ce_backup_exists :: "nat \<Rightarrow> bool option"
  ce_remove_dir :: "rstr \<Rightarrow> bool option"

datatype ClientError = BadMxid | NoDeviceId | CreateDirFailed | BuildFailed | RestoreFailed | SubscribeFailed
  | NoClientDevice | KeysQueryFailed | WipeFailed

text \<open>A store opened with a passphrase, a session installed, a recovery tried, a sync started, a store wiped.\<close>

datatype client_event = Opened nat rstr rstr | Restored nat rstr rstr rstr | RecoveryTried nat rstr
  | SyncStarted nat rstr | Wiped rstr rstr

record 'h CachedClient =
  cc_client :: nat
  cc_token_hash :: 'h
  keys_verified :: bool

record 'h MatrixClientCache =
  pepper :: rstr
  cells :: "(rstr, 'h CachedClient option) hmap"
  healed :: "rstr list"
  next_client :: nat

definition new_client_cache :: "rstr \<Rightarrow> 'h MatrixClientCache" where
  "new_client_cache pep = \<lparr>pepper = pep, cells = [], healed = [], next_client = 0\<rparr>"

section \<open>Derived names and secrets\<close>

definition mxid_dir_name :: "'h Primitives \<Rightarrow> rstr \<Rightarrow> rstr" where
  "mxid_dir_name pr m = take 32 (pr_sha_hex pr m)"

definition derive_recovery_passphrase :: "'h Primitives \<Rightarrow> rstr \<Rightarrow> rstr \<Rightarrow> rstr" where
  "derive_recovery_passphrase pr pep m = pr_hkdf_hex pr m pep ''matrix-mcp-recovery v1''"

definition derive_store_passphrase :: "'h Primitives \<Rightarrow> rstr \<Rightarrow> rstr \<Rightarrow> rstr" where
  "derive_store_passphrase pr pep m = pr_hkdf_hex pr m pep ''matrix-mcp-store-cipher v1''"

section \<open>Lookups\<close>

definition cell_initialized :: "'h MatrixClientCache \<Rightarrow> rstr \<Rightarrow> 'h CachedClient option" where
  "cell_initialized st m = Option.bind (hm_get (cells st) m) (\<lambda>c. c)"

definition contains_client :: "'h MatrixClientCache \<Rightarrow> rstr \<Rightarrow> bool" where
  "contains_client st m \<longleftrightarrow> cell_initialized st m \<noteq> None"

definition get_if_cached :: "'h MatrixClientCache \<Rightarrow> rstr \<Rightarrow> nat option" where
  "get_if_cached st m = map_option cc_client (cell_initialized st m)"

definition evict :: "rstr \<Rightarrow> 'h MatrixClientCache \<Rightarrow> 'h MatrixClientCache" where
  "evict m st = st\<lparr>cells := hm_remove (cells st) m\<rparr>"

section \<open>Building and refreshing\<close>

definition refresh_token_if_needed ::
  "'h Primitives \<Rightarrow> 'a ClientEnv \<Rightarrow> 'h CachedClient \<Rightarrow> AuthenticatedIdentity \<Rightarrow> rstr
     \<Rightarrow> (ClientError + 'h CachedClient) \<times> client_event list" where
  "refresh_token_if_needed pr env cached ident access_token =
     (let incoming = pr_token_hash pr access_token in
      if cc_token_hash cached = incoming then (Inr cached, [])
      else if \<not> ce_user_id env (mxid ident) then (Inl BadMxid, [])
      else (case id_device ident of
        None \<Rightarrow> (Inl NoDeviceId, [])
      | Some d \<Rightarrow>
          if \<not> ce_restore env (cc_client cached) (mxid ident) d access_token then (Inl RestoreFailed, [])
          else (Inr (cached\<lparr>cc_token_hash := incoming\<rparr>),
            [Restored (cc_client cached) (mxid ident) d access_token])))"

text \<open>The handle of the client to build is the second argument; every step may fail, and an import of the
  cross-signing identity is tried whatever comes of it.\<close>

definition build_cached ::
  "'h Primitives \<Rightarrow> 'a ClientEnv \<Rightarrow> nat \<Rightarrow> rstr \<Rightarrow> AuthenticatedIdentity \<Rightarrow> rstr
     \<Rightarrow> (ClientError + 'h CachedClient) \<times> client_event list" where
  "build_cached pr env c pep ident access_token =
     (if \<not> ce_user_id env (mxid ident) then (Inl BadMxid, [])
      else (case id_device ident of
        None \<Rightarrow> (Inl NoDeviceId, [])
      | Some d \<Rightarrow>
          (let store_path = mxid_dir_name pr (mxid ident);
               passphrase = derive_store_passphrase pr pep (mxid ident);
               opened = [Opened c store_path passphrase];
               restored = opened @ [Restored c (mxid ident) d access_token];
               tried = restored @ [RecoveryTried c (derive_recovery_passphrase pr pep (mxid ident))]
           in if \<not> ce_create_dir env c store_path then (Inl CreateDirFailed, [])
              else if \<not> ce_open env c store_path passphrase then (Inl BuildFailed, [])
              else if \<not> ce_restore env c (mxid ident) d access_token then (Inl RestoreFailed, opened)
              else if \<not> ce_subscribe env c then (Inl SubscribeFailed, tried)
              else (Inr \<lparr>cc_client = c, cc_token_hash = pr_token_hash pr access_token, keys_verified = False\<rparr>,
                tried @ [SyncStarted c (mxid ident)]))))"

text \<open>A cached client is shared: what is done to it is seen in its cell.\<close>

definition put_cached :: "rstr \<Rightarrow> 'h CachedClient \<Rightarrow> 'h MatrixClientCache \<Rightarrow> 'h MatrixClientCache" where
  "put_cached m c st = st\<lparr>cells := hm_insert (cells st) m (Some c)\<rparr>"

definition fetch_client ::
  "'h Primitives \<Rightarrow> 'a ClientEnv \<Rightarrow> AuthenticatedIdentity \<Rightarrow> rstr \<Rightarrow> 'h MatrixClientCache
     \<Rightarrow> (ClientError + 'h CachedClient) \<times> 'h MatrixClientCache \<times> client_event list" where
  "fetch_client pr env ident access_token st =
     (let m = mxid ident;
          live = (case cell_initialized st m of
              Some c \<Rightarrow> if ce_sync_finished env (cc_client c) then None else Some c | None \<Rightarrow> None)
      in case live of
        Some cached \<Rightarrow>
          (case refresh_token_if_needed pr env cached ident access_token of
             (Inl e, ev) \<Rightarrow> (Inl e, st, ev)
           | (Inr cached, ev) \<Rightarrow> (Inr cached, put_cached m cached st, ev))
      | None \<Rightarrow>
          (let st = (if cell_initialized st m \<noteq> None then evict m st else st);
               st = (if hm_get (cells st) m = None then st\<lparr>cells := hm_insert (cells st) m None\<rparr> else st)
           in case build_cached pr env (next_client st) (pepper st) ident access_token of
             (Inl e, ev) \<Rightarrow> (Inl e, st\<lparr>next_client := next_client st + 1\<rparr>, ev)
           | (Inr cached, ev) \<Rightarrow>
               (let st = put_cached m cached (st\<lparr>next_client := next_client st + 1\<rparr>) in
                case refresh_token_if_needed pr env cached ident access_token of
                  (Inl e, ev') \<Rightarrow> (Inl e, st, ev @ ev')
                | (Inr cached, ev') \<Rightarrow> (Inr cached, put_cached m cached st, ev @ ev'))))"

section \<open>The self-heal\<close>

definition device_in_keys_response :: "(rstr, (rstr, 'a) hmap) hmap \<Rightarrow> rstr \<Rightarrow> rstr \<Rightarrow> bool" where
  "device_in_keys_response response user_id device_id =
     (case hm_get response user_id of None \<Rightarrow> False | Some devices \<Rightarrow> hm_contains devices device_id)"

definition verify_device_keys_published :: "'a ClientEnv \<Rightarrow> nat \<Rightarrow> rstr \<Rightarrow> ClientError + bool" where
  "verify_device_keys_published env c m =
     (if \<not> ce_user_id env m then Inl BadMxid
      else (case ce_device env c of
        None \<Rightarrow> Inl NoClientDevice
      | Some device_id \<Rightarrow> (case ce_keys_query env c m of
          None \<Rightarrow> Inl KeysQueryFailed
        | Some response \<Rightarrow> Inr (device_in_keys_response response m device_id))))"

definition key_backup_is_recoverable :: "'a ClientEnv \<Rightarrow> nat \<Rightarrow> bool" where
  "key_backup_is_recoverable env c = (case ce_backup_exists env c of Some b \<Rightarrow> b | None \<Rightarrow> False)"

definition claim_heal :: "rstr \<Rightarrow> 'h MatrixClientCache \<Rightarrow> bool \<times> 'h MatrixClientCache" where
  "claim_heal m st = (m \<notin> set (healed st), st\<lparr>healed := List.insert m (healed st)\<rparr>)"

definition wipe_user_store :: "'h Primitives \<Rightarrow> 'a ClientEnv \<Rightarrow> rstr \<Rightarrow> bool \<times> client_event list" where
  "wipe_user_store pr env m = (case ce_remove_dir env (mxid_dir_name pr m) of
      None \<Rightarrow> (False, [])
    | Some existed \<Rightarrow> (True, [Wiped m (mxid_dir_name pr m)]))"

text \<open>The part of \<open>verify_or_heal\<close> up to the decision to heal.\<close>

definition heal_needed ::
  "'a ClientEnv \<Rightarrow> 'h CachedClient \<Rightarrow> rstr \<Rightarrow> bool \<Rightarrow> 'h MatrixClientCache
     \<Rightarrow> bool \<times> 'h MatrixClientCache" where
  "heal_needed env cached m retry st =
     (if keys_verified cached then (False, st)
      else (case verify_device_keys_published env (cc_client cached) m of
        Inl e \<Rightarrow> (False, st)
      | Inr published \<Rightarrow>
          if published then (False, put_cached m (cached\<lparr>keys_verified := True\<rparr>) st)
          else if retry then (False, st)
          else
            (let (first, st) = claim_heal m st in
             if \<not> first then (False, st)
             else if \<not> key_backup_is_recoverable env (cc_client cached) then (False, st)
             else (True, st))))"

lemma heal_needed_retry [simp]: "\<not> fst (heal_needed env cached m True st)"
  by (simp add: heal_needed_def split: sum.split)

function for_user_inner ::
  "'h Primitives \<Rightarrow> 'a ClientEnv \<Rightarrow> AuthenticatedIdentity \<Rightarrow> rstr \<Rightarrow> bool \<Rightarrow> 'h MatrixClientCache
     \<Rightarrow> (ClientError + nat) \<times> 'h MatrixClientCache \<times> client_event list" where
  "for_user_inner pr env ident access_token retry st =
     (case fetch_client pr env ident access_token st of
        (Inl e, st, ev) \<Rightarrow> (Inl e, st, ev)
      | (Inr cached, st, ev) \<Rightarrow>
          (let hn = heal_needed env cached (mxid ident) retry st in
           if \<not> fst hn then (Inr (cc_client cached), snd hn, ev)
           else
             (let st = evict (mxid ident) (snd hn); (ok, ev') = wipe_user_store pr env (mxid ident) in
              if \<not> ok then (Inl WipeFailed, st, ev @ ev')
              else
                (let (r, st, ev'') = for_user_inner pr env ident access_token True st
                 in (r, st, ev @ ev' @ ev'')))))"
  by pat_completeness auto
termination
proof (relation "measure (\<lambda>(_, _, _, _, retry, _). if retry then 0 else 1)")
qed (auto split: if_splits)

declare for_user_inner.simps [simp del]

definition for_user ::
  "'h Primitives \<Rightarrow> 'a ClientEnv \<Rightarrow> AuthenticatedIdentity \<Rightarrow> rstr \<Rightarrow> 'h MatrixClientCache
     \<Rightarrow> (ClientError + nat) \<times> 'h MatrixClientCache \<times> client_event list" where
  "for_user pr env ident access_token st = for_user_inner pr env ident access_token False st"

section \<open>What the log says of a client\<close>

fun note_store :: "(nat \<Rightarrow> (rstr \<times> rstr) option) \<Rightarrow> client_event \<Rightarrow> nat \<Rightarrow> (rstr \<times> rstr) option" where
  "note_store f (Opened c d p) = f(c \<mapsto> (d, p))"
| "note_store f e = f"

fun note_session :: "(nat \<Rightarrow> (rstr \<times> rstr \<times> rstr) option) \<Rightarrow> client_event \<Rightarrow> nat
     \<Rightarrow> (rstr \<times> rstr \<times> rstr) option" where
  "note_session f (Restored c m d t) = f(c \<mapsto> (m, d, t))"
| "note_session f e = f"

text \<open>The store a client was opened on, and the user, device and token of its session.\<close>

definition store_of :: "client_event list \<Rightarrow> nat \<Rightarrow> (rstr \<times> rstr) option" where
  "store_of log = foldl note_store Map.empty log"

definition session_of :: "client_event list \<Rightarrow> nat \<Rightarrow> (rstr \<times> rstr \<times> rstr) option" where
  "session_of log = foldl note_session Map.empty log"

lemma log_simps [simp]:
  "store_of (log @ [e]) = note_store (store_of log) e" "session_of (log @ [e]) = note_session (session_of log) e"
  "store_of (log @ e # ev) = foldl note_store (note_store (store_of log) e) ev"
  "session_of (log @ e # ev) = foldl note_session (note_session (session_of log) e) ev"
  by (simp_all add: store_of_def session_of_def)

definition own_client :: "'h Primitives \<Rightarrow> rstr \<Rightarrow> client_event list \<Rightarrow> rstr \<Rightarrow> 'h \<Rightarrow> nat \<Rightarrow> bool" where
  "own_client pr pep log m h c \<longleftrightarrow> store_of log c = Some (mxid_dir_name pr m, derive_store_passphrase pr pep m)
     \<and> (\<exists>d t. session_of log c = Some (m, d, t) \<and> pr_token_hash pr t = h)"

definition cache_inv :: "'h Primitives \<Rightarrow> 'h MatrixClientCache \<Rightarrow> client_event list \<Rightarrow> bool" where
  "cache_inv pr st log \<longleftrightarrow> hm_ok (cells st)
     \<and> (\<forall>m c. cell_initialized st m = Some c \<longrightarrow> cc_client c < next_client st
          \<and> own_client pr (pepper st) log m (cc_token_hash c) (cc_client c))"

lemma cache_inv_init: "cache_inv pr (new_client_cache pep) []"
  by (simp add: cache_inv_def new_client_cache_def cell_initialized_def)

lemma cell_put [simp]: "cell_initialized (put_cached m c st) i = (if i = m then Some c else cell_initialized st i)"
  by (simp add: cell_initialized_def put_cached_def hm_get_insert)

lemma cell_evict [simp]: "cell_initialized (evict m st) i = (if i = m then None else cell_initialized st i)"
  by (simp add: cell_initialized_def evict_def hm_get_remove)

lemma put_rest [simp]:
  "pepper (put_cached m c st) = pepper st" "next_client (put_cached m c st) = next_client st"
  "healed (put_cached m c st) = healed st" "pepper (evict m st) = pepper st"
  "next_client (evict m st) = next_client st" "healed (evict m st) = healed st"
  "hm_ok (cells st) \<Longrightarrow> hm_ok (cells (put_cached m c st))" "hm_ok (cells st) \<Longrightarrow> hm_ok (cells (evict m st))"
  by (simp_all add: put_cached_def evict_def hm_simps)

lemma cache_invD:
  assumes "cache_inv pr st log" and "cell_initialized st m = Some c"
  shows "own_client pr (pepper st) log m (cc_token_hash c) (cc_client c)"
  using assms by (simp add: cache_inv_def)

lemma cache_inv_evict: "cache_inv pr st log \<Longrightarrow> cache_inv pr (evict m st) log"
  by (auto simp: cache_inv_def)

lemma cache_inv_put:
  assumes "cache_inv pr st log" and "cc_client c < next_client st"
    and "own_client pr (pepper st) (log @ ev) m (cc_token_hash c) (cc_client c)"
    and "\<And>i d. cell_initialized st i = Some d \<Longrightarrow> i \<noteq> m
      \<Longrightarrow> own_client pr (pepper st) (log @ ev) i (cc_token_hash d) (cc_client d)"
  shows "cache_inv pr (put_cached m c st) (log @ ev)"
  using assms by (auto simp: cache_inv_def)

text \<open>Two users never share a client: its session is of one of them.\<close>

lemma cells_distinct:
  assumes "cache_inv pr st log" and "cell_initialized st m = Some c" and "cell_initialized st i = Some d"
    and "cc_client c = cc_client d"
  shows "i = m"
proof -
  have "\<exists>d t. session_of log (cc_client c) = Some (m, d, t)" "\<exists>e t. session_of log (cc_client d) = Some (i, e, t)"
    using assms(1-3) unfolding cache_inv_def own_client_def by blast+
  with assms(4) show ?thesis by auto
qed

lemma refresh_result:
  "refresh_token_if_needed pr env c ident tok = (r, ev) \<Longrightarrow>
     (case r of Inl e \<Rightarrow> ev = []
      | Inr c' \<Rightarrow> cc_client c' = cc_client c \<and> cc_token_hash c' = pr_token_hash pr tok
          \<and> (ev = [] \<and> c' = c \<or> (\<exists>d. ev = [Restored (cc_client c) (mxid ident) d tok])))"
  by (auto simp: refresh_token_if_needed_def Let_def split: if_splits option.splits)

lemma refresh_own:
  assumes "refresh_token_if_needed pr env c ident tok = (Inr c', ev)"
    and "own_client pr pep log (mxid ident) (cc_token_hash c) (cc_client c)"
  shows "own_client pr pep (log @ ev) (mxid ident) (pr_token_hash pr tok) (cc_client c')"
    and "i \<noteq> cc_client c \<Longrightarrow> own_client pr pep (log @ ev) m h i = own_client pr pep log m h i"
  using refresh_result [OF assms(1)] assms(2) by (auto simp: own_client_def)

lemma build_result:
  assumes "build_cached pr env c pep ident tok = (r, ev)"
  shows "i \<noteq> c \<Longrightarrow> own_client pr pep' (log @ ev) m h i = own_client pr pep' log m h i"
    and "r = Inr c' \<Longrightarrow> cc_client c' = c \<and> cc_token_hash c' = pr_token_hash pr tok
      \<and> own_client pr pep (log @ ev) (mxid ident) (pr_token_hash pr tok) c"
  using assms by (auto simp: build_cached_def own_client_def Let_def split: if_splits option.splits)

lemma fetch_inv:
  assumes inv: "cache_inv pr st log" and f: "fetch_client pr env ident tok st = (r, st', ev)"
  shows "cache_inv pr st' (log @ ev) \<and> pepper st' = pepper st \<and> healed st' = healed st
    \<and> (\<forall>c. r = Inr c \<longrightarrow> cell_initialized st' (mxid ident) = Some c \<and> cc_token_hash c = pr_token_hash pr tok)"
proof (cases "\<exists>c. cell_initialized st (mxid ident) = Some c \<and> \<not> ce_sync_finished env (cc_client c)")
  case True
  then obtain c where c: "cell_initialized st (mxid ident) = Some c" "\<not> ce_sync_finished env (cc_client c)" by auto
  obtain r' ev' where rf: "refresh_token_if_needed pr env c ident tok = (r', ev')" by (metis prod.exhaust)
  show ?thesis
  proof (cases r')
    case (Inl e)
    with refresh_result [OF rf] f c rf inv show ?thesis by (auto simp: fetch_client_def)
  next
    case (Inr c')
    have own: "own_client pr (pepper st) log (mxid ident) (cc_token_hash c) (cc_client c)" "cc_client c < next_client st"
      using inv c by (auto simp: cache_inv_def)
    note ro = refresh_own [OF rf [unfolded Inr] own(1)]
    have c': "cc_client c' = cc_client c" "cc_token_hash c' = pr_token_hash pr tok"
      using refresh_result [OF rf] Inr by auto
    have "cache_inv pr (put_cached (mxid ident) c' st) (log @ ev')"
    proof (rule cache_inv_put [OF inv])
      show "own_client pr (pepper st) (log @ ev') (mxid ident) (cc_token_hash c') (cc_client c')"
        using ro(1) c' by simp
      fix i d
      assume d: "cell_initialized st i = Some d" "i \<noteq> mxid ident"
      with cells_distinct [OF inv c(1) d(1)] have "cc_client d \<noteq> cc_client c" by auto
      with ro(2) inv d show "own_client pr (pepper st) (log @ ev') i (cc_token_hash d) (cc_client d)"
        by (auto simp: cache_inv_def)
    qed (simp add: c' own)
    with Inr f c rf c' show ?thesis by (auto simp: fetch_client_def)
  qed
next
  case False
  define s1 where "s1 = (if cell_initialized st (mxid ident) \<noteq> None then evict (mxid ident) st else st)"
  define s2 where "s2 = (if hm_get (cells s1) (mxid ident) = None
    then s1\<lparr>cells := hm_insert (cells s1) (mxid ident) None\<rparr> else s1)"
  let ?n = "next_client st" and ?s = "s2\<lparr>next_client := next_client s2 + 1\<rparr>"
  have s1: "cell_initialized s1 i = (if i = mxid ident then None else cell_initialized st i)" for i
    by (simp add: s1_def)
  have s2: "cell_initialized s2 i = (if i = mxid ident then None else cell_initialized st i)" for i
    using s1 [of i] by (auto simp: s2_def cell_initialized_def hm_get_insert)
  have rest: "pepper s2 = pepper st" "healed s2 = healed st" "next_client s2 = ?n" "hm_ok (cells s2)"
    using inv by (auto simp: s2_def s1_def cache_inv_def hm_simps)
  obtain rb eb where b: "build_cached pr env ?n (pepper st) ident tok = (rb, eb)" by (metis prod.exhaust)
  have old: "own_client pr (pepper st) (log @ eb) i (cc_token_hash d) (cc_client d) \<and> cc_client d < ?n"
    if "cell_initialized st i = Some d" for i d
  proof -
    have d: "cc_client d < ?n" "own_client pr (pepper st) log i (cc_token_hash d) (cc_client d)"
      using inv that by (auto simp: cache_inv_def)
    then show ?thesis using build_result(1) [OF b, of "cc_client d"] by simp
  qed
  have "fetch_client pr env ident tok st = (case (rb, eb) of
        (Inl e, ev) \<Rightarrow> (Inl e, ?s, ev)
      | (Inr cached, ev) \<Rightarrow> (let st = put_cached (mxid ident) cached ?s in
          case refresh_token_if_needed pr env cached ident tok of
            (Inl e, ev') \<Rightarrow> (Inl e, st, ev @ ev')
          | (Inr cached, ev') \<Rightarrow> (Inr cached, put_cached (mxid ident) cached st, ev @ ev')))"
    using False b rest unfolding fetch_client_def Let_def s1_def [symmetric] s2_def [symmetric]
    by (auto split: option.splits)
  note fe = f [unfolded this]
  show ?thesis
  proof (cases rb)
    case (Inl e)
    have "cache_inv pr ?s (log @ eb)"
      using old rest s2 by (auto simp: cache_inv_def cell_initialized_def split: if_splits intro: less_SucI)
    with Inl fe rest show ?thesis by auto
  next
    case (Inr c)
    note c = build_result(2) [OF b Inr, of log]
    have "refresh_token_if_needed pr env c ident tok = (Inr c, [])"
      using c by (simp add: refresh_token_if_needed_def)
    with Inr fe have st': "r = Inr c" "st' = put_cached (mxid ident) c (put_cached (mxid ident) c ?s)" "ev = eb"
      by (auto simp: Let_def)
    have "cache_inv pr st' (log @ eb)"
      unfolding st' using old rest s2 c by (auto simp: cache_inv_def cell_initialized_def put_cached_def hm_simps split: if_splits intro: less_SucI)
    with st' c rest show ?thesis by auto
  qed
qed

section \<open>What a call keeps\<close>

definition wipes :: "rstr \<Rightarrow> client_event list \<Rightarrow> nat" where
  "wipes m log = length (filter (\<lambda>e. case e of Wiped m' _ \<Rightarrow> m' = m | _ \<Rightarrow> False) log)"

lemma wipes_simps [simp]:
  "wipes m [] = 0" "wipes m (a @ b) = wipes m a + wipes m b"
  "wipes m (e # ev) = (case e of Wiped m' _ \<Rightarrow> if m' = m then 1 else 0 | _ \<Rightarrow> 0) + wipes m ev"
  by (auto simp: wipes_def split: client_event.split)

lemma build_no_wipe: "build_cached pr env c pep ident tok = (r, ev) \<Longrightarrow> wipes m ev = 0"
  by (auto simp: build_cached_def Let_def split: if_splits option.splits)

lemma refresh_no_wipe: "refresh_token_if_needed pr env c ident tok = (r, ev) \<Longrightarrow> wipes m ev = 0"
  using refresh_result [of pr env c ident tok r ev] by (auto split: sum.splits)

lemma fetch_no_wipe: "fetch_client pr env ident tok st = (r, st', ev) \<Longrightarrow> wipes m ev = 0"
  unfolding fetch_client_def Let_def
  by (auto split: option.splits prod.splits sum.splits if_splits dest: build_no_wipe [where m = m] refresh_no_wipe [where m = m])

text \<open>The conditions of a heal.\<close>

definition heal_due :: "'a ClientEnv \<Rightarrow> nat \<Rightarrow> rstr \<Rightarrow> bool" where
  "heal_due env c m \<longleftrightarrow> verify_device_keys_published env c m = Inr False \<and> ce_backup_exists env c = Some True"

lemma heal_needed_result:
  assumes "heal_needed env c m retry st = (h, st')" and "cache_inv pr st log" and "cell_initialized st m = Some c"
  shows "cache_inv pr st' log" and "pepper st' = pepper st" and "set (healed st) \<subseteq> set (healed st')"
    and "\<exists>c'. cell_initialized st' m = Some c' \<and> cc_client c' = cc_client c \<and> cc_token_hash c' = cc_token_hash c"
    and "h \<Longrightarrow> \<not> retry \<and> m \<notin> set (healed st) \<and> m \<in> set (healed st') \<and> heal_due env (cc_client c) m"
proof -
  have claim: "cache_inv pr (st\<lparr>healed := hs\<rparr>) log" "cell_initialized (st\<lparr>healed := hs\<rparr>) i = cell_initialized st i" for hs i
    using assms(2) by (simp_all add: cache_inv_def cell_initialized_def)
  have put: "cache_inv pr (put_cached m (c\<lparr>keys_verified := True\<rparr>) st) log"
    using assms(2,3) by (auto simp: cache_inv_def)
  note d = assms(1) [unfolded heal_needed_def claim_heal_def Let_def, symmetric]
  show "cache_inv pr st' log" "pepper st' = pepper st" "set (healed st) \<subseteq> set (healed st')"
    "\<exists>c'. cell_initialized st' m = Some c' \<and> cc_client c' = cc_client c \<and> cc_token_hash c' = cc_token_hash c"
    "h \<Longrightarrow> \<not> retry \<and> m \<notin> set (healed st) \<and> m \<in> set (healed st') \<and> heal_due env (cc_client c) m"
    using d assms(2,3) claim put
    by (auto simp: heal_due_def key_backup_is_recoverable_def split: if_splits sum.splits option.splits)
qed

lemma note_wipe: "own_client pr pep (log @ [Wiped m d]) i h c = own_client pr pep log i h c"
  by (simp add: own_client_def)

lemma wipe_result:
  assumes "wipe_user_store pr env m = (ok, ev)"
  shows "cache_inv pr st log \<Longrightarrow> cache_inv pr st (log @ ev)" and "i \<noteq> m \<Longrightarrow> wipes i ev = 0" and "wipes i ev \<le> 1"
  using assms by (auto simp: wipe_user_store_def cache_inv_def note_wipe split: option.splits)

text \<open>One pass: the client fetched and the decision on it.\<close>

lemma pass_result:
  assumes f: "fetch_client pr env ident tok st = (Inr c, sf, ef)" and inv: "cache_inv pr st log"
    and hn: "heal_needed env c (mxid ident) retry sf = (h, sh)"
  shows "cache_inv pr sh (log @ ef)" and "pepper sh = pepper st" and "set (healed st) \<subseteq> set (healed sh)"
    and "get_if_cached sh (mxid ident) = Some (cc_client c)"
    and "own_client pr (pepper st) (log @ ef) (mxid ident) (pr_token_hash pr tok) (cc_client c)"
    and "h \<Longrightarrow> \<not> retry \<and> mxid ident \<notin> set (healed st) \<and> mxid ident \<in> set (healed sh)
      \<and> heal_due env (cc_client c) (mxid ident)"
proof -
  note fi = fetch_inv [OF inv f]
  then have cell: "cell_initialized sf (mxid ident) = Some c" "cc_token_hash c = pr_token_hash pr tok"
    "cache_inv pr sf (log @ ef)" "pepper sf = pepper st" "healed sf = healed st" by auto
  note hr = heal_needed_result [OF hn cell(3) cell(1)]
  from hr cell show "cache_inv pr sh (log @ ef)" "pepper sh = pepper st" "set (healed st) \<subseteq> set (healed sh)"
    "h \<Longrightarrow> \<not> retry \<and> mxid ident \<notin> set (healed st) \<and> mxid ident \<in> set (healed sh)
      \<and> heal_due env (cc_client c) (mxid ident)" by simp_all
  from hr(4) show "get_if_cached sh (mxid ident) = Some (cc_client c)" by (auto simp: get_if_cached_def)
  from cache_invD [OF cell(3,1)] cell(2,4)
  show "own_client pr (pepper st) (log @ ef) (mxid ident) (pr_token_hash pr tok) (cc_client c)" by simp
qed

definition call_ok ::
  "'h Primitives \<Rightarrow> 'a ClientEnv \<Rightarrow> AuthenticatedIdentity \<Rightarrow> rstr \<Rightarrow> bool \<Rightarrow> 'h MatrixClientCache \<Rightarrow> client_event list
     \<Rightarrow> (ClientError + nat) \<times> 'h MatrixClientCache \<times> client_event list \<Rightarrow> bool" where
  "call_ok pr env ident tok retry st log res \<longleftrightarrow> (case res of (r, st', ev) \<Rightarrow>
     cache_inv pr st' (log @ ev) \<and> pepper st' = pepper st \<and> set (healed st) \<subseteq> set (healed st')
     \<and> (\<forall>c. r = Inr c \<longrightarrow> get_if_cached st' (mxid ident) = Some c
          \<and> own_client pr (pepper st) (log @ ev) (mxid ident) (pr_token_hash pr tok) c)
     \<and> (\<forall>i. wipes i ev = 0 \<or> (wipes i ev = 1 \<and> i = mxid ident \<and> \<not> retry \<and> i \<notin> set (healed st) \<and> i \<in> set (healed st')
          \<and> (\<exists>c. heal_due env c i))))"

lemma for_user_pass:
  assumes inv: "cache_inv pr st log"
    and heal: "\<And>c sf ef sh. fetch_client pr env ident tok st = (Inr c, sf, ef)
      \<Longrightarrow> heal_needed env c (mxid ident) retry sf = (True, sh) \<Longrightarrow>
      call_ok pr env ident tok retry st log (for_user_inner pr env ident tok retry st)"
  shows "call_ok pr env ident tok retry st log (for_user_inner pr env ident tok retry st)"
proof -
  obtain r sf ef where f: "fetch_client pr env ident tok st = (r, sf, ef)" by (metis prod.exhaust)
  have nw: "wipes i ef = 0" for i by (rule fetch_no_wipe [OF f])
  show ?thesis
  proof (cases r)
    case (Inl e)
    with fetch_inv [OF inv f] nw show ?thesis
      by (subst for_user_inner.simps) (simp add: f call_ok_def)
  next
    case (Inr c)
    obtain h sh where hn: "heal_needed env c (mxid ident) retry sf = (h, sh)" by (metis prod.exhaust)
    show ?thesis
    proof (cases h)
      case True
      from heal f Inr hn True show ?thesis by simp
    next
      case False
      with pass_result [OF f [unfolded Inr] inv hn] nw f Inr hn show ?thesis
        by (subst for_user_inner.simps) (simp add: call_ok_def)
    qed
  qed
qed

lemma for_user_ok:
  assumes inv: "cache_inv pr st log"
  shows "call_ok pr env ident tok retry st log (for_user_inner pr env ident tok retry st)"
proof (rule for_user_pass [OF inv])
  fix c sf ef sh
  assume f: "fetch_client pr env ident tok st = (Inr c, sf, ef)"
    and hn: "heal_needed env c (mxid ident) retry sf = (True, sh)"
  let ?m = "mxid ident"
  note pass = pass_result [OF f inv hn]
  have nw: "wipes i ef = 0" for i by (rule fetch_no_wipe [OF f])
  obtain ok ew where w: "wipe_user_store pr env ?m = (ok, ew)" by (metis prod.exhaust)
  note wi = wipe_result [OF w]
  have inv': "cache_inv pr (evict ?m sh) (log @ ef @ ew)" using wi(1) [OF cache_inv_evict [OF pass(1)]] by simp
  show "call_ok pr env ident tok retry st log (for_user_inner pr env ident tok retry st)"
  proof (cases ok)
    case False
    with w have "ew = []" by (auto simp: wipe_user_store_def split: option.splits)
    with False inv' pass(2,3) nw f hn w show ?thesis
      by (subst for_user_inner.simps) (simp add: call_ok_def Let_def)
  next
    case True
    have "call_ok pr env ident tok True (evict ?m sh) (log @ ef @ ew)
        (for_user_inner pr env ident tok True (evict ?m sh))"
    proof (rule for_user_pass [OF inv'])
      fix c' sf' ef' sh'
      assume "heal_needed env c' ?m True sf' = (True, sh')"
      with heal_needed_retry [of env c' ?m sf'] show "call_ok pr env ident tok True (evict ?m sh) (log @ ef @ ew)
          (for_user_inner pr env ident tok True (evict ?m sh))" by simp
    qed
    then obtain r2 s2 e2 where n: "for_user_inner pr env ident tok True (evict ?m sh) = (r2, s2, e2)"
      and rec: "cache_inv pr s2 ((log @ ef @ ew) @ e2)" "pepper s2 = pepper sh" "set (healed sh) \<subseteq> set (healed s2)"
        "\<forall>c. r2 = Inr c \<longrightarrow> get_if_cached s2 ?m = Some c
           \<and> own_client pr (pepper sh) ((log @ ef @ ew) @ e2) ?m (pr_token_hash pr tok) c"
        "\<And>i. wipes i e2 = 0"
      by (auto simp: call_ok_def split: prod.splits)
    have "for_user_inner pr env ident tok retry st = (r2, s2, ef @ ew @ e2)"
      using f hn w True n by (subst for_user_inner.simps) (simp add: Let_def)
    moreover have "wipes i (ef @ ew @ e2) = 0 \<or> (wipes i (ef @ ew @ e2) = 1 \<and> i = ?m \<and> \<not> retry
        \<and> i \<notin> set (healed st) \<and> i \<in> set (healed s2) \<and> (\<exists>c. heal_due env c i))" for i
    proof (cases "wipes i ew = 0")
      case True
      with nw rec(5) show ?thesis by simp
    next
      case False
      with wi(2,3) [of i] have "i = ?m" "wipes i ew = 1" by linarith+
      with nw rec(3,5) pass(6) show ?thesis by auto
    qed
    moreover have "set (healed st) \<subseteq> set (healed s2)" using pass(3) rec(3) by blast
    ultimately show ?thesis
      using rec(1,2,4) pass(2) unfolding call_ok_def by simp
  qed
qed

section \<open>Any sequence of calls\<close>

datatype 'a cache_call = ForUser "'a ClientEnv" AuthenticatedIdentity rstr | EvictUser rstr

fun apply_call :: "'h Primitives \<Rightarrow> 'h MatrixClientCache \<times> client_event list \<Rightarrow> 'a cache_call
    \<Rightarrow> 'h MatrixClientCache \<times> client_event list" where
  "apply_call pr (st, log) (ForUser env ident tok) = (case for_user pr env ident tok st of (_, st', ev) \<Rightarrow> (st', log @ ev))"
| "apply_call pr (st, log) (EvictUser m) = (evict m st, log)"

definition run_cache ::
  "'h Primitives \<Rightarrow> rstr \<Rightarrow> 'a cache_call list \<Rightarrow> 'h MatrixClientCache \<times> client_event list" where
  "run_cache pr pep calls = foldl (apply_call pr) (new_client_cache pep, []) calls"

definition run_inv :: "'h Primitives \<Rightarrow> rstr \<Rightarrow> 'h MatrixClientCache \<times> client_event list \<Rightarrow> bool" where
  "run_inv pr pep sl \<longleftrightarrow> cache_inv pr (fst sl) (snd sl) \<and> pepper (fst sl) = pep
     \<and> (\<forall>m. wipes m (snd sl) \<le> (if m \<in> set (healed (fst sl)) then 1 else 0))"

lemma run_inv_for_user:
  assumes "run_inv pr pep (st, log)" and "for_user pr env ident tok st = (r, st', ev)"
  shows "run_inv pr pep (st', log @ ev)"
    and "r = Inr c \<Longrightarrow> get_if_cached st' (mxid ident) = Some c
      \<and> own_client pr pep (log @ ev) (mxid ident) (pr_token_hash pr tok) c"
    and "wipes m ev = 0 \<or> (wipes m ev = 1 \<and> m = mxid ident \<and> (\<exists>c. heal_due env c m))"
proof -
  have "call_ok pr env ident tok False st log (r, st', ev)"
    using for_user_ok [of pr st log env ident tok False] assms by (simp add: run_inv_def for_user_def)
  then have c: "cache_inv pr st' (log @ ev)" "pepper st' = pep" "set (healed st) \<subseteq> set (healed st')"
    "\<And>c. r = Inr c \<Longrightarrow> get_if_cached st' (mxid ident) = Some c
      \<and> own_client pr pep (log @ ev) (mxid ident) (pr_token_hash pr tok) c"
    and w: "\<And>i. wipes i ev = 0 \<or> (wipes i ev = 1 \<and> i = mxid ident \<and> i \<notin> set (healed st) \<and> i \<in> set (healed st')
         \<and> (\<exists>c. heal_due env c i))"
    using assms(1) by (simp_all add: call_ok_def run_inv_def)
  have "wipes i (log @ ev) \<le> (if i \<in> set (healed st') then 1 else 0)" for i
  proof (cases "wipes i ev = 0")
    case True
    have "wipes i log \<le> (if i \<in> set (healed st) then 1 else 0)" using assms(1) by (simp add: run_inv_def)
    with True c(3) show ?thesis by (auto split: if_splits)
  next
    case False
    with w [of i] have "wipes i ev = 1" "i \<notin> set (healed st)" "i \<in> set (healed st')" by auto
    moreover from this have "wipes i log = 0" using assms(1) by (auto simp: run_inv_def split: if_splits)
    ultimately show ?thesis by simp
  qed
  with c show "run_inv pr pep (st', log @ ev)" by (simp add: run_inv_def)
  show "r = Inr c \<Longrightarrow> get_if_cached st' (mxid ident) = Some c
      \<and> own_client pr pep (log @ ev) (mxid ident) (pr_token_hash pr tok) c" by (rule c(4))
  show "wipes m ev = 0 \<or> (wipes m ev = 1 \<and> m = mxid ident \<and> (\<exists>c. heal_due env c m))"
    using w [of m] by auto
qed

lemma apply_call_inv: "run_inv pr pep sl \<Longrightarrow> run_inv pr pep (apply_call pr sl call)"
proof (cases call)
  case (ForUser env ident tok)
  assume inv: "run_inv pr pep sl"
  obtain st log where sl: "sl = (st, log)" by (cases sl)
  obtain r st' ev where f: "for_user pr env ident tok st = (r, st', ev)" by (metis prod.exhaust)
  from run_inv_for_user(1) [OF inv [unfolded sl] f] show ?thesis by (simp add: sl ForUser f)
next
  case (EvictUser m)
  assume "run_inv pr pep sl"
  then show ?thesis by (cases sl) (simp add: EvictUser run_inv_def cache_inv_evict)
qed

lemma run_cache_inv: "run_inv pr pep (run_cache pr pep calls)"
proof -
  have "run_inv pr pep sl \<Longrightarrow> run_inv pr pep (foldl (apply_call pr) sl calls)" for sl
    by (induction calls arbitrary: sl) (simp_all add: apply_call_inv)
  moreover have "run_inv pr pep (new_client_cache pep, [])"
    using cache_inv_init by (simp add: run_inv_def new_client_cache_def)
  ultimately show ?thesis by (simp add: run_cache_def)
qed

text \<open>C10: After any sequence of calls and evictions for any users, a call for a user returns the client that stays
  cached for that user; it was opened on the directory and with the passphrase derived from that
  user's id, and its session is that user's, with a token whose digest is the presented one's. So
  no user is served another's store or session, and a rotated token is installed before use.\<close>

theorem client_is_the_users_own:
  "case run_cache pr pep calls of (st, log) \<Rightarrow> (case for_user pr env ident tok st of (r, st', ev) \<Rightarrow>
     (case r of Inl e \<Rightarrow> True | Inr c \<Rightarrow> get_if_cached st' (mxid ident) = Some c
        \<and> store_of (log @ ev) c = Some (mxid_dir_name pr (mxid ident), derive_store_passphrase pr pep (mxid ident))
        \<and> (\<exists>d t. session_of (log @ ev) c = Some (mxid ident, d, t) \<and> pr_token_hash pr t = pr_token_hash pr tok)))"
proof -
  obtain st log where run: "run_cache pr pep calls = (st, log)" by (metis prod.exhaust)
  obtain r st' ev where f: "for_user pr env ident tok st = (r, st', ev)" by (metis prod.exhaust)
  from run_inv_for_user(2) [OF run_cache_inv [of pr pep calls, unfolded run] f]
  show ?thesis by (auto simp: run f own_client_def split: sum.split)
qed

text \<open>C33: Whatever the homeserver answers, the store of a user is wiped at most once in the life of the process,
  however many calls there are; and a call wipes only the caller's own store, and only when the
  homeserver's answer lacks the keys of the client's device and a key backup is known to exist.\<close>

theorem store_wiped_at_most_once:
  "case run_cache pr pep calls of (st, log) \<Rightarrow> (case for_user pr env ident tok st of (r, st', ev) \<Rightarrow>
     wipes m (log @ ev) \<le> 1
     \<and> (wipes m ev = 0 \<or> (m = mxid ident \<and> (\<exists>c.
          verify_device_keys_published env c m = Inr False \<and> ce_backup_exists env c = Some True))))"
proof -
  obtain st log where run: "run_cache pr pep calls = (st, log)" by (metis prod.exhaust)
  obtain r st' ev where f: "for_user pr env ident tok st = (r, st', ev)" by (metis prod.exhaust)
  note ri = run_inv_for_user [OF run_cache_inv [of pr pep calls, unfolded run] f]
  have "wipes m (log @ ev) \<le> 1"
  proof -
    have "wipes m (log @ ev) \<le> (if m \<in> set (healed st') then 1 else 0)"
      using ri(1) unfolding run_inv_def snd_conv fst_conv by blast
    then show ?thesis by (rule order.trans) simp
  qed
  with ri(3) [of m] show ?thesis by (auto simp: run f heal_due_def)
qed

end
