(* ===== verification/SetupPages.thy ===== *)
theory SetupPages
  imports Utf8
begin

text \<open>
  The text helpers and the pages of \<open>src/setup.rs\<close>: HTML and URL escaping, the URL
  authority, and the templates. Every value a page shows goes through \<open>html_escape\<close>.
\<close>

abbreviation LF :: rstr where "LF \<equiv> [CHR 0x0A]"

section \<open>Escaping\<close>

definition html_escape :: "rstr \<Rightarrow> rstr" where
  "html_escape s =
     str_replace [CHR 0x27] ''&#39;'' (str_replace [CHR 0x22] ''&quot;'' (str_replace ''>'' ''&gt;''
       (str_replace ''<'' ''&lt;'' (str_replace ''&'' ''&amp;'' s))))"

definition is_unreserved :: "char \<Rightarrow> bool" where
  "is_unreserved c \<longleftrightarrow> (65 \<le> byte_of c \<and> byte_of c \<le> 90) \<or> (97 \<le> byte_of c \<and> byte_of c \<le> 122)
     \<or> (48 \<le> byte_of c \<and> byte_of c \<le> 57) \<or> c \<in> set ''-_.~''"

definition hex_digit :: "nat \<Rightarrow> char" where
  "hex_digit n = ''0123456789ABCDEF'' ! n"

definition url_encode_byte :: "char \<Rightarrow> rstr" where
  "url_encode_byte c = (if is_unreserved c then [c]
     else [CHR ''%'', hex_digit (byte_of c div 16), hex_digit (byte_of c mod 16)])"

definition url_encode :: "rstr \<Rightarrow> rstr" where
  "url_encode s = concat (map url_encode_byte s)"

text \<open>\<open>split("://").nth(1)\<close>: between the first and the second separator.\<close>

fun split_scheme :: "rstr \<Rightarrow> rstr \<Rightarrow> (rstr \<times> rstr) option" where
  "split_scheme acc [] = None"
| "split_scheme acc (c # cs) =
     (if prefix ''://'' (c # cs) then Some (acc, drop 2 cs) else split_scheme (acc @ [c]) cs)"

definition parse_authority :: "rstr \<Rightarrow> rstr option" where
  "parse_authority url = (case split_scheme [] url of None \<Rightarrow> None
     | Some (_, rest) \<Rightarrow>
         (let after_scheme = (case split_scheme [] rest of None \<Rightarrow> rest | Some (mid, _) \<Rightarrow> mid);
              authority = takeWhile (\<lambda>c. c \<notin> set ''/?#'') after_scheme
          in if authority = [] then None else Some authority))"

section \<open>Templates\<close>

definition PAGE_HEAD :: rstr where
  \<open>PAGE_HEAD =
    ''<!doctype html>'' @ LF @
    ''<html lang="en">'' @ LF @
    ''<head>'' @ LF @
    ''<meta charset="utf-8">'' @ LF @
    ''<meta name="viewport" content="width=device-width, initial-scale=1">'' @ LF @
    ''<meta name="robots" content="noindex,nofollow">'' @ LF @
    ''<title>''\<close>

definition PAGE_STYLE :: rstr where
  \<open>PAGE_STYLE =
    ''</title>'' @ LF @
    ''<style>'' @ LF @
    ''  body { background:#111; color:#eee; font:14px/1.5 system-ui,sans-serif; max-width: 38rem; margin: 4rem auto; padding: 0 1rem; }'' @ LF @
    ''  h1 { font-size: 1.3rem; margin: 0 0 1rem; }'' @ LF @
    ''  p { color: #bbb; }'' @ LF @
    ''  code { background:#222; padding: 0 0.3em; border-radius: 3px; }'' @ LF @
    ''  label { display: block; margin: 1rem 0 0.25rem; color:#bbb; }'' @ LF @
    ''  input[type=password], input[type=text] {'' @ LF @
    ''    width: 100%; padding: 0.6rem; background:#1a1a1a; color:#eee;'' @ LF @
    ''    border: 1px solid #333; border-radius: 4px; font-family: ui-monospace,monospace;'' @ LF @
    ''    box-sizing: border-box;'' @ LF @
    ''  }'' @ LF @
    ''  button, a.btn {'' @ LF @
    ''    display: inline-block; margin-top: 1.5rem; padding: 0.6rem 1.2rem;'' @ LF @
    ''    background:#3a6df0; color:white; border:0; border-radius: 4px;'' @ LF @
    ''    cursor: pointer; text-decoration: none; font: inherit;'' @ LF @
    ''  }'' @ LF @
    ''  button:hover, a.btn:hover { background:#2a5dd0; }'' @ LF @
    ''  .err { color: #f88; background:#2a1010; padding: 0.6rem 0.8rem; border-radius: 4px; }'' @ LF @
    ''</style>'' @ LF @
    ''</head>'' @ LF @
    ''<body>'' @ LF\<close>

definition PAGE_END :: rstr where
  \<open>PAGE_END =
    LF @
    ''</body>'' @ LF @
    ''</html>'' @ LF\<close>

definition ERROR_HEAD :: rstr where
  \<open>ERROR_HEAD =
    ''<h1>Something went wrong</h1>'' @ LF @
    ''<p class="err">''\<close>

definition ERROR_END :: rstr where
  \<open>ERROR_END =
    ''</p>'' @ LF @
    ''<a class="btn" href="/setup">Start over</a>''\<close>

definition FORM_HEAD :: rstr where
  \<open>FORM_HEAD =
    ''<h1>Paste your recovery key</h1>'' @ LF @
    ''<p>Signed in as <code>''\<close>

definition FORM_MID :: rstr where
  \<open>FORM_MID =
    ''</code>. Paste the Matrix Secret'' @ LF @
    ''Storage recovery key (the 48-character <code>Esso&nbsp;'' @ [CHR 0xE2, CHR 0x80, CHR 0xA6] @ ''</code> string)'' @ LF @
    ''or the security passphrase you set up in Element X when you first'' @ LF @
    ''enabled cross-signing.</p>'' @ LF @
    ''<form method="POST" action="/setup/recover" autocomplete="off">'' @ LF @
    ''<input type="hidden" name="csrf_token" value="''\<close>

definition FORM_END :: rstr where
  \<open>FORM_END =
    ''">'' @ LF @
    ''<label for="recovery_key">Recovery key</label>'' @ LF @
    ''<input type="password" id="recovery_key" name="recovery_key" required autofocus'' @ LF @
    ''       autocomplete="off" spellcheck="false" inputmode="text">'' @ LF @
    ''<button type="submit">Unlock E2EE</button>'' @ LF @
    ''</form>'' @ LF @
    ''<p style="margin-top:2rem;font-size:0.85rem;color:#888">The key is sent'' @ LF @
    ''once to matrix-mcp over HTTPS and never logged, never stored. Only the'' @ LF @
    ''derived cross-signing private keys are persisted, encrypted on disk.</p>''\<close>

definition LANDING_HTML_TEMPLATE :: rstr where
  \<open>LANDING_HTML_TEMPLATE =
    ''<!doctype html><html lang="en"><head>'' @ LF @
    ''<meta charset="utf-8"><meta name="viewport" content="width=device-width, initial-scale=1">'' @ LF @
    ''<meta name="robots" content="noindex,nofollow">'' @ LF @
    ''<title>matrix-mcp setup</title>'' @ LF @
    ''<style>'' @ LF @
    ''body { background:#111; color:#eee; font:14px/1.5 system-ui,sans-serif; max-width: 38rem; margin: 4rem auto; padding: 0 1rem; }'' @ LF @
    ''h1 { font-size: 1.3rem; margin: 0 0 1rem; }'' @ LF @
    ''p { color: #bbb; }'' @ LF @
    ''code { background:#222; padding: 0 0.3em; border-radius: 3px; }'' @ LF @
    ''a.btn { display:inline-block; margin-top:1.5rem; padding:0.6rem 1.2rem; background:#3a6df0; color:#fff; border-radius:4px; text-decoration:none; }'' @ LF @
    ''a.btn:hover { background:#2a5dd0; }'' @ LF @
    ''</style></head><body>'' @ LF @
    ''<h1>matrix-mcp '' @ [CHR 0xE2, CHR 0x80, CHR 0x94] @ '' unlock E2EE</h1>'' @ LF @
    ''<p>Sign in once so matrix-mcp can import your cross-signing keys from'' @ LF @
    ''Matrix Secret Storage. You'' @ [CHR 0x27] @ ''ll be redirected to <code>{{MAS_HOST}}</code>'' @ LF @
    ''to authenticate, then back here to paste your recovery key.</p>'' @ LF @
    ''<p>The recovery key is used once and not stored on this server. The'' @ LF @
    ''imported cross-signing private keys are encrypted at rest with a'' @ LF @
    ''per-user key derived from a server-wide secret.</p>'' @ LF @
    ''<a class="btn" href="/setup/login">Sign in</a>'' @ LF @
    ''</body></html>''\<close>

definition SUCCESS_HTML :: rstr where
  \<open>SUCCESS_HTML =
    ''<!doctype html><html lang="en"><head>'' @ LF @
    ''<meta charset="utf-8"><meta name="viewport" content="width=device-width, initial-scale=1">'' @ LF @
    ''<meta name="robots" content="noindex,nofollow">'' @ LF @
    ''<title>matrix-mcp '' @ [CHR 0xE2, CHR 0x80, CHR 0x94] @ '' unlocked</title>'' @ LF @
    ''<style>'' @ LF @
    ''body { background:#111; color:#eee; font:14px/1.5 system-ui,sans-serif; max-width: 38rem; margin: 4rem auto; padding: 0 1rem; }'' @ LF @
    ''h1 { font-size: 1.3rem; margin: 0 0 1rem; }'' @ LF @
    ''p { color: #bbb; }'' @ LF @
    ''code { background:#222; padding:0 0.3em; border-radius:3px; }'' @ LF @
    ''</style></head><body>'' @ LF @
    ''<h1>'' @ [CHR 0xE2, CHR 0x9C, CHR 0x93] @ '' Unlocked</h1>'' @ LF @
    ''<p>Cross-signing private keys imported. matrix-mcp will self-sign its'' @ LF @
    ''device on the next sync ('' @ [CHR 0xE2, CHR 0x89, CHR 0xA4] @ ''30 s). Head back to claude.ai and call'' @ LF @
    ''<code>verify_status</code> '' @ [CHR 0xE2, CHR 0x80, CHR 0x94] @ '' it should now report'' @ LF @
    ''<code>cross_signed: true</code>.</p>'' @ LF @
    ''<p>Historical message decryption: matrix-mcp is now downloading your'' @ LF @
    ''megolm session backup in the background '' @ [CHR 0xE2, CHR 0x80, CHR 0x94] @ '' one request per encrypted'' @ LF @
    ''room, up to 200 rooms. For a busy account this can take a minute or'' @ LF @
    ''two. Re-running <code>read_recent_messages</code> on the same room a'' @ LF @
    ''minute later should show previously-undecryptable history as'' @ LF @
    ''<code>status: decrypted</code>.</p>'' @ LF @
    ''<p>You can close this tab.</p>'' @ LF @
    ''</body></html>''\<close>

definition page :: "rstr \<Rightarrow> rstr \<Rightarrow> rstr" where
  "page title body = PAGE_HEAD @ title @ PAGE_STYLE @ body @ PAGE_END"

definition em_dash :: rstr where "em_dash = [CHR 0xE2, CHR 0x80, CHR 0x94]"

definition form_html :: "rstr \<Rightarrow> rstr \<Rightarrow> rstr" where
  "form_html mxid csrf_token = page (''matrix-mcp '' @ em_dash @ '' recovery key'')
     (FORM_HEAD @ html_escape mxid @ FORM_MID @ html_escape csrf_token @ FORM_END)"

definition error_body :: "rstr \<Rightarrow> rstr" where
  "error_body msg = page (''matrix-mcp '' @ em_dash @ '' error'') (ERROR_HEAD @ html_escape msg @ ERROR_END)"

definition landing_html :: "rstr \<Rightarrow> rstr" where
  "landing_html mas_host_escaped =
     str_replace ''{{MAS_HOST}}'' mas_host_escaped LANDING_HTML_TEMPLATE"

section \<open>What the escapes give\<close>

definition html_char :: "char \<Rightarrow> rstr" where
  "html_char c = (if c = CHR ''&'' then ''&amp;'' else if c = CHR ''<'' then ''&lt;''
     else if c = CHR ''>'' then ''&gt;'' else if c = CHR 0x22 then ''&quot;''
     else if c = CHR 0x27 then ''&#39;'' else [c])"

lemma str_replace_single:
  "str_replace [p] rep s = concat (map (\<lambda>c. if c = p then rep else [c]) s)"
  by (induction s) (auto simp: str_replace.simps(2))

lemma html_escape_map: "html_escape s = concat (map html_char s)"
proof -
  have "str_replace [p] rep (concat (map f s)) = concat (map (\<lambda>c. str_replace [p] rep (f c)) s)" for p rep f
    by (induction s) (simp_all add: str_replace_single)
  then show ?thesis
    by (simp add: html_escape_def str_replace_single html_char_def if_distrib cong: if_cong)
      (rule arg_cong [where f = concat], rule map_cong, simp_all add: html_char_def)
qed

definition markup :: "char \<Rightarrow> bool" where
  "markup c \<longleftrightarrow> c \<in> {CHR ''<'', CHR ''>'', CHR 0x22, CHR 0x27}"

lemma html_escape_no_markup: "filter markup (html_escape s) = []"
  by (induction s) (auto simp: html_escape_map html_char_def markup_def)


lemma str_replace_filter:
  "filter P pat = [] \<Longrightarrow> filter P rep = [] \<Longrightarrow> filter P (str_replace pat rep s) = filter P s"
proof (induction pat rep s rule: str_replace.induct)
  case (2 pat rep c cs)
  show ?case
  proof (cases "pat \<noteq> [] \<and> prefix pat (c # cs)")
    case True
    then obtain r where r: "c # cs = pat @ r" by (auto simp: prefix_def)
    then have d: "drop (length pat) (c # cs) = r" by simp
    have "str_replace pat rep (c # cs) = rep @ str_replace pat rep r"
      using True d by (simp add: str_replace.simps(2))
    with 2(1) [OF True] 2(3,4) d show ?thesis by (metis append_Nil filter_append r)
  next
    case False
    then have "str_replace pat rep (c # cs) = c # str_replace pat rep cs"
      by (auto simp: str_replace.simps(2))
    with 2(2) [OF False] 2(3,4) show ?thesis by simp
  qed
qed simp

text \<open>No text shown on a page adds or hides markup: the angle brackets and quotes of the error page, the
  key form and the landing page are those of their templates whatever the message, the user id, the
  token and the host contain.\<close>

theorem pages_markup_fixed:
  "filter markup (error_body msg) = filter markup (error_body [])
   \<and> filter markup (form_html mxid csrf) = filter markup (form_html [] [])
   \<and> filter markup (landing_html (html_escape host)) = filter markup LANDING_HTML_TEMPLATE"
proof -
  have "filter markup ''{{MAS_HOST}}'' = []" by (simp add: markup_def)
  then show ?thesis
    by (simp add: error_body_def form_html_def page_def html_escape_no_markup landing_html_def
        str_replace_filter)
qed

section \<open>URL encoding\<close>

text \<open>The percent-decoding of RFC 3986, as the reference.\<close>

definition hex_value :: "char \<Rightarrow> nat option" where
  "hex_value c = (if 48 \<le> byte_of c \<and> byte_of c \<le> 57 then Some (byte_of c - 48)
     else if 65 \<le> byte_of c \<and> byte_of c \<le> 70 then Some (byte_of c - 55) else None)"

fun url_decode :: "rstr \<Rightarrow> rstr option" where
  "url_decode [] = Some []"
| "url_decode (c # cs) =
     (if c = CHR ''%''
      then (case cs of
          h # l # rest \<Rightarrow> (case (hex_value h, hex_value l) of
              (Some a, Some b) \<Rightarrow> map_option (\<lambda>r. char_of (16 * a + b) # r) (url_decode rest)
            | _ \<Rightarrow> None)
        | _ \<Rightarrow> None)
      else map_option (\<lambda>r. c # r) (url_decode cs))"

lemma hex_digit_cases:
  "n < 16 \<Longrightarrow> hex_value (hex_digit n) = Some n \<and> is_unreserved (hex_digit n)"
proof -
  have "\<forall>n<16. hex_value (hex_digit n) = Some n \<and> is_unreserved (hex_digit n)" by code_simp
  then show "n < 16 \<Longrightarrow> hex_value (hex_digit n) = Some n \<and> is_unreserved (hex_digit n)" by blast
qed

lemma url_encode_byte_ok:
  "list_all (\<lambda>c. is_unreserved c \<or> c = CHR ''%'') (url_encode_byte c)
   \<and> url_decode (url_encode_byte c @ r) = map_option (\<lambda>r. c # r) (url_decode r)"
proof -
  have "byte_of c div 16 < 16" "byte_of c mod 16 < 16"
    using nat_of_char_less_256 [of c] by (auto simp: less_mult_imp_div_less)
  note hex = hex_digit_cases [OF this(1)] hex_digit_cases [OF this(2)]
  have "\<not> is_unreserved (CHR ''%'')" by (simp add: is_unreserved_def)
  then show ?thesis using hex by (auto simp: url_encode_byte_def)
qed

lemma url_encode_chars: "list_all (\<lambda>c. is_unreserved c \<or> c = CHR ''%'') (url_encode s)"
  using url_encode_byte_ok by (induction s) (auto simp: url_encode_def)

text \<open>An encoded value has only unreserved characters and percent signs, so it never ends or adds a
  parameter of the authorization URL, and decoding it gives the value back.\<close>

theorem url_encode_roundtrip:
  "url_decode (url_encode s) = Some s
   \<and> list_all (\<lambda>c. is_unreserved c \<or> c = CHR ''%'') (url_encode s)"
proof
  show "url_decode (url_encode s) = Some s"
    by (induction s) (simp_all add: url_encode_def url_encode_byte_ok)
qed (rule url_encode_chars)

end
