(* ===== verification/Setup.thy ===== *)
theory Setup
  imports SetupPages TtlMap Introspection KeyBackupGate
begin

text \<open>
  \<open>src/setup.rs\<close>: the browser flow that imports a user's cross-signing keys. Every handler
  is a function of what it meets outside (clocks, random values, the replies of the authorization
  server, the cache of Matrix clients) and of the two pending maps. Time is in seconds.
\<close>

definition SESSION_COOKIE :: rstr where "SESSION_COOKIE = ''__Secure-matrix_mcp_setup''"
definition PKCE_TTL :: nat where "PKCE_TTL = 300"
definition PKCE_MAX_PENDING :: nat where "PKCE_MAX_PENDING = 256"
definition SESSION_TTL :: nat where "SESSION_TTL = 1800"
definition SESSIONS_MAX_PENDING :: nat where "SESSIONS_MAX_PENDING = 64"
definition KEY_BACKUP_MAX_ROOMS :: nat where "KEY_BACKUP_MAX_ROOMS = 200"

record PendingPkce =
  verifier :: rstr
  pkce_created :: instant

record SetupSession =
  ss_subject :: rstr
  ss_mxid :: rstr
  ss_device :: "rstr option"
  ss_token :: rstr
  ss_created :: instant
  ss_csrf :: rstr

text \<open>The client id of the introspection credentials, when there are any.\<close>

definition setup_client :: "Config \<Rightarrow> rstr option" where
  "setup_client cfg = map_option client_id (introspection cfg)"

lemma base_client [simp]: "setup_client base_config = Some ''cid''"
  by (simp add: setup_client_def base_config_def)

record 'h SetupState =
  su_config :: Config
  su_mas :: "'h MasIntrospectionClient"
  pkce_states :: "(rstr, PendingPkce) hmap"
  sessions :: "(rstr, SetupSession) hmap"

record Cookie =
  ck_name :: rstr
  ck_value :: rstr
  ck_path :: rstr
  ck_http_only :: bool
  ck_secure :: bool
  ck_lax :: bool

text \<open>An HTTP exchange fails before the reply or while its body is read, or gives a status and a body.\<close>

datatype TokenPost = PostFailed rstr | ReadFailed rstr | TokenBody nat rstr

datatype SetupResponse = Page rstr | ErrorPage nat rstr | RedirectTo nat rstr
  | SignedIn Cookie rstr | Unlocked Cookie rstr

text \<open>
  What one request meets: the clocks, the random values, the hash of a verifier, the answer of the
  endpoint at a URL to a form sent under a client id, the parser of its body and the text of a status
  code, the introspection reply and the text of its errors, the client cache
  at its two reads, the client's \<open>whoami\<close> and its import of a recovery key (an error text,
  or none).
\<close>

record ('h, 'c) SetupEnv =
  se_now :: instant
  se_later :: instant
  se_unix :: nat
  se_state_token :: rstr
  se_verifier :: rstr
  se_session_id :: rstr
  se_csrf :: rstr
  se_challenge :: "rstr \<Rightarrow> rstr"
  se_hash_token :: "rstr \<Rightarrow> 'h"
  se_token_post :: "rstr \<Rightarrow> rstr \<Rightarrow> (rstr \<times> rstr) list \<Rightarrow> TokenPost"
  se_parse_token :: "rstr \<Rightarrow> rstr + rstr"
  se_status_text :: "nat \<Rightarrow> rstr"
  se_introspect :: "rstr \<Rightarrow> mas_reply"
  se_error_text :: "IntrospectionError \<Rightarrow> rstr"
  se_contains :: "rstr \<Rightarrow> bool"
  se_client :: "rstr \<Rightarrow> 'c option"
  se_live :: "'c \<Rightarrow> bool"
  se_recover :: "'c \<Rightarrow> rstr \<Rightarrow> rstr option"

section \<open>The pending maps\<close>

definition prune_expired_pkce :: "instant \<Rightarrow> (rstr, PendingPkce) hmap \<Rightarrow> (rstr, PendingPkce) hmap" where
  "prune_expired_pkce now m = hm_retain (\<lambda>_ v. now - pkce_created v < PKCE_TTL) m"

definition prune_expired_sessions :: "instant \<Rightarrow> (rstr, SetupSession) hmap \<Rightarrow> (rstr, SetupSession) hmap" where
  "prune_expired_sessions now m = hm_retain (\<lambda>_ v. now - ss_created v < SESSION_TTL) m"

definition insert_pending_pkce ::
  "instant \<Rightarrow> (rstr, PendingPkce) hmap \<Rightarrow> rstr \<Rightarrow> PendingPkce \<Rightarrow> bool \<times> (rstr, PendingPkce) hmap" where
  "insert_pending_pkce = refuse_when_full prune_expired_pkce PKCE_MAX_PENDING"

definition insert_pending_session ::
  "instant \<Rightarrow> (rstr, SetupSession) hmap \<Rightarrow> rstr \<Rightarrow> SetupSession \<Rightarrow> bool \<times> (rstr, SetupSession) hmap" where
  "insert_pending_session = refuse_when_full prune_expired_sessions SESSIONS_MAX_PENDING"

section \<open>Handlers\<close>

definition error_page :: "nat \<Rightarrow> rstr \<Rightarrow> SetupResponse" where
  "error_page status msg = ErrorPage status (error_body msg)"

definition index :: "Config \<Rightarrow> SetupResponse" where
  "index cfg = Page (landing_html (html_escape (case parse_authority (cfg_authorization_server cfg) of
      Some h \<Rightarrow> h | None \<Rightarrow> ''your homeserver'')))"

definition redirect_uri :: "Config \<Rightarrow> rstr" where
  "redirect_uri cfg = cfg_resource_url cfg @ ''/setup/callback''"

definition authorize_url :: "Config \<Rightarrow> rstr \<Rightarrow> rstr \<Rightarrow> rstr \<Rightarrow> rstr" where
  "authorize_url cfg cid challenge state_token =
     authorization_server_base cfg @ ''/authorize?response_type=code&client_id='' @ url_encode cid
     @ ''&redirect_uri='' @ url_encode (redirect_uri cfg) @ ''&code_challenge='' @ url_encode challenge
     @ ''&code_challenge_method=S256&state='' @ url_encode state_token
     @ ''&scope=openid+urn%3Amatrix%3Aorg.matrix.msc2967.client%3Aapi%3A%2A''"

definition login :: "('h, 'c) SetupEnv \<Rightarrow> 'h SetupState \<Rightarrow> SetupResponse \<times> 'h SetupState" where
  "login env st = (case setup_client (su_config st) of
      None \<Rightarrow> (error_page 500
        ''matrix-mcp has no introspection credentials configured; /setup is unavailable.'', st)
    | Some cid \<Rightarrow>
        (let (inserted, m) = insert_pending_pkce (se_now env) (pkce_states st) (se_state_token env)
               \<lparr>verifier = se_verifier env, pkce_created = se_now env\<rparr>;
             st = st\<lparr>pkce_states := m\<rparr>
         in if \<not> inserted
            then (error_page 429
              ''Too many setup sign-in attempts are pending. Wait a few minutes and try again.'', st)
            else (RedirectTo 307 (authorize_url (su_config st) cid
                (se_challenge env (se_verifier env)) (se_state_token env)), st)))"

record CallbackParams =
  cb_code :: "rstr option"
  cb_state :: "rstr option"
  cb_error :: "rstr option"
  cb_error_description :: "rstr option"

definition exchange_code :: "('h, 'c) SetupEnv \<Rightarrow> Config \<Rightarrow> rstr \<Rightarrow> rstr \<Rightarrow> rstr \<Rightarrow> rstr + rstr" where
  "exchange_code env cfg code cid vrf =
     (case se_token_post env (authorization_server_base cfg @ ''/oauth2/token'') cid
        [(''grant_type'', ''authorization_code''), (''code'', code), (''redirect_uri'', redirect_uri cfg),
         (''client_id'', cid), (''code_verifier'', vrf)] of
       PostFailed e \<Rightarrow> Inl (''POST /oauth2/token: '' @ e)
     | ReadFailed e \<Rightarrow> Inl (''read token body: '' @ e)
     | TokenBody status body \<Rightarrow>
         if \<not> (200 \<le> status \<and> status < 300)
         then Inl (''MAS /oauth2/token '' @ se_status_text env status @ '': '' @ body)
         else (case se_parse_token env body of
             Inl e \<Rightarrow> Inl (''parse token body: '' @ body @ '': '' @ e)
           | Inr access_token \<Rightarrow> Inr access_token))"

definition exchange_and_introspect ::
  "('h, 'c) SetupEnv \<Rightarrow> rstr \<Rightarrow> rstr \<Rightarrow> 'h SetupState
     \<Rightarrow> (rstr + AuthenticatedIdentity \<times> rstr) \<times> 'h SetupState" where
  "exchange_and_introspect env code vrf st = (case setup_client (su_config st) of
      None \<Rightarrow> (Inl ''introspection credentials missing on Config'', st)
    | Some cid \<Rightarrow> (case exchange_code env (su_config st) code cid vrf of
        Inl e \<Rightarrow> (Inl e, st)
      | Inr access_token \<Rightarrow>
          (let (r, mas) = introspect (se_hash_token env) (se_now env) (se_introspect env) (se_later env)
                 (se_unix env) access_token (su_mas st);
               st = st\<lparr>su_mas := mas\<rparr>
           in (case r of
               Inl e \<Rightarrow> Inl (''introspect setup token: '' @ se_error_text env e)
             | Inr None \<Rightarrow> Inl ''MAS rejected the freshly-issued setup token''
             | Inr (Some ident) \<Rightarrow> Inr (ident, access_token), st))))"

definition build_session_cookie :: "rstr \<Rightarrow> Cookie" where
  "build_session_cookie session_id = \<lparr>ck_name = SESSION_COOKIE, ck_value = session_id,
     ck_path = ''/setup'', ck_http_only = True, ck_secure = True, ck_lax = True\<rparr>"

definition callback ::
  "('h, 'c) SetupEnv \<Rightarrow> CallbackParams \<Rightarrow> 'h SetupState \<Rightarrow> SetupResponse \<times> 'h SetupState" where
  "callback env params st = (case cb_error params of
      Some err \<Rightarrow> (error_page 400 (''MAS returned an OAuth error: '' @ err @ '' '' @ em_dash @ '' ''
        @ (case cb_error_description params of None \<Rightarrow> [] | Some d \<Rightarrow> d)), st)
    | None \<Rightarrow> (case cb_code params of
        None \<Rightarrow> (error_page 400 ''Missing `code` in callback.'', st)
      | Some code \<Rightarrow> (case cb_state params of
          None \<Rightarrow> (error_page 400 ''Missing `state` in callback.'', st)
        | Some state_token \<Rightarrow>
            (let live = prune_expired_pkce (se_now env) (pkce_states st);
                 st = st\<lparr>pkce_states := hm_remove live state_token\<rparr>
             in case hm_get live state_token of
               None \<Rightarrow> (error_page 400
                 (''Unknown or expired state '' @ em_dash @ '' start over from /setup.''), st)
             | Some pkce \<Rightarrow>
                 (let (r, st) = exchange_and_introspect env code (verifier pkce) st in
                  case r of
                    Inl e \<Rightarrow> (error_page 500 (''Failed to complete sign-in: '' @ e), st)
                  | Inr (ident, access_token) \<Rightarrow>
                      (let (inserted, m) = insert_pending_session (se_later env) (sessions st)
                             (se_session_id env)
                             \<lparr>ss_subject = mas_subject ident, ss_mxid = mxid ident,
                              ss_device = id_device ident, ss_token = access_token,
                              ss_created = se_later env, ss_csrf = se_csrf env\<rparr>;
                           st = st\<lparr>sessions := m\<rparr>
                       in if \<not> inserted
                          then (error_page 429
                            ''Too many active setup sessions. Wait 30 minutes and try again.'', st)
                          else (SignedIn (build_session_cookie (se_session_id env)) ''/setup/form'', st)))))))"

text \<open>The cookie of the request is the value under the session cookie's name, if it has one.\<close>

definition current_session ::
  "('h, 'c) SetupEnv \<Rightarrow> rstr option \<Rightarrow> 'h SetupState \<Rightarrow> SetupSession option \<times> 'h SetupState" where
  "current_session env cookie st = (case cookie of
      None \<Rightarrow> (None, st)
    | Some session_id \<Rightarrow>
        (let m = prune_expired_sessions (se_now env) (sessions st)
         in (hm_get m session_id, st\<lparr>sessions := m\<rparr>)))"

datatype SetupGate = Proceed | NoClient | BearerDead

fun setup_gate :: "bool \<Rightarrow> bool \<Rightarrow> SetupGate" where
  "setup_gate False _ = NoClient"
| "setup_gate True False = BearerDead"
| "setup_gate True True = Proceed"

definition NO_CLIENT_MESSAGE :: rstr where
  \<open>NO_CLIENT_MESSAGE =
    ''matrix-mcp'' @ [CHR 0x27] @ ''s Matrix client isn'' @ [CHR 0x27] @
    ''t built yet for your account. In claude.ai, run any matrix-mcp tool '' @
    [CHR 0xE2, CHR 0x80, CHR 0x94] @ '' e.g. ask Claude to use `list_joined_rooms` '' @
    [CHR 0xE2, CHR 0x80, CHR 0x94] @
    '' then return here to /setup and try again. (Why: /setup imports your cross-signing keys into '' @
    ''the same SDK instance claude.ai'' @ [CHR 0x27] @ ''s connector uses. If claude.ai hasn'' @
    [CHR 0x27] @
    ''t triggered the client to be built yet, /setup has nothing to attach the keys to. Most likely '' @
    ''cause: claude.ai'' @ [CHR 0x27] @
    ''s connector is holding a revoked bearer (typical after signing out the matrix-mcp device '' @
    ''in Element) and is silently failing every tool call. Go to claude.ai '' @
    [CHR 0xE2, CHR 0x86, CHR 0x92] @ '' Settings '' @ [CHR 0xE2, CHR 0x86, CHR 0x92] @
    '' Connectors '' @ [CHR 0xE2, CHR 0x86, CHR 0x92] @
    '' remove and re-add "claude.ai Matrix", then re-run a tool, then come back here.)''\<close>

definition EVICTED_MESSAGE :: rstr where
  \<open>EVICTED_MESSAGE =
    ''matrix-mcp'' @ [CHR 0x27] @
    ''s Matrix client was evicted between the precondition check and this call. Run any matrix-mcp '' @
    ''tool in claude.ai and try /setup again.''\<close>

definition CONNECTOR_BEARER_DEAD :: rstr where
  \<open>CONNECTOR_BEARER_DEAD =
    ''matrix-mcp'' @ [CHR 0x27] @
    ''s Matrix session is no longer accepted by the homeserver, so there is nothing here that could '' @
    ''import your keys. This is not about the recovery key: it is never sent to the server. One '' @
    ''action fixes it, once: in claude.ai go to Settings, then Connectors, remove the claude.ai '' @
    ''Matrix connector and add it again, then run any matrix-mcp tool (asking Claude for list_joined_rooms '' @
    ''is enough) and come back here. Why only you can do that: the import needs a device-scoped '' @
    ''session, and the only thing that issues one is claude.ai'' @ [CHR 0x27] @
    ''s own grant. This server cannot mint or refresh it on your behalf, which is why it asks rather '' @
    ''than retrying. The typical cause is signing the matrix-mcp device out from Element, which '' @
    ''revokes that bearer while everything here still looks healthy.''\<close>

definition EXPIRED_FRONT :: rstr where
  \<open>EXPIRED_FRONT =
    ''The Matrix session this deployment holds has expired, so the keys could not be imported. '' @
    ''This is not about the recovery key you pasted: that key is used here in the browser and never '' @
    ''sent to the server as a token. Make one tool call from the client that mounts this server, '' @
    ''which refreshes the session, then try again. If that does not help, sign in again from /setup. '' @
    ''The server said: ''\<close>

definition IMPORT_FRONT :: rstr where
  \<open>IMPORT_FRONT =
    ''Couldn'' @ [CHR 0x27] @
    ''t import the cross-signing keys, and this page cannot tell you why. The server said: ''\<close>

definition IMPORT_END :: rstr where
  \<open>IMPORT_END =
    ''. Two things it could be, and nothing here distinguishes them: the recovery key may not match '' @
    ''the one Element X showed you when you first enabled cross-signing, or the import may have '' @
    ''failed for a reason that has nothing to do with the key. Check the key first because it is '' @
    ''the cheaper of the two, and if it is right, this is a defect worth reporting with the message '' @
    ''above.''\<close>

definition form :: "('h, 'c) SetupEnv \<Rightarrow> rstr option \<Rightarrow> 'h SetupState \<Rightarrow> SetupResponse \<times> 'h SetupState" where
  "form env cookie st = (case current_session env cookie st of
      (None, st) \<Rightarrow> (RedirectTo 303 ''/setup'', st)
    | (Some session, st) \<Rightarrow>
        (let cached = se_client env (ss_mxid session);
             live = (case cached of Some c \<Rightarrow> se_live env c | None \<Rightarrow> False)
         in if setup_gate (cached \<noteq> None) live = BearerDead
            then (error_page 428 CONNECTOR_BEARER_DEAD, st)
            else (Page (form_html (ss_mxid session) (ss_csrf session)), st)))"

definition recover_failure_page :: "rstr \<Rightarrow> nat \<times> rstr" where
  "recover_failure_page err =
     (let lower = to_ascii_lowercase err in
      if contains_str lower ''m_unknown_token'' \<or> contains_str lower ''token is not active''
      then (401, EXPIRED_FRONT @ err) else (400, IMPORT_FRONT @ err @ IMPORT_END))"

text \<open>A removal cookie: the name and path given, an empty value, no other attribute.\<close>

definition removal_cookie :: "rstr \<Rightarrow> rstr \<Rightarrow> Cookie" where
  "removal_cookie name pth = \<lparr>ck_name = name, ck_value = [], ck_path = pth, ck_http_only = False,
     ck_secure = False, ck_lax = False\<rparr>"

text \<open>
  The last component is the import that was run, if any: the user of the session, the client and the key;
  the download of room keys is started exactly when it succeeds.
\<close>

definition recover ::
  "('h, 'c) SetupEnv \<Rightarrow> rstr option \<Rightarrow> rstr \<Rightarrow> rstr \<Rightarrow> 'h SetupState
     \<Rightarrow> SetupResponse \<times> 'h SetupState \<times> (rstr \<times> 'c \<times> rstr) option" where
  "recover env cookie recovery_key csrf_token st = (case current_session env cookie st of
      (None, st) \<Rightarrow> (RedirectTo 303 ''/setup'', st, None)
    | (Some session, st) \<Rightarrow>
        if ss_csrf session \<noteq> csrf_token
        then (error_page 403 ''Invalid or missing CSRF token. Please go back and try again.'', st, None)
        else
          (let key = trim recovery_key in
           if key = []
           then (error_page 400
             ''Recovery key was empty. Paste it from your password manager and try again.'', st, None)
           else if \<not> se_contains env (ss_mxid session)
           then (error_page 428 NO_CLIENT_MESSAGE, st, None)
           else (case se_client env (ss_mxid session) of
             None \<Rightarrow> (error_page 428 EVICTED_MESSAGE, st, None)
           | Some c \<Rightarrow>
               if setup_gate True (se_live env c) = BearerDead
               then (error_page 428 CONNECTOR_BEARER_DEAD, st, None)
               else (case se_recover env c key of
                 None \<Rightarrow> (Unlocked (removal_cookie SESSION_COOKIE ''/setup'') SUCCESS_HTML,
                   (case cookie of None \<Rightarrow> st
                    | Some sid \<Rightarrow> st\<lparr>sessions := hm_remove (sessions st) sid\<rparr>),
                   Some (ss_mxid session, c, key))
               | Some err \<Rightarrow>
                   (let (status, message) = recover_failure_page err
                    in (error_page status message, st, Some (ss_mxid session, c, key)))))))"

section \<open>The download of room keys\<close>

text \<open>
  One encrypted room as the task meets it: its id, the time of the attempt, whether the download finished
  in time without an error, and the time it ended.
\<close>

record room_attempt =
  ra_room :: rstr
  ra_start :: instant
  ra_ok :: bool
  ra_end :: instant

record download_counts =
  total :: nat
  succeeded :: nat
  failed :: nat
  skipped_cooldown :: nat
  skipped_gate_busy :: nat

definition download_room ::
  "rstr \<Rightarrow> room_attempt \<Rightarrow> KeyBackupGate \<times> download_counts \<Rightarrow> KeyBackupGate \<times> download_counts" where
  "download_room caller room gc =
     (let (g, c) = gc; c = c\<lparr>total := total c + 1\<rparr> in
      case try_acquire (ra_start room) caller (ra_room room) g of
        (Cooling, g) \<Rightarrow> (g, c\<lparr>skipped_cooldown := skipped_cooldown c + 1\<rparr>)
      | (GateBusy, g) \<Rightarrow> (g, c\<lparr>skipped_gate_busy := skipped_gate_busy c + 1\<rparr>)
      | (Permit k, g) \<Rightarrow>
          if ra_ok room
          then (drop_permit (record_success (ra_end room) k g), c\<lparr>succeeded := succeeded c + 1\<rparr>)
          else (drop_permit g, c\<lparr>failed := failed c + 1\<rparr>))"

definition download_room_keys ::
  "rstr \<Rightarrow> room_attempt list \<Rightarrow> KeyBackupGate \<Rightarrow> KeyBackupGate \<times> download_counts" where
  "download_room_keys caller encrypted_rooms g =
     foldl (\<lambda>gc r. download_room caller r gc)
       (g, \<lparr>total = 0, succeeded = 0, failed = 0, skipped_cooldown = 0, skipped_gate_busy = 0\<rparr>)
       (take KEY_BACKUP_MAX_ROOMS encrypted_rooms)"

end
