(* ===== verification/SetupFlow.thy ===== *)
theory SetupFlow
  imports Setup
begin

text \<open>
  What the setup flow of \<open>Setup\<close> guarantees: the bounds of its pending maps, what a
  session and an import need, single use of states and sessions, and the accounting of the download.
  The step relation interleaves any requests of any browsers.
\<close>

section \<open>The maps keep the contract\<close>

interpretation pkce_map: ttl_map insert_pending_pkce "\<lambda>t v. t - pkce_created v < PKCE_TTL" PKCE_MAX_PENDING
  unfolding insert_pending_pkce_def
  by (rule ttl_map_refuse_when_full) (simp add: prune_expired_pkce_def)

interpretation session_map: ttl_map insert_pending_session "\<lambda>t v. t - ss_created v < SESSION_TTL"
    SESSIONS_MAX_PENDING
  unfolding insert_pending_session_def
  by (rule ttl_map_refuse_when_full) (simp add: prune_expired_sessions_def)

text \<open>Public sign-in attempts cannot push each other out: whatever attempts follow, a pending one is
  found until five minutes after it was made, at most 256 are held, and one is refused only while
  256 live ones are pending. Sessions keep the same promise for half an hour with a cap of 64.\<close>

theorem pending_never_evicted:
  fixes m :: "(rstr, PendingPkce) hmap" and m' :: "(rstr, SetupSession) hmap"
  assumes "hm_ok m" and "length m \<le> 256" and "hm_ok m'" and "length m' \<le> 64"
  shows "(fst (insert_pending_pkce t m k p) \<and> (\<forall>(t', k', _)\<in>set cs. k' \<noteq> k \<and> t' \<le> now)
        \<and> now - pkce_created p < 300 \<longrightarrow>
      hm_get (pkce_map.run (snd (insert_pending_pkce t m k p)) cs) k = Some p)
    \<and> length (pkce_map.run m cs) \<le> 256
    \<and> (\<not> fst (insert_pending_pkce t m k p) \<longrightarrow> 256 \<le> length (filter (\<lambda>(_, v). t - pkce_created v < 300) m))
    \<and> (fst (insert_pending_session t m' k s) \<and> (\<forall>(t', k', _)\<in>set cs'. k' \<noteq> k \<and> t' \<le> now)
        \<and> now - ss_created s < 1800 \<longrightarrow>
      hm_get (session_map.run (snd (insert_pending_session t m' k s)) cs') k = Some s)
    \<and> length (session_map.run m' cs') \<le> 64"
proof (intro conjI impI)
  show "hm_get (pkce_map.run (snd (insert_pending_pkce t m k p)) cs) k = Some p"
    if "fst (insert_pending_pkce t m k p) \<and> (\<forall>(t', k', _)\<in>set cs. k' \<noteq> k \<and> t' \<le> now)
        \<and> now - pkce_created p < 300"
    using that assms(1)
    by (intro pkce_map.run_keep [of _ _ _ _ now]) (auto simp: pkce_map.ins_ok pkce_map.ins_found PKCE_TTL_def)
  show "length (pkce_map.run m cs) \<le> 256"
    using pkce_map.run_cap [of m cs] assms(2) by (simp add: PKCE_MAX_PENDING_def)
  show "256 \<le> length (filter (\<lambda>(_, v). t - pkce_created v < 300) m)"
    if "\<not> fst (insert_pending_pkce t m k p)"
    using pkce_map.ins_refuse [OF that]
    by (simp add: PKCE_MAX_PENDING_def PKCE_TTL_def comp_def case_prod_unfold)
  show "hm_get (session_map.run (snd (insert_pending_session t m' k s)) cs') k = Some s"
    if "fst (insert_pending_session t m' k s) \<and> (\<forall>(t', k', _)\<in>set cs'. k' \<noteq> k \<and> t' \<le> now)
        \<and> now - ss_created s < 1800"
    using that assms(3)
    by (intro session_map.run_keep [of _ _ _ _ now])
      (auto simp: session_map.ins_ok session_map.ins_found SESSION_TTL_def)
  show "length (session_map.run m' cs') \<le> 64"
    using session_map.run_cap [of m' cs'] assms(4) by (simp add: SESSIONS_MAX_PENDING_def)
qed

theorem pending_never_evicted_witness:
  "hm_get (snd (insert_pending_pkce 7 [] ''tok'' \<lparr>verifier = ''v'', pkce_created = 7\<rparr>)) ''tok''
     = Some \<lparr>verifier = ''v'', pkce_created = 7\<rparr>"
proof -
  have "fst (insert_pending_pkce 7 [] ''tok'' \<lparr>verifier = ''v'', pkce_created = 7\<rparr>)"
    by (simp add: insert_pending_pkce_def refuse_when_full_def PKCE_MAX_PENDING_def)
  with pending_never_evicted [where m = "[]" and m' = "[]" and t = 7 and k = "''tok''" and cs = "[]"
      and p = "\<lparr>verifier = ''v'', pkce_created = 7\<rparr>" and now = 7 and cs' = "[]"]
  show ?thesis by simp
qed

section \<open>Handlers\<close>

text \<open>The sign-in URL has the parameters it was built with and no others: whatever the client id, the
  origin, the challenge and the state contain, its separators are those of the authorization
  server's URL and the six of the template, and the state decodes to the one stored.\<close>

definition separator :: "char \<Rightarrow> bool" where
  "separator c \<longleftrightarrow> c \<in> set ''&?#''"

lemma url_encode_no_separator: "filter separator (url_encode s) = []"
proof -
  have "\<not> separator c" if "is_unreserved c \<or> c = CHR ''%''" for c
    using that by (auto simp: separator_def is_unreserved_def)
  moreover have "list_all (\<lambda>c. is_unreserved c \<or> c = CHR ''%'') (url_encode s)"
    by (rule url_encode_chars)
  ultimately show ?thesis by (auto simp: filter_empty_conv list_all_iff)
qed

theorem authorize_url_parameters:
  "filter separator (authorize_url cfg cid challenge tok)
     = filter separator (authorization_server_base cfg) @ ''?&&&&&&''"
  unfolding authorize_url_def by (simp add: url_encode_no_separator) (simp add: separator_def)

lemma exchange_and_introspect_eq:
  "fst (exchange_and_introspect env code vrf st) = Inr (ident, token) \<longleftrightarrow>
     (\<exists>cid. setup_client (su_config st) = Some cid
        \<and> exchange_code env (su_config st) code cid vrf = Inr token
        \<and> fst (introspect (se_hash_token env) (se_now env) (se_introspect env) (se_later env)
             (se_unix env) token (su_mas st)) = Inr (Some ident))"
  by (auto simp: exchange_and_introspect_def Let_def case_prod_unfold
      split: option.splits sum.splits)

lemma exchange_and_introspect_rest:
  "fst (exchange_and_introspect env code vrf (st\<lparr>pkce_states := m\<rparr>)) = fst (exchange_and_introspect env code vrf st)"
  "pkce_states (snd (exchange_and_introspect env code vrf st)) = pkce_states st"
  "sessions (snd (exchange_and_introspect env code vrf st)) = sessions st"
  "su_config (snd (exchange_and_introspect env code vrf st)) = su_config st"
  by (auto simp: exchange_and_introspect_def Let_def case_prod_unfold split: option.splits sum.splits)

definition callback_session :: "('h, 'c) SetupEnv \<Rightarrow> AuthenticatedIdentity \<Rightarrow> rstr \<Rightarrow> SetupSession" where
  "callback_session env ident token = \<lparr>ss_subject = mas_subject ident, ss_mxid = mxid ident,
     ss_device = id_device ident, ss_token = token, ss_created = se_later env, ss_csrf = se_csrf env\<rparr>"

text \<open>A callback that proves a sign-in: the state it presents is pending, the code is exchanged with that
  state's verifier, and introspection accepts the token.\<close>

definition proves_sign_in ::
  "('h, 'c) SetupEnv \<Rightarrow> CallbackParams \<Rightarrow> 'h SetupState \<Rightarrow> rstr \<Rightarrow> PendingPkce \<Rightarrow> AuthenticatedIdentity
     \<Rightarrow> rstr \<Rightarrow> bool" where
  "proves_sign_in env params st tok p ident token \<longleftrightarrow> cb_error params = None \<and> cb_state params = Some tok
     \<and> hm_get (pkce_states st) tok = Some p \<and> se_now env - pkce_created p < 300
     \<and> (\<exists>code cid. cb_code params = Some code \<and> setup_client (su_config st) = Some cid
          \<and> exchange_code env (su_config st) code cid (verifier p) = Inr token)
     \<and> fst (introspect (se_hash_token env) (se_now env) (se_introspect env) (se_later env) (se_unix env)
          token (su_mas st)) = Inr (Some ident)"

lemma prune_pkce_get: "hm_ok m \<Longrightarrow> hm_get (prune_expired_pkce t m) k = Some p \<longleftrightarrow>
    hm_get m k = Some p \<and> t - pkce_created p < 300"
  by (auto simp: prune_expired_pkce_def hm_simps PKCE_TTL_def split: option.splits)

lemma callback_incomplete:
  "\<not> (cb_error params = None \<and> cb_code params \<noteq> None \<and> cb_state params \<noteq> None) \<Longrightarrow>
    fst (callback env params st) \<in> range (ErrorPage 400) \<and> snd (callback env params st) = st"
  by (auto simp: callback_def error_page_def split: option.splits)

lemma callback_complete:
  fixes env :: "('h, 'c) SetupEnv" and st :: "'h SetupState"
  assumes "cb_error params = None" and "cb_code params = Some code" and "cb_state params = Some tok"
  defines "live \<equiv> prune_expired_pkce (se_now env) (pkce_states st)"
  shows "pkce_states (snd (callback env params st)) = hm_remove live tok"
    and "\<nexists>p x. hm_get live tok = Some p \<and> fst (exchange_and_introspect env code (verifier p) st) = Inr x
      \<Longrightarrow> (\<exists>n. fst (callback env params st) \<in> range (ErrorPage n))
        \<and> sessions (snd (callback env params st)) = sessions st"
    and "hm_get live tok = Some p \<Longrightarrow> fst (exchange_and_introspect env code (verifier p) st) = Inr (ident, token)
      \<Longrightarrow> sessions (snd (callback env params st)) = snd (insert_pending_session (se_later env) (sessions st)
             (se_session_id env) (callback_session env ident token))
        \<and> fst (callback env params st) = (if fst (insert_pending_session (se_later env) (sessions st)
             (se_session_id env) (callback_session env ident token))
           then SignedIn (build_session_cookie (se_session_id env)) ''/setup/form''
           else error_page 429 ''Too many active setup sessions. Wait 30 minutes and try again.'')"
  unfolding callback_def
  by (auto simp: assms(1-3) live_def [symmetric] Let_def case_prod_unfold exchange_and_introspect_rest
      callback_session_def error_page_def split: option.splits sum.splits)

text \<open>Exactly when a callback signs a browser in: it presents a pending state no more than five minutes
  old, the exchange of its code with the verifier stored for that state succeeds, introspection
  accepts the token, and the session map has room. The session is that identity's, under the id in
  the cookie; without such a proof no session changes; and whatever the outcome, the state is used up.\<close>

theorem callback_spec:
  assumes "hm_ok (pkce_states st)"
  shows "(fst (callback env params st) = SignedIn ck loc \<longleftrightarrow>
      ck = build_session_cookie (se_session_id env) \<and> loc = ''/setup/form''
      \<and> (\<exists>tok p ident token. proves_sign_in env params st tok p ident token
           \<and> fst (insert_pending_session (se_later env) (sessions st) (se_session_id env)
                (callback_session env ident token))))
    \<and> (proves_sign_in env params st tok p ident token \<longrightarrow> sessions (snd (callback env params st)) =
         snd (insert_pending_session (se_later env) (sessions st) (se_session_id env)
           (callback_session env ident token)))
    \<and> ((\<nexists>tok p ident token. proves_sign_in env params st tok p ident token) \<longrightarrow>
         sessions (snd (callback env params st)) = sessions st)
    \<and> (cb_error params = None \<and> cb_code params \<noteq> None \<and> cb_state params = Some tok \<longrightarrow>
         hm_get (pkce_states (snd (callback env params st))) tok = None)"
proof (cases "cb_error params = None \<and> cb_code params \<noteq> None \<and> cb_state params \<noteq> None")
  case False
  with callback_incomplete [OF False, of env st] show ?thesis
    by (auto simp: proves_sign_in_def)
next
  case True
  then obtain code t where c: "cb_error params = None" "cb_code params = Some code" "cb_state params = Some t"
    by auto
  let ?live = "prune_expired_pkce (se_now env) (pkce_states st)"
  have proof_iff: "proves_sign_in env params st tok p ident token \<longleftrightarrow> tok = t \<and> hm_get ?live t = Some p
      \<and> fst (exchange_and_introspect env code (verifier p) st) = Inr (ident, token)" for tok p ident token
    using c by (auto simp: proves_sign_in_def prune_pkce_get [OF assms] exchange_and_introspect_eq)
  note cc = callback_complete [OF c, where env = env and st = st]
  show ?thesis
  proof (cases "\<exists>p x. hm_get ?live t = Some p \<and> fst (exchange_and_introspect env code (verifier p) st) = Inr x")
    case False
    with cc(1) cc(2) [OF False] show ?thesis
      by (auto simp: proof_iff hm_get_remove c)
  next
    case True
    then obtain p' ident' token' where e: "hm_get ?live t = Some p'"
      "fst (exchange_and_introspect env code (verifier p') st) = Inr (ident', token')" by auto
    from cc(1) cc(3) [OF e] e show ?thesis
      by (auto simp: proof_iff hm_get_remove c error_page_def)
  qed
qed

definition demo_setup :: "instant \<Rightarrow> (rstr, nat) SetupEnv" where
  "demo_setup t = \<lparr>se_now = t, se_later = t, se_unix = 900, se_state_token = ''st8'', se_verifier = ''vrf'',
     se_session_id = ''sid'', se_csrf = ''csrf'', se_challenge = (\<lambda>v. v), se_hash_token = (\<lambda>x. x),
     se_token_post = (\<lambda>_ _ _. TokenBody 200 ''{}''),
     se_parse_token = (\<lambda>_. Inr ''tok''), se_status_text = (\<lambda>_. []), se_introspect = (\<lambda>_. HttpReply 200 (Some good_body)),
     se_error_text = (\<lambda>_. []), se_contains = (\<lambda>_. True), se_client = (\<lambda>_. Some 1), se_live = (\<lambda>_. True),
     se_recover = (\<lambda>_ _. None)\<rparr>"

definition demo_setup_state :: "rstr SetupState" where
  "demo_setup_state = \<lparr>su_config = base_config,
     su_mas = new_mas_client ''https://mas'' ''https://x'' ''example.com'',
     pkce_states = [(''st8'', \<lparr>verifier = ''vrf'', pkce_created = 5\<rparr>)], sessions = []\<rparr>"

definition demo_params :: CallbackParams where
  "demo_params = \<lparr>cb_code = Some ''code'', cb_state = Some ''st8'', cb_error = None,
     cb_error_description = None\<rparr>"

lemma demo_proves_sign_in:
  obtains ident where "proves_sign_in (demo_setup 9) demo_params demo_setup_state ''st8''
      \<lparr>verifier = ''vrf'', pkce_created = 5\<rparr> ident ''tok''"
proof -
  have "accept_body [''https://x/mcp'', ''https://x''] ''example.com'' good_body \<noteq> Inr None
      \<and> (\<forall>e. accept_body [''https://x/mcp'', ''https://x''] ''example.com'' good_body \<noteq> Inl e)"
    using good_body_scope by (simp add: accept_body_def good_body_def matches_any_def)
  then obtain ident where "accept_body [''https://x/mcp'', ''https://x''] ''example.com'' good_body = Inr (Some ident)"
    by (metis not_None_eq obj_sumE)
  then show thesis
    by (intro that [of ident]) (simp add: proves_sign_in_def demo_setup_def demo_params_def demo_setup_state_def
        introspect_cases cache_lookup_def new_mas_client_def mcp_resource_def accept_reply_def exchange_code_def)
qed

lemma insert_first_session: "insert_pending_session t [] k v = (True, [(k, v)])"
  by (simp add: insert_pending_session_def refuse_when_full_def SESSIONS_MAX_PENDING_def hm_insert_def)

theorem callback_spec_witness:
  "fst (callback (demo_setup 9) demo_params demo_setup_state) =
     SignedIn (build_session_cookie ''sid'') ''/setup/form''
   \<and> hm_get (pkce_states (snd (callback (demo_setup 9) demo_params demo_setup_state))) ''st8'' = None"
proof -
  obtain ident where i: "proves_sign_in (demo_setup 9) demo_params demo_setup_state ''st8''
      \<lparr>verifier = ''vrf'', pkce_created = 5\<rparr> ident ''tok''" by (rule demo_proves_sign_in)
  have ok: "hm_ok (pkce_states demo_setup_state)" by (simp add: demo_setup_state_def hm_ok_def)
  from i show ?thesis
    using callback_spec [OF ok, of "demo_setup 9" demo_params "build_session_cookie ''sid''" "''/setup/form''"
        "''st8''" "\<lparr>verifier = ''vrf'', pkce_created = 5\<rparr>" ident "''tok''"]
    by (auto simp: demo_setup_def demo_setup_state_def demo_params_def insert_first_session)
qed

section \<open>The import\<close>

lemma current_session_eq:
  "fst (current_session env cookie st) = (case cookie of None \<Rightarrow> None
     | Some sid \<Rightarrow> hm_get (prune_expired_sessions (se_now env) (sessions st)) sid)"
  "sessions (snd (current_session env cookie st)) = (case cookie of None \<Rightarrow> sessions st
     | Some sid \<Rightarrow> prune_expired_sessions (se_now env) (sessions st))"
  "pkce_states (snd (current_session env cookie st)) = pkce_states st"
  by (auto simp: current_session_def Let_def split: option.splits)

lemma prune_sessions_get: "hm_ok m \<Longrightarrow> hm_get (prune_expired_sessions t m) k = Some s \<longleftrightarrow>
    hm_get m k = Some s \<and> t - ss_created s < 1800"
  by (auto simp: prune_expired_sessions_def hm_simps SESSION_TTL_def split: option.splits)

text \<open>The conditions under which an import runs, and what it runs on.\<close>

definition may_import ::
  "('h, 'c) SetupEnv \<Rightarrow> rstr option \<Rightarrow> rstr \<Rightarrow> rstr \<Rightarrow> 'h SetupState \<Rightarrow> rstr \<times> 'c \<times> rstr \<Rightarrow> bool" where
  "may_import env cookie recovery_key csrf_token st i \<longleftrightarrow>
     (\<exists>sid s c. cookie = Some sid \<and> hm_get (sessions st) sid = Some s \<and> se_now env - ss_created s < 1800
        \<and> ss_csrf s = csrf_token \<and> trim recovery_key \<noteq> [] \<and> se_contains env (ss_mxid s)
        \<and> se_client env (ss_mxid s) = Some c \<and> se_live env c \<and> i = (ss_mxid s, c, trim recovery_key))"

lemma recover_no_session:
  "fst (current_session env cookie st) = None \<Longrightarrow>
    recover env cookie key csrf st = (RedirectTo 303 ''/setup'', snd (current_session env cookie st), None)"
  by (auto simp: recover_def split: prod.splits)

lemma recover_session:
  assumes "fst (current_session env cookie st) = Some s"
  defines "st' \<equiv> snd (current_session env cookie st)"
  shows "recover env cookie key csrf st =
    (if ss_csrf s \<noteq> csrf then (error_page 403 ''Invalid or missing CSRF token. Please go back and try again.'', st', None)
     else if trim key = [] then (error_page 400
         ''Recovery key was empty. Paste it from your password manager and try again.'', st', None)
     else if \<not> se_contains env (ss_mxid s) then (error_page 428 NO_CLIENT_MESSAGE, st', None)
     else (case se_client env (ss_mxid s) of
         None \<Rightarrow> (error_page 428 EVICTED_MESSAGE, st', None)
       | Some c \<Rightarrow>
           if \<not> se_live env c then (error_page 428 CONNECTOR_BEARER_DEAD, st', None)
           else (case se_recover env c (trim key) of
             None \<Rightarrow> (Unlocked (removal_cookie SESSION_COOKIE ''/setup'') SUCCESS_HTML,
               st'\<lparr>sessions := hm_remove (sessions st') (the cookie)\<rparr>, Some (ss_mxid s, c, trim key))
           | Some err \<Rightarrow> (error_page (fst (recover_failure_page err)) (snd (recover_failure_page err)), st',
               Some (ss_mxid s, c, trim key)))))"
proof -
  obtain sid where "cookie = Some sid" using assms(1) by (cases cookie) (auto simp: current_session_def)
  moreover have "setup_gate True l = BearerDead \<longleftrightarrow> \<not> l" for l by (cases l) auto
  moreover have "current_session env cookie st = (Some s, st')"
    using assms by (metis prod.collapse)
  ultimately show ?thesis
    by (cases "se_client env (ss_mxid s)"; cases "se_recover env (the (se_client env (ss_mxid s))) (trim key)")
      (simp_all add: recover_def Let_def case_prod_unfold)
qed

text \<open>An import of a recovery key runs exactly when there is a session not half an hour old under the cookie's
  id, that session's own token is in the form, the key is not blank, and a Matrix client of the
  session's own user is cached and still accepted by the homeserver; it then runs on that client with
  the trimmed key. A success ends the session, a failure keeps it, and no request touches another
  session that is alive.\<close>

theorem recover_spec:
  fixes env :: "('h, 'c) SetupEnv" and cookie :: "rstr option" and key csrf :: rstr and st :: "'h SetupState"
  assumes "hm_ok (sessions st)"
  defines "r \<equiv> recover env cookie key csrf st"
  shows "(snd (snd r) = Some i \<longleftrightarrow> may_import env cookie key csrf st i)
    \<and> ((\<exists>ck html. fst r = Unlocked ck html) \<longleftrightarrow>
         (\<exists>m c k. may_import env cookie key csrf st (m, c, k) \<and> se_recover env c k = None))
    \<and> (\<forall>sid s. hm_get (sessions st) sid = Some s \<and> se_now env - ss_created s < 1800 \<longrightarrow>
         hm_get (sessions (fst (snd r))) sid =
           (if (\<exists>ck html. fst r = Unlocked ck html) \<and> cookie = Some sid then None else Some s))"
proof (cases "fst (current_session env cookie st)")
  case None
  then have r: "r = (RedirectTo 303 ''/setup'', snd (current_session env cookie st), None)"
    unfolding r_def by (rule recover_no_session)
  have "\<not> may_import env cookie key csrf st j" for j
    using None by (auto simp: may_import_def current_session_eq
        dest!: prune_sessions_get [OF assms(1), THEN iffD2, OF conjI])
  then show ?thesis
    by (auto simp: r current_session_eq prune_sessions_get [OF assms(1)] split: option.splits)
next
  case (Some s)
  then obtain sid where sid: "cookie = Some sid" "hm_get (sessions st) sid = Some s"
    "se_now env - ss_created s < 1800"
    by (auto simp: current_session_eq prune_sessions_get [OF assms(1)] split: option.splits)
  have m: "may_import env cookie key csrf st j \<longleftrightarrow> ss_csrf s = csrf \<and> trim key \<noteq> []
      \<and> se_contains env (ss_mxid s)
      \<and> (\<exists>c. se_client env (ss_mxid s) = Some c \<and> se_live env c \<and> j = (ss_mxid s, c, trim key))" for j
    using sid by (auto simp: may_import_def)
  have live: "hm_get (sessions (snd (current_session env cookie st))) k = Some v"
    if "hm_get (sessions st) k = Some v" "se_now env - ss_created v < 1800" for k v
    using that sid(1) by (simp add: current_session_eq prune_sessions_get [OF assms(1)])
  show ?thesis
    unfolding r_def recover_session [OF Some] m
    using sid(1) live
    by (auto simp: error_page_def hm_get_remove split: option.splits)
qed

definition demo_session :: SetupSession where
  "demo_session = \<lparr>ss_subject = ''u'', ss_mxid = ''@u:x'', ss_device = None, ss_token = ''t'', ss_created = 5,
     ss_csrf = ''csrf''\<rparr>"

theorem recover_spec_witness:
  "snd (snd (recover (demo_setup 9) (Some ''sid'') '' key '' ''csrf''
     (demo_setup_state\<lparr>sessions := [(''sid'', demo_session)]\<rparr>))) = Some (''@u:x'', 1, ''key'')"
proof -
  have "trim '' key '' = ''key''" by code_simp
  then have "may_import (demo_setup 9) (Some ''sid'') '' key '' ''csrf''
      (demo_setup_state\<lparr>sessions := [(''sid'', demo_session)]\<rparr>) (''@u:x'', 1, ''key'')"
    by (simp add: may_import_def demo_setup_def demo_session_def)
  with recover_spec [where env = "demo_setup 9" and cookie = "Some ''sid''" and key = "'' key ''"
      and csrf = "''csrf''" and st = "demo_setup_state\<lparr>sessions := [(''sid'', demo_session)]\<rparr>"
      and i = "(''@u:x'', 1, ''key'')"]
  show ?thesis by (simp add: hm_ok_def)
qed

section \<open>The download\<close>

lemma download_room_inv:
  assumes "download_room caller room (g, c) = (g', c')"
  shows "available g' = available g \<and> total c' = total c + 1
    \<and> succeeded c' + failed c' + skipped_cooldown c' + skipped_gate_busy c'
        = succeeded c + failed c + skipped_cooldown c + skipped_gate_busy c + 1
    \<and> (\<forall>k. fst k \<noteq> caller \<longrightarrow> hm_get (last_pull g') k = hm_get (last_pull g) k)"
  using assms
  by (auto simp: download_room_def Let_def try_acquire_def drop_permit_def record_success_def hm_simps
      split: if_splits)

lemma download_rooms_inv:
  "foldl (\<lambda>gc r. download_room caller r gc) (g, c) rooms = (g', c') \<Longrightarrow>
    available g' = available g \<and> total c' = total c + length rooms
    \<and> succeeded c' + failed c' + skipped_cooldown c' + skipped_gate_busy c'
        = succeeded c + failed c + skipped_cooldown c + skipped_gate_busy c + length rooms
    \<and> (\<forall>k. fst k \<noteq> caller \<longrightarrow> hm_get (last_pull g') k = hm_get (last_pull g) k)"
proof (induction rooms arbitrary: g c)
  case (Cons r rooms)
  obtain g1 c1 where d: "download_room caller r (g, c) = (g1, c1)" by (metis prod.exhaust)
  with Cons.IH [of g1 c1] Cons.prems download_room_inv [OF d] show ?case by auto
qed simp

text \<open>The download tries at most 200 rooms, counts every one of them exactly once, gives every permit it took
  back, and leaves the cooldowns of every other user alone.\<close>

theorem download_accounts:
  "case download_room_keys caller rooms g of (g', c) \<Rightarrow>
    total c = min 200 (length rooms)
    \<and> total c = succeeded c + failed c + skipped_cooldown c + skipped_gate_busy c
    \<and> available g' = available g
    \<and> list_all (\<lambda>k. fst k \<noteq> caller \<longrightarrow> hm_get (last_pull g') k = hm_get (last_pull g) k) ks"
proof -
  obtain g' c where d: "download_room_keys caller rooms g = (g', c)" by (metis prod.exhaust)
  from download_rooms_inv [OF d [unfolded download_room_keys_def]] show ?thesis
    by (auto simp: d KEY_BACKUP_MAX_ROOMS_def list_all_iff min.commute)
qed

theorem download_accounts_witness:
  "total (snd (download_room_keys ''u'' [\<lparr>ra_room = ''!r'', ra_start = 1, ra_ok = True, ra_end = 2\<rparr>] new_gate)) = 1"
  using download_accounts [where caller = "''u''" and rooms = "[\<lparr>ra_room = ''!r'', ra_start = 1, ra_ok = True, ra_end = 2\<rparr>]"
      and g = new_gate and ks = "[]"]
  by (simp add: case_prod_unfold)

section \<open>The cookie prefix\<close>

text \<open>The rule browsers apply to a cookie whose name starts with \<open>__Secure-\<close>: it is stored, or
  an older one replaced, only when it is set with the Secure attribute.\<close>

definition browser_takes :: "Cookie \<Rightarrow> bool" where
  "browser_takes ck \<longleftrightarrow> (prefix ''__Secure-'' (ck_name ck) \<longrightarrow> ck_secure ck)"

text \<open>The session cookie is taken by the browser, but the cookie meant to remove it after a successful import
  is refused, as it lacks the attribute; what ends the session is the removal on the server.\<close>

theorem removal_cookie_refused:
  "browser_takes (build_session_cookie sid)
   \<and> (case fst (recover env cookie key csrf st) of Unlocked ck html \<Rightarrow> \<not> browser_takes ck | _ \<Rightarrow> True)"
proof -
  have "\<not> browser_takes (removal_cookie SESSION_COOKIE ''/setup'')"
    by (simp add: browser_takes_def removal_cookie_def SESSION_COOKIE_def)
  moreover have "fst (recover env cookie key csrf st) = Unlocked ck html \<Longrightarrow>
      ck = removal_cookie SESSION_COOKIE ''/setup''" for ck html
    by (cases "fst (current_session env cookie st)")
      (auto simp: recover_no_session recover_session error_page_def split: if_splits option.splits)
  ultimately show ?thesis
    by (auto simp: browser_takes_def build_session_cookie_def split: SetupResponse.splits)
qed

end
