(* ===== verification/SetupMachine.thy ===== *)
theory SetupMachine
  imports SetupFlow
begin

text \<open>
  The setup flow under any interleaving of the requests of any browsers, with what random values are
  relied on for: a fresh state token and a fresh session id are ones not handed out before. The
  logs are ghost state: the sign-ins begun, the sessions made, each with the state and pending
  entry that proved it, the identity and the time of its callback, and the sessions that imported.
\<close>

record SignIn =
  si_id :: rstr
  si_session :: SetupSession
  si_state :: rstr
  si_pkce :: PendingPkce
  si_identity :: AuthenticatedIdentity
  si_at :: instant

record 'h FlowState =
  fl_state :: "'h SetupState"
  fl_clock :: instant
  fl_logins :: "(rstr \<times> PendingPkce) list"
  fl_signins :: "SignIn list"
  fl_imported :: "rstr list"

inductive setup_step :: "'h FlowState \<Rightarrow> 'h FlowState \<Rightarrow> bool" where
  step_tick: "setup_step s (s\<lparr>fl_clock := fl_clock s + d\<rparr>)"
| step_introspections: "setup_step s (s\<lparr>fl_state := (fl_state s)\<lparr>su_mas := mas\<rparr>\<rparr>)"
| step_login: "se_now (env :: ('h, nat) SetupEnv) = fl_clock s \<Longrightarrow> se_state_token env \<notin> fst ` set (fl_logins s)
    \<Longrightarrow> login env (fl_state s) = (RedirectTo code url, st)
    \<Longrightarrow> setup_step s (s\<lparr>fl_state := st, fl_logins :=
          (se_state_token env, \<lparr>verifier = se_verifier env, pkce_created = se_now env\<rparr>) # fl_logins s\<rparr>)"
| step_login_refused: "se_now (env :: ('h, nat) SetupEnv) = fl_clock s \<Longrightarrow> login env (fl_state s) = (ErrorPage code html, st)
    \<Longrightarrow> setup_step s (s\<lparr>fl_state := st\<rparr>)"
| step_sign_in: "se_now (env :: ('h, nat) SetupEnv) = fl_clock s \<Longrightarrow> fl_clock s \<le> se_later env
    \<Longrightarrow> se_session_id env \<notin> si_id ` set (fl_signins s)
    \<Longrightarrow> callback env params (fl_state s) = (SignedIn ck loc, st)
    \<Longrightarrow> proves_sign_in env params (fl_state s) tok p ident token
    \<Longrightarrow> setup_step s (s\<lparr>fl_state := st, fl_clock := se_later env, fl_signins :=
          \<lparr>si_id = se_session_id env, si_session = callback_session env ident token, si_state = tok,
           si_pkce = p, si_identity = ident, si_at = se_now env\<rparr> # fl_signins s\<rparr>)"
| step_callback_failed: "se_now (env :: ('h, nat) SetupEnv) = fl_clock s \<Longrightarrow> fl_clock s \<le> se_later env
    \<Longrightarrow> callback env params (fl_state s) = (r, st) \<Longrightarrow> \<forall>ck loc. r \<noteq> SignedIn ck loc
    \<Longrightarrow> setup_step s (s\<lparr>fl_state := st, fl_clock := se_later env\<rparr>)"
| step_form: "se_now (env :: ('h, nat) SetupEnv) = fl_clock s \<Longrightarrow> form env cookie (fl_state s) = (r, st)
    \<Longrightarrow> setup_step s (s\<lparr>fl_state := st\<rparr>)"
| step_recover: "se_now (env :: ('h, nat) SetupEnv) = fl_clock s \<Longrightarrow> recover env cookie key csrf (fl_state s) = (r, st, i)
    \<Longrightarrow> setup_step s (s\<lparr>fl_state := st, fl_imported :=
          (case r of Unlocked _ _ \<Rightarrow> [the cookie] | _ \<Rightarrow> []) @ fl_imported s\<rparr>)"

inductive setup_reachable :: "'h FlowState \<Rightarrow> bool" where
  setup_init: "setup_reachable \<lparr>fl_state = \<lparr>su_config = cfg, su_mas = mas, pkce_states = [], sessions = []\<rparr>,
     fl_clock = t, fl_logins = [], fl_signins = [], fl_imported = []\<rparr>"
| setup_next: "setup_reachable s \<Longrightarrow> setup_step s s' \<Longrightarrow> setup_reachable s'"

section \<open>The invariant\<close>

definition maps_ok :: "'h SetupState \<Rightarrow> bool" where
  "maps_ok st \<longleftrightarrow> hm_ok (pkce_states st) \<and> hm_ok (sessions st)
     \<and> length (pkce_states st) \<le> 256 \<and> length (sessions st) \<le> 64"

definition sign_in_ok :: "'h FlowState \<Rightarrow> SignIn \<Rightarrow> bool" where
  "sign_in_ok s i \<longleftrightarrow> (si_state i, si_pkce i) \<in> set (fl_logins s)
     \<and> si_at i - pkce_created (si_pkce i) < 300
     \<and> ss_mxid (si_session i) = mxid (si_identity i) \<and> ss_subject (si_session i) = mas_subject (si_identity i)"

definition flow_inv :: "'h FlowState \<Rightarrow> bool" where
  "flow_inv s \<longleftrightarrow> maps_ok (fl_state s) \<and> distinct (map fst (fl_logins s))
     \<and> (\<forall>t p. hm_get (pkce_states (fl_state s)) t = Some p \<longrightarrow>
          (t, p) \<in> set (fl_logins s) \<and> t \<notin> si_state ` set (fl_signins s))
     \<and> distinct (map si_state (fl_signins s)) \<and> distinct (map si_id (fl_signins s))
     \<and> (\<forall>i\<in>set (fl_signins s). sign_in_ok s i)
     \<and> (\<forall>k v. hm_get (sessions (fl_state s)) k = Some v \<longrightarrow> k \<notin> set (fl_imported s)
          \<and> (\<exists>i\<in>set (fl_signins s). si_id i = k \<and> si_session i = v))
     \<and> set (fl_imported s) \<subseteq> si_id ` set (fl_signins s)"

text \<open>The state steps that only drop entries.\<close>

definition shrinks :: "'h SetupState \<Rightarrow> 'h SetupState \<Rightarrow> bool" where
  "shrinks st st' \<longleftrightarrow> maps_ok st'
     \<and> (\<forall>k v. hm_get (pkce_states st') k = Some v \<longrightarrow> hm_get (pkce_states st) k = Some v)
     \<and> (\<forall>k v. hm_get (sessions st') k = Some v \<longrightarrow> hm_get (sessions st) k = Some v)"

lemma flow_inv_shrinks:
  assumes "flow_inv s" and "shrinks (fl_state s) st"
  shows "flow_inv (s\<lparr>fl_state := st\<rparr>)"
  using assms unfolding flow_inv_def shrinks_def sign_in_ok_def by simp

lemma flow_inv_clock: "flow_inv (s\<lparr>fl_clock := t\<rparr>) \<longleftrightarrow> flow_inv s"
  by (simp add: flow_inv_def sign_in_ok_def)

lemma prune_maps_ok:
  "hm_ok m \<Longrightarrow> hm_ok (prune_expired_pkce t m)" "length (prune_expired_pkce t m) \<le> length m"
  "hm_ok m' \<Longrightarrow> hm_ok (prune_expired_sessions t m')" "length (prune_expired_sessions t m') \<le> length m'"
  by (simp_all add: prune_expired_pkce_def prune_expired_sessions_def hm_simps)

lemma current_session_shrinks:
  assumes "maps_ok st"
  shows "shrinks st (snd (current_session env cookie st))"
proof (cases cookie)
  case (Some sid)
  with assms show ?thesis
    by (auto simp: shrinks_def maps_ok_def current_session_eq prune_maps_ok prune_sessions_get
        intro: order.trans [OF prune_maps_ok(4)])
qed (use assms in \<open>simp add: shrinks_def current_session_def\<close>)

lemma shrinks_remove_session:
  "shrinks st st' \<Longrightarrow> shrinks st (st'\<lparr>sessions := hm_remove (sessions st') k\<rparr>)"
  by (auto simp: shrinks_def maps_ok_def hm_simps intro: order.trans [OF hm_len_remove_le])

lemma form_shrinks: "maps_ok st \<Longrightarrow> shrinks st (snd (form env cookie st))"
  using current_session_shrinks [of st env cookie]
  by (cases "current_session env cookie st") (auto simp: form_def Let_def split: option.splits)

lemma recover_state:
  "fst (snd (recover env cookie key csrf st)) =
    (if \<exists>ck html. fst (recover env cookie key csrf st) = Unlocked ck html
     then (snd (current_session env cookie st))\<lparr>sessions :=
        hm_remove (sessions (snd (current_session env cookie st))) (the cookie)\<rparr>
     else snd (current_session env cookie st))"
proof (cases "fst (current_session env cookie st)")
  case None
  then show ?thesis by (simp add: recover_no_session)
next
  case (Some s)
  show ?thesis
    unfolding recover_session [OF Some] by (auto simp: error_page_def split: option.splits)
qed

lemma recover_unlocked:
  "fst (recover env cookie key csrf st) = Unlocked ck html \<Longrightarrow>
    \<exists>s sid. fst (current_session env cookie st) = Some s \<and> cookie = Some sid"
  by (cases "fst (current_session env cookie st)"; cases cookie)
    (auto simp: recover_no_session current_session_def)

lemma login_cases:
  obtains m where "login env st = (RedirectTo 307 m, st\<lparr>pkce_states := snd (insert_pending_pkce (se_now env)
        (pkce_states st) (se_state_token env) \<lparr>verifier = se_verifier env, pkce_created = se_now env\<rparr>)\<rparr>)"
      "fst (insert_pending_pkce (se_now env) (pkce_states st) (se_state_token env)
        \<lparr>verifier = se_verifier env, pkce_created = se_now env\<rparr>)"
  | html code where "login env st = (ErrorPage code html, st)"
  | html code where "login env st = (ErrorPage code html, st\<lparr>pkce_states := snd (insert_pending_pkce (se_now env)
        (pkce_states st) (se_state_token env) \<lparr>verifier = se_verifier env, pkce_created = se_now env\<rparr>)\<rparr>)"
      "\<not> fst (insert_pending_pkce (se_now env) (pkce_states st) (se_state_token env)
        \<lparr>verifier = se_verifier env, pkce_created = se_now env\<rparr>)"
  by (cases "setup_client (su_config st)")
    (auto simp: login_def Let_def case_prod_unfold error_page_def split: if_splits)


lemma flow_invD:
  assumes "flow_inv s"
  shows "maps_ok (fl_state s)" and "distinct (map fst (fl_logins s))"
    and "hm_get (pkce_states (fl_state s)) t = Some p \<Longrightarrow> (t, p) \<in> set (fl_logins s)"
    and "hm_get (pkce_states (fl_state s)) t = Some p \<Longrightarrow> t \<notin> si_state ` set (fl_signins s)"
    and "distinct (map si_state (fl_signins s))" and "distinct (map si_id (fl_signins s))"
    and "i \<in> set (fl_signins s) \<Longrightarrow> sign_in_ok s i"
    and "hm_get (sessions (fl_state s)) k = Some v \<Longrightarrow> k \<notin> set (fl_imported s)"
    and "hm_get (sessions (fl_state s)) k = Some v \<Longrightarrow> \<exists>i\<in>set (fl_signins s). si_id i = k \<and> si_session i = v"
    and "set (fl_imported s) \<subseteq> si_id ` set (fl_signins s)"
  using assms unfolding flow_inv_def by blast+

lemma flow_inv_login:
  assumes inv: "flow_inv s" and fresh: "t \<notin> fst ` set (fl_logins s)"
    and ok: "maps_ok st" and keep: "sessions st = sessions (fl_state s)"
    and new: "\<And>k v. hm_get (pkce_states st) k = Some v \<Longrightarrow>
      (k, v) = (t, p) \<or> hm_get (pkce_states (fl_state s)) k = Some v"
  shows "flow_inv (s\<lparr>fl_state := st, fl_logins := (t, p) # fl_logins s\<rparr>)"
proof -
  note d = flow_invD [OF inv]
  have unused: "t \<notin> si_state ` set (fl_signins s)"
    using d(7) fresh by (force simp: sign_in_ok_def)
  have "(k, v) \<in> set ((t, p) # fl_logins s) \<and> k \<notin> si_state ` set (fl_signins s)"
    if "hm_get (pkce_states st) k = Some v" for k v
    using new [OF that] d(3,4) [of k v] unused by auto
  moreover have "sign_in_ok (s\<lparr>fl_state := st, fl_logins := (t, p) # fl_logins s\<rparr>) i"
    if "i \<in> set (fl_signins s)" for i
    using d(7) [OF that] by (simp add: sign_in_ok_def)
  ultimately show ?thesis
    unfolding flow_inv_def using ok keep d(2,5,6,8,9,10) fresh by simp
qed

lemma flow_inv_sign_in:
  assumes inv: "flow_inv s" and login: "hm_get (pkce_states (fl_state s)) (si_state i) = Some (si_pkce i)"
    and fresh: "si_id i \<notin> si_id ` set (fl_signins s)" and ok: "maps_ok st"
    and used: "hm_get (pkce_states st) (si_state i) = None"
    and less: "\<And>k v. hm_get (pkce_states st) k = Some v \<Longrightarrow> hm_get (pkce_states (fl_state s)) k = Some v"
    and new: "\<And>k v. hm_get (sessions st) k = Some v \<Longrightarrow>
      (k = si_id i \<and> v = si_session i) \<or> hm_get (sessions (fl_state s)) k = Some v"
    and i: "si_at i - pkce_created (si_pkce i) < 300" "ss_mxid (si_session i) = mxid (si_identity i)"
      "ss_subject (si_session i) = mas_subject (si_identity i)"
  shows "flow_inv (s\<lparr>fl_state := st, fl_clock := t, fl_signins := i # fl_signins s\<rparr>)"
proof -
  note d = flow_invD [OF inv]
  have ids: "si_id i \<notin> set (fl_imported s)" using d(10) fresh by auto
  have "(k, v) \<in> set (fl_logins s) \<and> k \<notin> si_state ` set (i # fl_signins s)"
    if "hm_get (pkce_states st) k = Some v" for k v
    using that d(3,4) [OF less [OF that]] used by auto
  moreover have "k \<notin> set (fl_imported s) \<and> (\<exists>j\<in>set (i # fl_signins s). si_id j = k \<and> si_session j = v)"
    if "hm_get (sessions st) k = Some v" for k v
    using new [OF that] d(8,9) [of k v] ids by auto
  moreover have "sign_in_ok (s\<lparr>fl_state := st, fl_clock := t, fl_signins := i # fl_signins s\<rparr>) j"
    if "j \<in> set (i # fl_signins s)" for j
    using that d(7) [of j] d(3) [OF login] i by (auto simp: sign_in_ok_def)
  ultimately show ?thesis
    unfolding flow_inv_def using ok d(2,5,6,10) d(4) [OF login] fresh by auto
qed

lemma callback_maps_ok:
  assumes "maps_ok st"
  shows "maps_ok (snd (callback env params st))"
proof (cases "cb_error params = None \<and> cb_code params \<noteq> None \<and> cb_state params \<noteq> None")
  case False
  with callback_incomplete [OF False, of env st] assms show ?thesis by simp
next
  case True
  then obtain code t where c: "cb_error params = None" "cb_code params = Some code" "cb_state params = Some t"
    by auto
  let ?live = "prune_expired_pkce (se_now env) (pkce_states st)"
  have ok: "hm_ok (pkce_states st)" "hm_ok (sessions st)" "length (pkce_states st) \<le> 256"
    "length (sessions st) \<le> SESSIONS_MAX_PENDING"
    using assms by (simp_all add: maps_ok_def SESSIONS_MAX_PENDING_def)
  have p: "hm_ok (hm_remove ?live t)" "length (hm_remove ?live t) \<le> 256"
    using ok order.trans [OF hm_len_remove_le order.trans [OF prune_maps_ok(2)]]
    by (simp_all add: prune_maps_ok hm_ok_remove)
  note cc = callback_complete [OF c, where env = env and st = st]
  show ?thesis
  proof (cases "\<exists>p x. hm_get ?live t = Some p \<and> fst (exchange_and_introspect env code (verifier p) st) = Inr x")
    case False
    with cc(1) cc(2) [OF False] ok p show ?thesis by (auto simp: maps_ok_def SESSIONS_MAX_PENDING_def)
  next
    case True
    then obtain p' ident token where e: "hm_get ?live t = Some p'"
      "fst (exchange_and_introspect env code (verifier p') st) = Inr (ident, token)" by auto
    from cc(1) cc(3) [OF e] ok p session_map.ins_ok session_map.ins_cap show ?thesis
      by (simp add: maps_ok_def SESSIONS_MAX_PENDING_def)
  qed
qed

lemma callback_pkce_less:
  assumes "hm_ok (pkce_states st)" and "hm_get (pkce_states (snd (callback env params st))) k = Some v"
  shows "hm_get (pkce_states st) k = Some v"
proof (cases "cb_error params = None \<and> cb_code params \<noteq> None \<and> cb_state params \<noteq> None")
  case False
  with callback_incomplete [OF False, of env st] assms show ?thesis by simp
next
  case True
  then obtain code t where c: "cb_error params = None" "cb_code params = Some code" "cb_state params = Some t"
    by auto
  from assms(2) show ?thesis
    unfolding callback_complete(1) [OF c]
    by (simp add: hm_get_remove prune_pkce_get [OF assms(1)] split: if_splits)
qed

lemma callback_failed_shrinks:
  assumes ok: "maps_ok st" and "\<forall>ck loc. fst (callback env params st) \<noteq> SignedIn ck loc"
  shows "shrinks st (snd (callback env params st))"
proof -
  have m: "hm_ok (pkce_states st)" "hm_ok (sessions st)" using ok by (simp_all add: maps_ok_def)
  have "hm_get (sessions st) k = Some v" if v: "hm_get (sessions (snd (callback env params st))) k = Some v" for k v
  proof (cases "cb_error params = None \<and> cb_code params \<noteq> None \<and> cb_state params \<noteq> None")
    case False
    with callback_incomplete [OF False, of env st] v show ?thesis by simp
  next
    case True
    then obtain code t where c: "cb_error params = None" "cb_code params = Some code" "cb_state params = Some t"
      by auto
    let ?live = "prune_expired_pkce (se_now env) (pkce_states st)"
    note cc = callback_complete [OF c, where env = env and st = st]
    show ?thesis
    proof (cases "\<exists>p x. hm_get ?live t = Some p \<and> fst (exchange_and_introspect env code (verifier p) st) = Inr x")
      case False
      with cc(2) [OF False] v show ?thesis by simp
    next
      case True
      then obtain p' ident token where e: "hm_get ?live t = Some p'"
        "fst (exchange_and_introspect env code (verifier p') st) = Inr (ident, token)" by auto
      have "\<not> fst (insert_pending_session (se_later env) (sessions st) (se_session_id env)
          (callback_session env ident token))"
        using cc(3) [OF e] assms(2) by (auto split: if_splits)
      with v session_map.ins_only [OF m(2), of "se_later env" "se_session_id env"] cc(3) [OF e]
      show ?thesis by auto
    qed
  qed
  then show ?thesis
    using callback_maps_ok [OF ok, of env params] callback_pkce_less [OF m(1), of env params]
    by (simp add: shrinks_def)
qed

lemma callback_proved:
  assumes ok: "maps_ok st" and pr: "proves_sign_in env params st tok p ident token"
  shows "hm_get (pkce_states st) tok = Some p" and "se_now env - pkce_created p < 300"
    and "hm_get (pkce_states (snd (callback env params st))) tok = None"
    and "hm_get (sessions (snd (callback env params st))) k = Some v \<Longrightarrow>
      (k = se_session_id env \<and> v = callback_session env ident token) \<or> hm_get (sessions st) k = Some v"
proof -
  have m: "hm_ok (pkce_states st)" "hm_ok (sessions st)" using ok by (simp_all add: maps_ok_def)
  from pr obtain code where c: "cb_error params = None" "cb_code params = Some code" "cb_state params = Some tok"
    and p: "hm_get (pkce_states st) tok = Some p" "se_now env - pkce_created p < 300"
    and e: "fst (exchange_and_introspect env code (verifier p) st) = Inr (ident, token)"
    by (auto simp: proves_sign_in_def exchange_and_introspect_eq)
  have live: "hm_get (prune_expired_pkce (se_now env) (pkce_states st)) tok = Some p"
    using p by (simp add: prune_pkce_get [OF m(1)])
  note cc = callback_complete [OF c, where env = env and st = st]
  show "hm_get (pkce_states st) tok = Some p" "se_now env - pkce_created p < 300" by (fact p)+
  show "hm_get (pkce_states (snd (callback env params st))) tok = None"
    by (simp add: cc(1) hm_get_remove)
  show "(k = se_session_id env \<and> v = callback_session env ident token) \<or> hm_get (sessions st) k = Some v"
    if "hm_get (sessions (snd (callback env params st))) k = Some v"
    using that session_map.ins_only [OF m(2)] cc(3) [OF live e] by force
qed

lemma flow_inv_import:
  assumes inv: "flow_inv s" and sh: "shrinks (fl_state s) st" and live: "hm_get (sessions st) k = Some v"
  shows "flow_inv (s\<lparr>fl_state := st\<lparr>sessions := hm_remove (sessions st) k\<rparr>, fl_imported := k # fl_imported s\<rparr>)"
proof -
  let ?st = "st\<lparr>sessions := hm_remove (sessions st) k\<rparr>"
  note d = flow_invD [OF flow_inv_shrinks [OF inv shrinks_remove_session [OF sh, of k]]]
  have old: "hm_get (sessions (fl_state s)) k = Some v" using sh live by (simp add: shrinks_def)
  have "i \<noteq> k \<and> i \<notin> set (fl_imported s) \<and> (\<exists>j\<in>set (fl_signins s). si_id j = i \<and> si_session j = w)"
    if "hm_get (sessions ?st) i = Some w" for i w
    using that d(8,9) [of i w] by (auto simp: hm_get_remove split: if_splits)
  moreover have "k \<in> si_id ` set (fl_signins s)" using flow_invD(9) [OF inv old] by auto
  moreover have "sign_in_ok (s\<lparr>fl_state := ?st, fl_imported := k # fl_imported s\<rparr>) i"
    if "i \<in> set (fl_signins s)" for i
    using d(7) [of i] that by (simp add: sign_in_ok_def)
  ultimately show ?thesis
    unfolding flow_inv_def using d(1,2,3,4,5,6,10) by simp
qed

lemma insert_pkce_maps:
  assumes ok: "maps_ok st" and st: "st' = st\<lparr>pkce_states := snd (insert_pending_pkce t (pkce_states st) k p)\<rparr>"
  shows "maps_ok st'" and "sessions st' = sessions st"
    and "hm_get (pkce_states st') i = Some v \<Longrightarrow>
      hm_get (pkce_states st) i = Some v \<or> (fst (insert_pending_pkce t (pkce_states st) k p) \<and> (i, v) = (k, p))"
proof -
  have m: "hm_ok (pkce_states st)" "length (pkce_states st) \<le> PKCE_MAX_PENDING"
    using ok by (simp_all add: maps_ok_def PKCE_MAX_PENDING_def)
  then show "maps_ok st'"
    using ok pkce_map.ins_cap [OF m(2)] by (simp add: st maps_ok_def pkce_map.ins_ok PKCE_MAX_PENDING_def)
  show "hm_get (pkce_states st) i = Some v \<or> (fst (insert_pending_pkce t (pkce_states st) k p) \<and> (i, v) = (k, p))"
    if "hm_get (pkce_states st') i = Some v"
    using that pkce_map.ins_only [OF m(1)] unfolding st by fastforce
qed (simp add: st)

lemma login_maps:
  assumes "login env st = (RedirectTo code url, st')" and "maps_ok st"
  shows "maps_ok st'" and "sessions st' = sessions st"
    and "hm_get (pkce_states st') i = Some v \<Longrightarrow>
      (i, v) = (se_state_token env, \<lparr>verifier = se_verifier env, pkce_created = se_now env\<rparr>)
      \<or> hm_get (pkce_states st) i = Some v"
proof -
  have st: "st' = st\<lparr>pkce_states := snd (insert_pending_pkce (se_now env) (pkce_states st) (se_state_token env)
      \<lparr>verifier = se_verifier env, pkce_created = se_now env\<rparr>)\<rparr>"
    using assms(1) by (cases rule: login_cases [of env st]) auto
  note insert_pkce_maps [OF assms(2) st]
  then show "maps_ok st'" "sessions st' = sessions st" "hm_get (pkce_states st') i = Some v \<Longrightarrow>
      (i, v) = (se_state_token env, \<lparr>verifier = se_verifier env, pkce_created = se_now env\<rparr>)
      \<or> hm_get (pkce_states st) i = Some v" by blast+
qed

lemma login_refused_shrinks:
  assumes "maps_ok st" and "login env st = (ErrorPage code html, st')"
  shows "shrinks st st'"
proof (cases rule: login_cases [of env st])
  case (3 html code)
  with assms(2) have st: "st' = st\<lparr>pkce_states := snd (insert_pending_pkce (se_now env) (pkce_states st)
      (se_state_token env) \<lparr>verifier = se_verifier env, pkce_created = se_now env\<rparr>)\<rparr>" by simp
  from insert_pkce_maps [OF assms(1) st] 3(2) show ?thesis by (simp add: shrinks_def)
qed (use assms in \<open>auto simp: shrinks_def\<close>)

lemma flow_inv_step: "setup_step s s' \<Longrightarrow> flow_inv s \<Longrightarrow> flow_inv s'"
proof (induction rule: setup_step.induct)
  case (step_tick s d)
  then show ?case by (simp add: flow_inv_clock)
next
  case (step_introspections s mas)
  then show ?case by (intro flow_inv_shrinks) (auto simp: shrinks_def flow_inv_def maps_ok_def)
next
  case (step_form env s cookie r st)
  then have "shrinks (fl_state s) st"
    using form_shrinks [of "fl_state s" env cookie] by (simp add: flow_inv_def)
  with step_form show ?case by (intro flow_inv_shrinks)
next
  case (step_login_refused env s code html st)
  then show ?case
    using login_refused_shrinks [of "fl_state s" env code html st] by (intro flow_inv_shrinks) (auto simp: flow_inv_def)
next
  case (step_login env s code url st)
  with login_maps [OF step_login(3)] show ?case
    by (intro flow_inv_login) (auto simp: flow_inv_def)
next
  case (step_sign_in env s params ck loc st tok p ident token)
  note cp = callback_proved [OF flow_invD(1) [OF step_sign_in(6)] step_sign_in(5)]
  have st: "st = snd (callback env params (fl_state s))" using step_sign_in(4) by simp
  show ?case
    using callback_maps_ok [OF flow_invD(1) [OF step_sign_in(6)], of env params] cp step_sign_in(3,6)
      callback_pkce_less [of "fl_state s" env params]
    by (intro flow_inv_sign_in) (auto simp: st callback_session_def flow_inv_def maps_ok_def)
next
  case (step_callback_failed env s params r st)
  then have "shrinks (fl_state s) st"
    using callback_failed_shrinks [of "fl_state s" env params] by (simp add: flow_inv_def)
  from flow_inv_shrinks [OF step_callback_failed(5) this] show ?case
    using flow_inv_clock [where s = "s\<lparr>fl_state := st\<rparr>"] by simp
next
  case (step_recover env s cookie key csrf r st i)
  let ?c = "current_session env cookie (fl_state s)"
  have sh: "shrinks (fl_state s) (snd ?c)"
    using current_session_shrinks step_recover(3) by (auto simp: flow_inv_def)
  have r: "r = fst (recover env cookie key csrf (fl_state s))" "st = fst (snd (recover env cookie key csrf (fl_state s)))"
    using step_recover(2) by simp_all
  show ?case
  proof (cases "\<exists>ck html. r = Unlocked ck html")
    case True
    then obtain ck html where u: "r = Unlocked ck html" by auto
    then obtain v sid where v: "fst ?c = Some v" "cookie = Some sid"
      using recover_unlocked r(1) by metis
    then have "hm_get (sessions (snd ?c)) sid = Some v" by (simp add: current_session_eq)
    from flow_inv_import [OF step_recover(3) sh this] u v show ?thesis
      using recover_state [of env cookie key csrf "fl_state s"] r by simp
  next
    case False
    then have "st = snd ?c" using recover_state [of env cookie key csrf "fl_state s"] r by simp
    with flow_inv_shrinks [OF step_recover(3) sh] False show ?thesis by (cases r) auto
  qed
qed

lemma setup_reachable_inv: "setup_reachable s \<Longrightarrow> flow_inv s"
proof (induction rule: setup_reachable.induct)
  case (setup_init cfg mas t)
  show ?case by (simp add: flow_inv_def maps_ok_def hm_ok_def)
next
  case (setup_next s s')
  from setup_next(2,3) show ?case by (rule flow_inv_step)
qed

lemma recover_import_needs:
  assumes ok: "hm_ok (sessions st)" and r: "snd (snd (recover env cookie key csrf st)) = Some i"
  shows "may_import env cookie key csrf st i"
proof (cases "fst (current_session env cookie st)")
  case (Some s)
  then obtain sid where "cookie = Some sid" "hm_get (sessions st) sid = Some s"
    "se_now env - ss_created s < 1800"
    by (auto simp: current_session_eq prune_sessions_get [OF ok] split: option.splits)
  with r show ?thesis
    unfolding recover_session [OF Some] may_import_def by (auto split: if_splits option.splits)
qed (use r in \<open>simp add: recover_no_session\<close>)

section \<open>What every interleaving keeps\<close>


definition demo_flow :: "rstr FlowState" where
  "demo_flow = \<lparr>fl_state = demo_setup_state\<lparr>pkce_states := []\<rparr>, fl_clock = 5, fl_logins = [], fl_signins = [],
     fl_imported = []\<rparr>"

definition demo_flow_login :: "rstr FlowState" where
  "demo_flow_login = demo_flow\<lparr>fl_state := demo_setup_state, fl_clock := 9,
     fl_logins := [(''st8'', \<lparr>verifier = ''vrf'', pkce_created = 5\<rparr>)]\<rparr>"

lemma demo_flow_login_reachable: "setup_reachable demo_flow_login"
proof -
  have 0: "setup_reachable demo_flow"
    using setup_init by (simp add: demo_flow_def demo_setup_state_def)
  obtain url where "login (demo_setup 5) (fl_state demo_flow) = (RedirectTo 307 url, demo_setup_state)"
    by (simp add: login_def demo_flow_def demo_setup_def demo_setup_state_def insert_pending_pkce_def
        refuse_when_full_def PKCE_MAX_PENDING_def hm_insert_def)
  from step_login [OF _ _ this]
  have 1: "setup_step demo_flow (demo_flow\<lparr>fl_state := demo_setup_state,
      fl_logins := [(''st8'', \<lparr>verifier = ''vrf'', pkce_created = 5\<rparr>)]\<rparr>)"
    by (simp add: demo_flow_def demo_setup_def)
  from setup_next [OF setup_next [OF 0 1] step_tick [where d = 4]] show ?thesis
    by (simp add: demo_flow_login_def demo_flow_def)
qed

lemma demo_flow_signed_in:
  obtains s :: "rstr FlowState" and v where "setup_reachable s" and "fl_clock s = 9"
    and "sessions (fl_state s) = [(''sid'', v)]" and "ss_csrf v = ''csrf''" and "ss_created v = 9"
proof -
  obtain ident where i: "proves_sign_in (demo_setup 9) demo_params demo_setup_state ''st8''
      \<lparr>verifier = ''vrf'', pkce_created = 5\<rparr> ident ''tok''" by (rule demo_proves_sign_in)
  let ?st = "snd (callback (demo_setup 9) demo_params demo_setup_state)"
  have c: "cb_error demo_params = None" "cb_code demo_params = Some ''code''" "cb_state demo_params = Some ''st8''"
    by (simp_all add: demo_params_def)
  have live: "hm_get (prune_expired_pkce (se_now (demo_setup 9)) (pkce_states demo_setup_state)) ''st8'' =
      Some \<lparr>verifier = ''vrf'', pkce_created = 5\<rparr>"
    by (simp add: prune_expired_pkce_def hm_retain_def demo_setup_def demo_setup_state_def PKCE_TTL_def)
  have e: "fst (exchange_and_introspect (demo_setup 9) ''code'' (verifier \<lparr>verifier = ''vrf'', pkce_created = 5\<rparr>)
      demo_setup_state) = Inr (ident, ''tok'')"
    using i by (simp add: exchange_and_introspect_eq proves_sign_in_def demo_params_def)
  from callback_complete(3) [OF c live e]
  have s: "sessions ?st = [(''sid'', callback_session (demo_setup 9) ident ''tok'')]"
    and r: "fst (callback (demo_setup 9) demo_params demo_setup_state) =
      SignedIn (build_session_cookie ''sid'') ''/setup/form''"
    by (simp_all add: demo_setup_def demo_setup_state_def insert_first_session)
  have "callback (demo_setup 9) demo_params (fl_state demo_flow_login) =
      (SignedIn (build_session_cookie ''sid'') ''/setup/form'', ?st)"
    using r by (simp add: demo_flow_login_def prod_eq_iff)
  from step_sign_in [OF _ _ _ this] i
  have "setup_step demo_flow_login (demo_flow_login\<lparr>fl_state := ?st, fl_clock := 9, fl_signins :=
      [\<lparr>si_id = ''sid'', si_session = callback_session (demo_setup 9) ident ''tok'', si_state = ''st8'',
        si_pkce = \<lparr>verifier = ''vrf'', pkce_created = 5\<rparr>, si_identity = ident, si_at = 9\<rparr>]\<rparr>)"
    by (simp add: demo_flow_login_def demo_flow_def demo_setup_def)
  note reach = setup_next [OF demo_flow_login_reachable this]
  show thesis
    by (rule that [where v = "callback_session (demo_setup 9) ident ''tok''", OF reach])
      (simp add: s, simp add: s, simp_all add: callback_session_def demo_setup_def)
qed


end
