(* ===== verification/ToolRequests.thy ===== *)
theory ToolRequests
  imports RateLimit KeyBackupGate AuditTrail Introspection UrlSafety ChannelPush
begin

text \<open>
  The vocabulary of the tool handlers of \<open>src/mcp.rs\<close>: what a call does outside the
  process, recorded in order as a list of \<open>Effect\<close>s (\<open>Asked\<close> is a request that
  reads, \<open>Did\<close> one that changes something at the homeserver), and what matrix-sdk and the
  homeserver answer, which is an argument: a function of the effects so far and of the request. The id
  parsers of ruma are arguments too; each gives the text of its error. A room handle is read as one
  snapshot of what the SDK has cached.
\<close>

section \<open>Requests to the homeserver\<close>

datatype ReadMessagesDirection = Backward | Forward

datatype RelationType = ThreadRelation | AnnotationRelation

datatype SdkRead =
    GetMessages rstr ReadMessagesDirection nat "rstr option" "rstr option"
  | GetRelations rstr rstr RelationType nat "rstr option"
  | GetEvent rstr rstr
  | GetPowerLevels rstr
  | GetUserReceipt rstr rstr
  | GetEventReceipts rstr rstr
  | GetThreads rstr bool nat
  | GetStateEvents rstr rstr "rstr option"
  | GetPinned rstr
  | GetAccountData rstr
  | GetProfile rstr
  | SearchEvents rstr "rstr option" nat
  | GetMembers rstr
  | GetHierarchy rstr nat nat bool
  | GetPresence rstr
  | QueryIdentity rstr
  | CachedIdentity rstr
  | GetDevice rstr rstr
  | GetMedia rstr
  | PullRoomKeys rstr

datatype MediaKind = FileMedia | VideoMedia | AudioMedia

text \<open>The media message a tool composes; \<open>None\<close> as the kind is an image.\<close>

record MediaContent =
  mc_kind :: "MediaKind option"
  mc_body :: rstr
  mc_url :: rstr
  mc_filename :: "rstr option"
  mc_mime :: "rstr option"
  mc_size :: "nat option"
  mc_duration :: "nat option"
  mc_voice :: bool
  mc_audio :: "(nat \<times> nat list) option"

datatype RoomPreset = PublicChat | PrivateChat | TrustedPrivateChat

record CreateRoomRequest =
  cr_name :: "rstr option"
  cr_topic :: "rstr option"
  cr_invite :: "rstr list"
  cr_direct :: bool
  cr_alias :: "rstr option"
  cr_preset :: RoomPreset
  cr_public :: bool
  cr_encrypted :: bool

datatype SdkWrite =
    SendText rstr rstr "rstr option"
  | SendReplacement rstr rstr rstr
  | SendReaction rstr rstr rstr
  | SendMedia rstr MediaContent
  | RedactEvent rstr rstr "rstr option"
  | KickUser rstr rstr "rstr option"
  | BanUser rstr rstr "rstr option"
  | UnbanUser rstr rstr "rstr option"
  | SetName rstr rstr
  | SetTopic rstr rstr
  | SetPowerLevel rstr rstr int
  | SetPinned rstr "rstr list"
  | SendReceipt rstr rstr
  | InviteUser rstr rstr
  | JoinByIdOrAlias rstr
  | JoinById rstr
  | LeaveRoom rstr
  | CreateRoom CreateRoomRequest
  | IgnoreUser rstr
  | UnignoreUser rstr
  | SetDisplayName "rstr option"
  | SetAvatar "rstr option"
  | SetAccountData rstr json
  | SetPresence rstr rstr "rstr option"
  | UploadMedia rstr nat
  | BootstrapIdentity
  | EnableRecovery

text \<open>Beside requests: the verdict of the rate limiter, the fetch of the caller's client, a URL or a
  speech request, a wait in seconds, evictions, the audit record and the two background tasks.\<close>

datatype Effect =
    Charged Category bool
  | ClientFor rstr rstr
  | Asked SdkRead
  | Did SdkWrite
  | Requested rstr
  | Posted rstr json
  | Slept nat
  | EvictedClient rstr
  | DroppedToken rstr
  | Logged rstr rstr "rstr option" rstr "nat option" "rstr option"
  | NoticeSpawned rstr "rstr option" rstr
  | PullSpawned rstr rstr

section \<open>What the SDK answers\<close>

text \<open>The latest event of a room: \<open>le_remote\<close> is present when it came from the server, and
  then is its JSON when that decodes.\<close>

record LatestEvent =
  le_event_id :: "rstr option"
  le_timestamp :: "nat option"
  le_remote :: "json option option"

record Room =
  rm_id :: rstr
  rm_state :: RoomState
  rm_encrypted :: bool
  rm_display_name :: "rstr option"
  rm_name :: "rstr option"
  rm_topic :: "rstr option"
  rm_joined :: nat
  rm_active :: nat
  rm_notifications :: nat
  rm_highlights :: nat
  rm_unread :: nat
  rm_latest :: LatestEvent

datatype PowerLevel = PlInt int | PlInfinite | PlOther

record PowerLevels =
  pl_users :: "(rstr \<times> int) list"
  pl_users_default :: int
  pl_for :: "rstr \<Rightarrow> PowerLevel"

record MessagesPage =
  mp_start :: rstr
  mp_end :: "rstr option"
  mp_chunk :: "TimelineEvent list"

record RelationsPage =
  rp_chunk :: "TimelineEvent list"
  rp_next :: "rstr option"

record Member =
  mb_user :: rstr
  mb_display_name :: "rstr option"
  mb_avatar :: "rstr option"
  mb_power :: PowerLevel

record HierarchyRoom =
  hr_room_id :: rstr
  hr_name :: "rstr option"
  hr_topic :: "rstr option"
  hr_alias :: "rstr option"
  hr_avatar :: "rstr option"
  hr_members :: nat
  hr_type :: "rstr option"
  hr_join_rule :: rstr

record PresenceAnswer =
  pa_presence :: rstr
  pa_status_msg :: "rstr option"
  pa_active :: "bool option"
  pa_last_active :: "nat option"

record SearchAnswer =
  sa_count :: "nat option"
  sa_results :: "(json option \<times> rstr option) list"

text \<open>A media message of a room: where it is, its declared type and size, its file name; any other
  message has its type and its body.\<close>

datatype AttachmentContent =
    MediaMessage rstr "rstr option" "nat option" rstr rstr
  | OtherMessage rstr rstr

datatype PinnedState = NoPins | PinsUndecodable rstr | Pins "rstr list"

datatype MediaAnswer = MediaTimedOut | MediaFailed rstr | Media rstr

type_synonym 'a answer = "Effect list \<Rightarrow> SdkRead \<Rightarrow> rstr + 'a"

record Sdk =
  sd_for_user :: "Effect list \<Rightarrow> rstr \<Rightarrow> rstr \<Rightarrow> rstr option"
  sd_user_id :: "rstr option"
  sd_device_id :: "rstr option"
  sd_get_room :: "Effect list \<Rightarrow> rstr \<Rightarrow> Room option"
  sd_joined_rooms :: "Effect list \<Rightarrow> Room list"
  sd_invited_rooms :: "Effect list \<Rightarrow> Room list"
  sd_write :: "Effect list \<Rightarrow> SdkWrite \<Rightarrow> rstr + rstr"
  sd_messages :: "MessagesPage answer"
  sd_relations :: "RelationsPage answer"
  sd_event :: "TimelineEvent answer"
  sd_power_levels :: "PowerLevels answer"
  sd_user_receipt :: "(rstr \<times> nat option) option answer"
  sd_event_receipts :: "(rstr \<times> nat option) list answer"
  sd_threads :: "(TimelineEvent list \<times> rstr option) answer"
  sd_state_events :: "json list answer"
  sd_pinned :: "PinnedState answer"
  sd_account_data :: "json option answer"
  sd_profile :: "json answer"
  sd_search :: "SearchAnswer answer"
  sd_members :: "Member list answer"
  sd_hierarchy :: "(HierarchyRoom list \<times> rstr option) answer"
  sd_presence :: "PresenceAnswer answer"
  sd_identity :: "bool answer"
  sd_device :: "bool option answer"
  sd_media :: "Effect list \<Rightarrow> rstr \<Rightarrow> MediaAnswer"
  sd_pull_keys :: "Effect list \<Rightarrow> rstr \<Rightarrow> bool"
  sd_original_sender :: "TimelineEvent \<Rightarrow> rstr + rstr"
  sd_message_content :: "json \<Rightarrow> AttachmentContent option"
  sd_ignored_list :: "json \<Rightarrow> rstr list option"

text \<open>The URL side of an upload; \<open>wb_essence\<close> is a media type without its parameters.\<close>

record Web =
  wb_normal :: "rstr \<Rightarrow> rstr option"
  wb_head :: "rstr \<Rightarrow> HeadAnswer"
  wb_join :: "rstr \<Rightarrow> rstr \<Rightarrow> rstr option"
  wb_validate :: "rstr \<Rightarrow> bool"
  wb_get :: "rstr \<Rightarrow> GetAnswer"
  wb_mime :: "rstr \<Rightarrow> rstr option"
  wb_essence :: "rstr \<Rightarrow> rstr"

text \<open>The service: its configuration, the parsers, the clock as a function of the trace, and the
  buckets of the rate limiter.\<close>

record 'b ToolEnv =
  te_sdk :: Sdk
  te_web :: Web
  te_now :: "Effect list \<Rightarrow> instant"
  te_fresh :: "nat \<Rightarrow> 'b"
  te_take :: "instant \<Rightarrow> 'b \<Rightarrow> bool \<times> 'b"
  te_token_hash :: "rstr \<Rightarrow> rstr"
  te_room_err :: "rstr \<Rightarrow> rstr option"
  te_event_err :: "rstr \<Rightarrow> rstr option"
  te_user_err :: "rstr \<Rightarrow> rstr option"
  te_alias_err :: "rstr \<Rightarrow> rstr option"
  te_upload_max :: nat
  te_download_max :: nat
  te_setup_url :: rstr

record 'b ToolWorld =
  tw_limiter :: "'b Limiter"
  tw_gate :: KeyBackupGate
  tw_trace :: "Effect list"

record RequestContext =
  ctx_identity :: "AuthenticatedIdentity option"
  ctx_token :: "rstr option"

end
