(* ===== verification/ToolCall.thy ===== *)
theory ToolCall
  imports ToolRequests
begin

text \<open>
  What the tool handlers of \<open>src/mcp.rs\<close> share. The body of a handler is a computation
  over \<open>ToolWorld\<close> that may fail; \<open>bindT\<close> is Rust's question mark. Around it go the
  quota check, the caller's client, \<open>react_to_auth_expiry\<close>, the audit record and the notice,
  in the order of the source: \<open>read_tool\<close>, \<open>write_tool\<close> and
  \<open>notice_first_tool\<close> are the three envelopes.
\<close>

type_synonym ('b, 'a) tool = "'b ToolWorld \<Rightarrow> (ErrorData + 'a) \<times> 'b ToolWorld"

section \<open>Computations\<close>

definition returnT :: "'a \<Rightarrow> ('b, 'a) tool" where
  "returnT a w = (Inr a, w)"

definition failT :: "ErrorData \<Rightarrow> ('b, 'a) tool" where
  "failT e w = (Inl e, w)"

definition bindT :: "('b, 'a) tool \<Rightarrow> ('a \<Rightarrow> ('b, 'c) tool) \<Rightarrow> ('b, 'c) tool" where
  "bindT m k w = (case m w of (Inl e, w') \<Rightarrow> (Inl e, w') | (Inr a, w') \<Rightarrow> k a w')"

definition liftT :: "ErrorData + 'a \<Rightarrow> ('b, 'a) tool" where
  "liftT r w = (r, w)"

definition ensureT :: "bool \<Rightarrow> ErrorData \<Rightarrow> ('b, unit) tool" where
  "ensureT c e = (if c then returnT () else failT e)"

definition someT :: "'a option \<Rightarrow> ErrorData \<Rightarrow> ('b, 'a) tool" where
  "someT x e = (case x of None \<Rightarrow> failT e | Some a \<Rightarrow> returnT a)"

text \<open>A result that is matched on instead of returned early.\<close>

definition tryT :: "('b, 'a) tool \<Rightarrow> ('b, ErrorData + 'a) tool" where
  "tryT m w = (case m w of (r, w') \<Rightarrow> (Inr r, w'))"

definition emitT :: "Effect \<Rightarrow> ('b, unit) tool" where
  "emitT e w = (Inr (), w\<lparr>tw_trace := tw_trace w @ [e]\<rparr>)"

text \<open>Something read off the trace so far.\<close>

definition seeT :: "(Effect list \<Rightarrow> 'a) \<Rightarrow> ('b, 'a) tool" where
  "seeT f w = (Inr (f (tw_trace w)), w)"

fun forT :: "('x \<Rightarrow> ('b, 'a) tool) \<Rightarrow> 'x list \<Rightarrow> ('b, 'a list) tool" where
  "forT f [] = returnT []"
| "forT f (x # xs) = bindT (f x) (\<lambda>y. bindT (forT f xs) (\<lambda>ys. returnT (y # ys)))"

text \<open>A request; a failure is an internal error whose text starts with the label.\<close>

definition tryAskT :: "SdkRead \<Rightarrow> 'a answer \<Rightarrow> ('b, rstr + 'a) tool" where
  "tryAskT q answer = bindT (seeT (\<lambda>h. answer h q)) (\<lambda>r. bindT (emitT (Asked q)) (\<lambda>_. returnT r))"

definition labelled :: "rstr \<Rightarrow> rstr + 'a \<Rightarrow> ('b, 'a) tool" where
  "labelled label r = (case r of Inl e \<Rightarrow> failT (Internal_error (label @ '': '' @ e)) | Inr a \<Rightarrow> returnT a)"

definition askT :: "rstr \<Rightarrow> SdkRead \<Rightarrow> 'a answer \<Rightarrow> ('b, 'a) tool" where
  "askT label q answer = bindT (tryAskT q answer) (labelled label)"

definition tryDoT :: "'b ToolEnv \<Rightarrow> SdkWrite \<Rightarrow> ('b, rstr + rstr) tool" where
  "tryDoT E c = bindT (seeT (\<lambda>h. sd_write (te_sdk E) h c)) (\<lambda>r. bindT (emitT (Did c)) (\<lambda>_. returnT r))"

definition doT :: "'b ToolEnv \<Rightarrow> rstr \<Rightarrow> SdkWrite \<Rightarrow> ('b, rstr) tool" where
  "doT E label c = bindT (tryDoT E c) (labelled label)"

section \<open>The checks every handler starts with\<close>

definition missing_identity_err :: ErrorData where
  "missing_identity_err = Internal_error ''no authenticated identity in request context; router misconfiguration''"

definition missing_token_err :: ErrorData where
  "missing_token_err = Internal_error ''no access token in request context; router misconfiguration''"

definition limiter_verdict ::
  "'b ToolEnv \<Rightarrow> rstr \<Rightarrow> rstr \<Rightarrow> Category \<Rightarrow> ('b, unit) tool" where
  "limiter_verdict E token subject category w =
     (let (ok, l) = limiter_check (te_fresh E) (te_take E) (te_now E (tw_trace w))
            (te_token_hash E token) (Some subject) category (tw_limiter w)
      in (if ok then Inr () else Inl Rate_limited,
          w\<lparr>tw_limiter := l, tw_trace := tw_trace w @ [Charged category ok]\<rparr>))"

definition rate_limit_check :: "'b ToolEnv \<Rightarrow> RequestContext \<Rightarrow> Category \<Rightarrow> ('b, unit) tool" where
  "rate_limit_check E ctx category =
     bindT (someT (ctx_token ctx) missing_token_err) (\<lambda>token.
     bindT (someT (ctx_identity ctx) missing_identity_err) (\<lambda>ident.
     limiter_verdict E token (mas_subject ident) category))"

definition for_user_of :: "'b ToolEnv \<Rightarrow> AuthenticatedIdentity \<Rightarrow> rstr \<Rightarrow> ('b, rstr option) tool" where
  "for_user_of E ident token =
     bindT (seeT (\<lambda>h. sd_for_user (te_sdk E) h (mxid ident) token)) (\<lambda>failure.
     bindT (emitT (ClientFor (mxid ident) token)) (\<lambda>_. returnT failure))"

definition client_for :: "'b ToolEnv \<Rightarrow> RequestContext \<Rightarrow> ('b, unit) tool" where
  "client_for E ctx =
     bindT (someT (ctx_identity ctx) missing_identity_err) (\<lambda>ident.
     bindT (someT (ctx_token ctx) missing_token_err) (\<lambda>token.
     bindT (for_user_of E ident token) (\<lambda>failure. (case failure of
         None \<Rightarrow> returnT ()
       | Some e \<Rightarrow> failT (Internal_error (''build matrix client: '' @ e))))))"

text \<open>The parsers of ids: an id is the text it was parsed from.\<close>

definition parse_id :: "(rstr \<Rightarrow> rstr option) \<Rightarrow> rstr \<Rightarrow> ('b, rstr) tool" where
  "parse_id err s = (case err s of None \<Rightarrow> returnT s | Some _ \<Rightarrow> failT Invalid_params)"

definition get_room :: "'b ToolEnv \<Rightarrow> rstr \<Rightarrow> ('b, Room) tool" where
  "get_room E room_id = bindT (seeT (\<lambda>h. sd_get_room (te_sdk E) h room_id)) (\<lambda>r. someT r Invalid_params)"

text \<open>The opening of a handler on a room: its category, then the client, the id, the room.\<close>

definition open_room :: "'b ToolEnv \<Rightarrow> rstr \<Rightarrow> ('b, Room) tool" where
  "open_room E s = bindT (parse_id (te_room_err E) s) (get_room E)"

definition require_joined :: "Room \<Rightarrow> ('b, unit) tool" where
  "require_joined room = ensureT (rm_state room = Joined) Invalid_params"

section \<open>After the body\<close>

definition is_auth_expiry_signature :: "rstr \<Rightarrow> bool" where
  "is_auth_expiry_signature msg \<longleftrightarrow>
     contains_str msg ''M_UNKNOWN_TOKEN'' \<or> contains_str msg ''Token is not active''"

fun err_code :: "ErrorData \<Rightarrow> int" where
  "err_code Invalid_params = -32602"
| "err_code (Internal_error msg) = -32603"
| "err_code Rate_limited = RATE_LIMITED_CODE"
| "err_code Auth_expired = AUTH_EXPIRED_CODE"

definition add_effects :: "Effect list \<Rightarrow> 'b ToolWorld \<Rightarrow> 'b ToolWorld" where
  "add_effects es w = w\<lparr>tw_trace := tw_trace w @ es\<rparr>"

text \<open>What the reaction evicts: the client of the caller, the cached verdict on the token.\<close>

definition evictions :: "RequestContext \<Rightarrow> Effect list" where
  "evictions ctx =
     (case ctx_identity ctx of None \<Rightarrow> [] | Some ident \<Rightarrow> [EvictedClient (mxid ident)])
     @ (case ctx_token ctx of None \<Rightarrow> [] | Some token \<Rightarrow> [DroppedToken token])"

definition react_to_auth_expiry ::
  "RequestContext \<Rightarrow> (ErrorData + 'a) \<times> 'b ToolWorld \<Rightarrow> (ErrorData + 'a) \<times> 'b ToolWorld" where
  "react_to_auth_expiry ctx p = (case p of
      (Inl (Internal_error msg), w) \<Rightarrow>
        if is_auth_expiry_signature msg then (Inl Auth_expired, add_effects (evictions ctx) w) else p
    | _ \<Rightarrow> p)"

definition caller_mxid :: "RequestContext \<Rightarrow> rstr" where
  "caller_mxid ctx = (case ctx_identity ctx of None \<Rightarrow> [] | Some ident \<Rightarrow> mxid ident)"

definition outcome_of :: "ErrorData + 'a \<Rightarrow> rstr" where
  "outcome_of r = (case r of
      Inr _ \<Rightarrow> ''ok''
    | Inl e \<Rightarrow> if err_code e = RATE_LIMITED_CODE then ''rate_limited'' else ''error'')"

definition emit_tool_audit ::
  "'b ToolEnv \<Rightarrow> rstr \<Rightarrow> RequestContext \<Rightarrow> rstr option \<Rightarrow> nat option \<Rightarrow> ErrorData + 'a \<Rightarrow> Effect" where
  "emit_tool_audit E tool ctx room_id event_count r =
     Logged tool (caller_mxid ctx) (audit_room_field (\<lambda>s. te_room_err E s = None) room_id) (outcome_of r)
       event_count (case r of Inr _ \<Rightarrow> None | Inl e \<Rightarrow> Some (error_class (err_code e)))"

text \<open>No notice after a refusal by the rate limiter or an expired session, nor without a client.\<close>

definition emit_write_notice ::
  "'b ToolEnv \<Rightarrow> RequestContext \<Rightarrow> rstr \<Rightarrow> rstr option \<Rightarrow> ErrorData + 'a \<Rightarrow> Effect list \<Rightarrow> Effect list" where
  "emit_write_notice E ctx tool room_id r h =
     (if r = Inl Rate_limited \<or> r = Inl Auth_expired then []
      else (case ctx_identity ctx of None \<Rightarrow> []
        | Some ident \<Rightarrow> (case ctx_token ctx of None \<Rightarrow> []
          | Some token \<Rightarrow> ClientFor (mxid ident) token #
              (if sd_for_user (te_sdk E) h (mxid ident) token = None
               then [NoticeSpawned tool room_id (if isl r then ''error'' else ''ok'')] else []))))"

section \<open>The envelopes\<close>

definition read_tool ::
  "'b ToolEnv \<Rightarrow> RequestContext \<Rightarrow> rstr \<Rightarrow> rstr option \<Rightarrow> (ErrorData + 'a \<Rightarrow> nat option) \<Rightarrow> ('b, 'a) tool
     \<Rightarrow> ('b, 'a) tool" where
  "read_tool E ctx tool room_id event_count body w =
     (let (r, w) = react_to_auth_expiry ctx (body w)
      in (r, add_effects [emit_tool_audit E tool ctx room_id (event_count r) r] w))"

definition write_tool ::
  "'b ToolEnv \<Rightarrow> RequestContext \<Rightarrow> rstr \<Rightarrow> rstr option \<Rightarrow> ('b, 'a) tool \<Rightarrow> ('b, 'a) tool" where
  "write_tool E ctx tool room_id body w =
     (let (r, w) = react_to_auth_expiry ctx (body w);
          w = add_effects [emit_tool_audit E tool ctx room_id None r] w
      in (r, add_effects (emit_write_notice E ctx tool room_id r (tw_trace w)) w))"

definition notice_first_tool ::
  "'b ToolEnv \<Rightarrow> RequestContext \<Rightarrow> rstr \<Rightarrow> rstr option \<Rightarrow> ('b, 'a) tool \<Rightarrow> ('b, 'a) tool" where
  "notice_first_tool E ctx tool room_id body w =
     (let (r, w) = react_to_auth_expiry ctx (body w);
          w = add_effects (emit_write_notice E ctx tool room_id r (tw_trace w)) w
      in (r, add_effects [emit_tool_audit E tool ctx room_id None r] w))"

text \<open>The event count of a handler that counts: 0 after an error.\<close>

definition counted :: "('a \<Rightarrow> nat) \<Rightarrow> ErrorData + 'a \<Rightarrow> nat option" where
  "counted f r = Some (case r of Inl _ \<Rightarrow> 0 | Inr a \<Rightarrow> f a)"

definition uncounted :: "ErrorData + 'a \<Rightarrow> nat option" where
  "uncounted r = None"

end
