(* ===== verification/ToolInputs.thy ===== *)
theory ToolInputs
  imports ToolRequests Configuration Complex_Main
begin

text \<open>
  The parameters of the tools of \<open>src/mcp.rs\<close>: the lenient integers of
  \<open>lenient_int\<close> with their defaults, the bounds, and the checks made before anything is sent.
  The text of an error about parameters is not kept.
\<close>

section \<open>Bounds\<close>

definition MAX_MESSAGE_LIMIT :: nat where "MAX_MESSAGE_LIMIT = 200"
definition MAX_TEXT_MESSAGE_BODY_BYTES :: nat where "MAX_TEXT_MESSAGE_BODY_BYTES = 64 * 1024"
definition MAX_REACTION_KEY_BYTES :: nat where "MAX_REACTION_KEY_BYTES = 1024"
definition MAX_RECEIPT_USERS :: nat where "MAX_RECEIPT_USERS = 100"
definition MAX_EVENT_RECEIPT_READERS :: nat where "MAX_EVENT_RECEIPT_READERS = 1000"
definition MAX_REDACTION_REASON_BYTES :: nat where "MAX_REDACTION_REASON_BYTES = MAX_TEXT_MESSAGE_BODY_BYTES"
definition MAX_ACCOUNT_DATA_CONTENT_BYTES :: nat where "MAX_ACCOUNT_DATA_CONTENT_BYTES = 32 * 1024"
definition MAX_STATE_EVENTS :: nat where "MAX_STATE_EVENTS = 500"
definition MAX_THREAD_LIMIT :: nat where "MAX_THREAD_LIMIT = 200"
definition MAX_RELATIONS_PAGE :: nat where "MAX_RELATIONS_PAGE = 100"
definition MAX_MEMBER_LIMIT :: nat where "MAX_MEMBER_LIMIT = 1000"
definition MAX_RECENT_ACTIVITY_LIMIT :: nat where "MAX_RECENT_ACTIVITY_LIMIT = 200"
definition MAX_THREADS_LIMIT :: nat where "MAX_THREADS_LIMIT = 100"
definition MAX_SPACE_HIERARCHY_LIMIT :: nat where "MAX_SPACE_HIERARCHY_LIMIT = 200"

definition default_message_limit :: nat where "default_message_limit = 50"
definition default_thread_limit :: nat where "default_thread_limit = 50"
definition default_member_limit :: nat where "default_member_limit = 200"
definition default_search_limit :: nat where "default_search_limit = 20"
definition default_recent_activity_limit :: nat where "default_recent_activity_limit = 50"
definition default_threads_limit :: nat where "default_threads_limit = 25"
definition default_space_hierarchy_limit :: nat where "default_space_hierarchy_limit = 50"
definition default_space_hierarchy_max_depth :: nat where "default_space_hierarchy_max_depth = 3"

definition capped_message_limit :: "nat \<Rightarrow> nat" where
  "capped_message_limit limit = (if MAX_MESSAGE_LIMIT < limit then MAX_MESSAGE_LIMIT else limit)"

text \<open>\<open>limit.clamp(1, cap)\<close>.\<close>

definition clamp_limit :: "nat \<Rightarrow> nat \<Rightarrow> nat" where
  "clamp_limit limit cap = max 1 (min limit cap)"

section \<open>Lenient integers\<close>

text \<open>A field that is present; serde reads a JSON null as absent.\<close>

fun opt_u64 :: "json \<Rightarrow> nat option" where
  "opt_u64 (JStr s) = (let t = trim s in if t = [] then None else parse_uint 64 t)"
| "opt_u64 v = as_u64 v"

definition opt_u32 :: "json \<Rightarrow> nat option" where
  "opt_u32 v = Option.bind (opt_u64 v) (\<lambda>n. if n < 2 ^ 32 then Some n else None)"

text \<open>A required field with a default: \<open>None\<close> is a field that was left out.\<close>

definition lenient_u32_default :: "nat \<Rightarrow> json option \<Rightarrow> nat" where
  "lenient_u32_default dflt field = (case field of
      None \<Rightarrow> dflt
    | Some v \<Rightarrow> (case opt_u32 v of None \<Rightarrow> dflt | Some n \<Rightarrow> n))"

definition default_read_messages_direction :: ReadMessagesDirection where
  "default_read_messages_direction = Backward"

section \<open>Checks\<close>

definition account_data_event_type_is_reserved :: "rstr \<Rightarrow> bool" where
  "account_data_event_type_is_reserved event_type \<longleftrightarrow>
     event_type \<in> set [''m.audit_room'', ''m.ignored_user_list'', ''m.push_rules'', ''m.direct'',
       ''m.secret_storage.default_key'', ''m.cross_signing.master'', ''m.cross_signing.self_signing'',
       ''m.cross_signing.user_signing'', ''m.megolm_backup.v1'']
     \<or> prefix ''m.secret_storage.key.'' event_type"

definition validate_text_message_body :: "rstr \<Rightarrow> ErrorData + unit" where
  "validate_text_message_body s =
     (if MAX_TEXT_MESSAGE_BODY_BYTES < length s then Inl Invalid_params else Inr ())"

definition validate_reaction_key :: "rstr \<Rightarrow> ErrorData + unit" where
  "validate_reaction_key s = (if MAX_REACTION_KEY_BYTES < length s then Inl Invalid_params else Inr ())"

definition validate_redaction_reason :: "rstr option \<Rightarrow> ErrorData + unit" where
  "validate_redaction_reason reason = (case reason of
      None \<Rightarrow> Inr ()
    | Some s \<Rightarrow> if MAX_REDACTION_REASON_BYTES < length s then Inl Invalid_params else Inr ())"

definition validate_room_members_enumeration :: "nat \<Rightarrow> ErrorData + unit" where
  "validate_room_members_enumeration joined = (if MAX_MEMBER_LIMIT < joined then Inl Invalid_params else Inr ())"

definition validate_voice_params ::
  "nat option \<Rightarrow> nat list option \<Rightarrow> nat \<Rightarrow> nat \<Rightarrow> nat \<Rightarrow> ErrorData + unit" where
  "validate_voice_params duration_ms waveform duration_max len_max value_max =
     (if (case duration_ms of None \<Rightarrow> False | Some d \<Rightarrow> duration_max < d) then Inl Invalid_params
      else (case waveform of
          None \<Rightarrow> Inr ()
        | Some ws \<Rightarrow>
            if ws = [] then Inl Invalid_params
            else if len_max < length ws then Inl Invalid_params
            else if list_ex (\<lambda>v. value_max < v) ws then Inl Invalid_params
            else Inr ()))"

definition is_chat_message_type :: "rstr option \<Rightarrow> bool" where
  "is_chat_message_type t \<longleftrightarrow>
     t \<in> set [Some ''m.room.message'', Some ''m.sticker'', Some ''m.room.encrypted'']"

section \<open>Speech input\<close>

text \<open>The characters of a valid string, each with its bytes.\<close>

function chars_of :: "rstr \<Rightarrow> rstr list" where
  "chars_of [] = []"
| "chars_of (c # s) = (c # takeWhile is_cont s) # chars_of (dropWhile is_cont s)"
  by pat_completeness auto
termination
  by (relation "measure length") (auto simp: le_imp_less_Suc length_dropWhile_le)

text \<open>\<open>alnum\<close> is \<open>char::is_alphanumeric\<close>, a table of the standard library.\<close>

fun pause_chars :: "(rstr \<Rightarrow> bool) \<Rightarrow> rstr list \<Rightarrow> rstr" where
  "pause_chars alnum [] = []"
| "pause_chars alnum (c # cs) =
     c @ (if c \<in> set [''.'', ''?'', ''!'']
            \<and> (case cs of next # after # _ \<Rightarrow> next \<in> set ws_seqs \<and> alnum after | _ \<Rightarrow> False)
          then '' ...'' else []) @ pause_chars alnum cs"

definition inject_pauses :: "(rstr \<Rightarrow> bool) \<Rightarrow> rstr \<Rightarrow> rstr" where
  "inject_pauses alnum input =
     (if contains_str input ''...'' then input else pause_chars alnum (chars_of input))"

text \<open>A float of the request: finite, or too large for 32 bits.\<close>

datatype f32 = F32 rat | F32_infinite

definition in_unit_range :: "f32 \<Rightarrow> bool" where
  "in_unit_range v = (case v of F32 q \<Rightarrow> 0 \<le> q \<and> q \<le> 1 | F32_infinite \<Rightarrow> False)"

record SendTtsVoiceMessageParams =
  tp_room_id :: rstr
  tp_input :: rstr
  tp_voice :: "rstr option"
  tp_exaggeration :: "f32 option"
  tp_cfg_weight :: "f32 option"
  tp_language_id :: "rstr option"
  tp_caption :: "rstr option"

definition validate_tts_params :: "SendTtsVoiceMessageParams \<Rightarrow> nat \<Rightarrow> ErrorData + unit" where
  "validate_tts_params params input_max_chars =
     (if trim (tp_input params) = [] then Inl Invalid_params
      else if input_max_chars < length (chars_of (tp_input params)) then Inl Invalid_params
      else if list_ex (\<lambda>v. case v of None \<Rightarrow> False | Some v \<Rightarrow> \<not> in_unit_range v)
                [tp_exaggeration params, tp_cfg_weight params] then Inl Invalid_params
      else Inr ())"

text \<open>The transcript shown beside a spoken message: at most \<open>n\<close> characters of the trimmed input.\<close>

definition body_fallback :: "nat \<Rightarrow> rstr \<Rightarrow> rstr" where
  "body_fallback n input =
     (let cs = chars_of (trim input) in concat (take n cs) @ (if n < length cs then ellipsis else []))"

section \<open>Facts\<close>

fun show_nat :: "nat \<Rightarrow> rstr" where
  "show_nat n = (if n < 10 then [char_of (48 + n)] else show_nat (n div 10) @ [char_of (48 + n mod 10)])"

declare show_nat.simps [simp del]

text \<open>A number and its decimal text are the same parameter.\<close>

lemma digit_value_show: "d < 10 \<Longrightarrow> digit_value (char_of (48 + d)) = Some d"
proof -
  have "list_all (\<lambda>d. digit_value (char_of (48 + d)) = Some d) [0..<10]" by code_simp
  then show "d < 10 \<Longrightarrow> digit_value (char_of (48 + d)) = Some d" by (simp add: list_all_iff)
qed

lemma parse_digits_append:
  "parse_digits w acc (s @ t) = Option.bind (parse_digits w acc s) (\<lambda>n. parse_digits w n t)"
  by (induction w acc s rule: parse_digits.induct) (auto split: option.splits)

lemma parse_digits_one:
  "d < 10 \<Longrightarrow> parse_digits w n [char_of (48 + d)] = (if 2 ^ w \<le> n * 10 + d then None else Some (n * 10 + d))"
  by (simp add: digit_value_show)

lemma parse_digits_show: "parse_digits w 0 (show_nat n) = (if n < 2 ^ w then Some n else None)"
proof (induction n rule: show_nat.induct)
  case (1 n)
  show ?case
  proof (cases "n < 10")
    case True
    then show ?thesis using parse_digits_one [of n w 0] by (simp add: show_nat.simps [of n])
  next
    case False
    have d: "n mod 10 < 10" "n div 10 * 10 + n mod 10 = n" by simp_all
    have "n div 10 < 2 ^ w" if "n < 2 ^ w" using that by (meson div_le_dividend le_less_trans)
    with False "1.IH" d show ?thesis
      by (simp add: show_nat.simps [of n] parse_digits_append parse_digits_one [OF d(1)] del: parse_digits.simps)
  qed
qed

lemma show_nat_digits: "set (show_nat n) \<subseteq> set ''0123456789'' \<and> show_nat n \<noteq> []"
proof (induction n rule: show_nat.induct)
  case (1 n)
  have "char_of (48 + d) \<in> set ''0123456789''" if "d < 10" for d :: nat
    using digit_value_show [OF that] by (auto simp: digit_value_def split: if_splits)
  with 1 show ?case by (simp add: show_nat.simps [of n])
qed

lemma opt_u64_show: "opt_u64 (JStr (show_nat n)) = opt_u64 (JInt (int n))"
proof -
  have "list_all (\<lambda>c. c \<notin> set (concat ws_seqs)) ''0123456789''" by code_simp
  then have "ws_free (show_nat n)"
    using show_nat_digits [of n] by (auto simp only: ws_free_def list_all_iff)
  then have t: "trim (show_nat n) = show_nat n" by (rule trim_ws_free)
  obtain c s where c: "show_nat n = c # s" "c \<in> set ''0123456789''"
    using show_nat_digits [of n] by (cases "show_nat n") auto
  then have "c \<noteq> CHR ''+''" by auto
  with c(1) have "parse_uint 64 (show_nat n) = parse_digits 64 0 (show_nat n)" by (simp add: parse_uint_def)
  then have "parse_uint 64 (show_nat n) = (if n < 2 ^ 64 then Some n else None)"
    by (simp only: parse_digits_show)
  with t show_nat_digits [of n] show ?thesis by (simp add: Let_def)
qed

text \<open>A limit may be sent as a number or as its decimal text, with the same effect; what is left out,
  blank, or not a number of 32 bits counts as the default; and a page request never asks for more
  than the cap.\<close>

theorem lenient_limits:
  "lenient_u32_default dflt (Some (JStr (show_nat n))) = lenient_u32_default dflt (Some (JInt (int n)))
   \<and> lenient_u32_default dflt (Some (JInt (int n))) = (if n < 2 ^ 32 then n else dflt)
   \<and> list_all (\<lambda>v. lenient_u32_default dflt v = dflt)
        [None, Some JNull, Some (JStr []), Some (JStr '' ''), Some (JStr ''lots''), Some (JInt (-1)), Some (JBool True)]
   \<and> capped_message_limit (lenient_u32_default dflt v) \<le> 200"
proof -
  have "list_all (\<lambda>v. Option.bind v opt_u32 = None)
      [None, Some JNull, Some (JStr []), Some (JStr '' ''), Some (JStr ''lots''), Some (JInt (-1)), Some (JBool True)]"
    by code_simp
  then have "list_all (\<lambda>v. lenient_u32_default dflt v = dflt)
      [None, Some JNull, Some (JStr []), Some (JStr '' ''), Some (JStr ''lots''), Some (JInt (-1)), Some (JBool True)]"
    by (simp add: lenient_u32_default_def)
  moreover have "opt_u32 (JStr (show_nat n)) = opt_u32 (JInt (int n))" by (simp only: opt_u32_def opt_u64_show)
  moreover have "lenient_u32_default dflt (Some (JInt (int n))) = (if n < 2 ^ 32 then n else dflt)"
    by (simp add: lenient_u32_default_def opt_u32_def)
  ultimately show ?thesis by (simp add: lenient_u32_default_def capped_message_limit_def MAX_MESSAGE_LIMIT_def)
qed

section \<open>Pauses\<close>

lemma concat_chars_of: "concat (chars_of s) = s"
  by (induction s rule: chars_of.induct) simp_all

lemma pause_chars_subseq: "subseq (concat cs) (pause_chars alnum cs)"
proof (induction cs)
  case (Cons c cs)
  then have "subseq (concat cs) (p @ pause_chars alnum cs)" for p by (rule list_emb_append2)
  then show ?case by (simp add: list_emb_append_mono)
qed simp

lemma pause_chars_marked: "pause_chars alnum cs = concat cs \<or> contains_str (pause_chars alnum cs) ''...''"
proof (induction cs)
  case (Cons c cs)
  let ?p = "c \<in> set [''.'', ''?'', ''!'']
            \<and> (case cs of next # after # _ \<Rightarrow> next \<in> set ws_seqs \<and> alnum after | _ \<Rightarrow> False)"
  show ?case
  proof (cases ?p)
    case True
    then have "pause_chars alnum (c # cs) = (c @ '' '') @ ''...'' @ pause_chars alnum cs" by simp
    then show ?thesis by (metis sublist_appendI)
  next
    case False
    then have "pause_chars alnum (c # cs) = c @ pause_chars alnum cs" by (simp only: pause_chars.simps if_False append_Nil)
    with Cons show ?thesis by (auto simp: sublist_append)
  qed
qed simp

text \<open>The pauses only add to the text, and adding them twice is adding them once.\<close>

theorem inject_pauses_spec:
  "subseq input (inject_pauses alnum input)
   \<and> inject_pauses alnum (inject_pauses alnum input) = inject_pauses alnum input"
proof
  show "subseq input (inject_pauses alnum input)"
    using pause_chars_subseq [of "chars_of input" alnum] by (simp add: inject_pauses_def concat_chars_of)
  show "inject_pauses alnum (inject_pauses alnum input) = inject_pauses alnum input"
    using pause_chars_marked [of alnum "chars_of input"] by (auto simp: inject_pauses_def concat_chars_of)
qed

end
