(* ===== verification/VoiceAudio.thy ===== *)
theory VoiceAudio
  imports ToolInputs
begin

text \<open>
  The audio side of \<open>src/mcp.rs\<close>: \<open>parse_wav_mono_16bit\<close>,
  \<open>compute_waveform\<close>, the two Opus header packets and \<open>transcode_wav_to_ogg_opus\<close>.
  A byte string is a list of characters, one byte each; a sample is a 16-bit word. Where the source
  indexes or slices, the model has \<open>None\<close> for the panic of an index out of range. The Opus
  encoder and the Ogg writer are arguments.
\<close>

section \<open>Bytes\<close>

definition byte_at :: "rstr \<Rightarrow> nat \<Rightarrow> nat option" where
  "byte_at bs i = (if i < length bs then Some (byte_of (bs ! i)) else None)"

definition le_u16 :: "rstr \<Rightarrow> nat \<Rightarrow> nat option" where
  "le_u16 bs i = Option.bind (byte_at bs i) (\<lambda>a. map_option (\<lambda>b. a + 256 * b) (byte_at bs (i + 1)))"

definition le_u32 :: "rstr \<Rightarrow> nat \<Rightarrow> nat option" where
  "le_u32 bs i = Option.bind (le_u16 bs i) (\<lambda>a. map_option (\<lambda>b. a + 65536 * b) (le_u16 bs (i + 2)))"

definition byte_slice :: "rstr \<Rightarrow> nat \<Rightarrow> nat \<Rightarrow> rstr option" where
  "byte_slice bs a b = (if a \<le> b \<and> b \<le> length bs then Some (take (b - a) (drop a bs)) else None)"

text \<open>\<open>to_le_bytes\<close> of a value of \<open>k\<close> bytes.\<close>

fun le_bytes :: "nat \<Rightarrow> nat \<Rightarrow> rstr" where
  "le_bytes 0 n = []"
| "le_bytes (Suc k) n = char_of (n mod 256) # le_bytes k (n div 256)"

section \<open>WAV\<close>

record WavSamples =
  ws_rate :: nat
  ws_samples :: "16 word list"

record WavFormat =
  wf_rate :: nat
  wf_channels :: nat
  wf_bits :: nat
  wf_audio_format :: nat

fun pcm_samples :: "rstr \<Rightarrow> 16 word list" where
  "pcm_samples (a # b # bs) = of_nat (byte_of a + 256 * byte_of b) # pcm_samples bs"
| "pcm_samples _ = []"

definition read_fmt :: "rstr \<Rightarrow> nat \<Rightarrow> WavFormat option" where
  "read_fmt bs start =
     Option.bind (le_u16 bs start) (\<lambda>audio_format.
     Option.bind (le_u16 bs (start + 2)) (\<lambda>channels.
     Option.bind (le_u32 bs (start + 4)) (\<lambda>rate.
     Option.bind (le_u16 bs (start + 14)) (\<lambda>bits.
     Some \<lparr>wf_rate = rate, wf_channels = channels, wf_bits = bits, wf_audio_format = audio_format\<rparr>))))"

definition read_data :: "rstr \<Rightarrow> nat \<Rightarrow> nat \<Rightarrow> WavFormat \<Rightarrow> WavSamples option option" where
  "read_data bs start sz f =
     (if wf_audio_format f \<noteq> 1 \<or> wf_channels f \<noteq> 1 \<or> wf_bits f \<noteq> 16 then Some None
      else if wf_rate f = 0 then Some None
      else Option.bind (byte_slice bs start (start + sz div 2 * 2))
        (\<lambda>pcm. Some (Some \<lparr>ws_rate = wf_rate f, ws_samples = pcm_samples pcm\<rparr>)))"

text \<open>
  The loop over the chunks. The outer option is the panic, the inner one the result: a chunk that
  does not fit the input, a short format chunk or an unsupported format give no samples.
\<close>

function wav_chunks :: "rstr \<Rightarrow> nat \<Rightarrow> WavFormat \<Rightarrow> WavSamples option option" where
  "wav_chunks bs pos f =
     (if length bs < pos + 8 then Some None
      else case byte_slice bs pos (pos + 4) of
        None \<Rightarrow> None
      | Some ident \<Rightarrow> (case le_u32 bs (pos + 4) of
          None \<Rightarrow> None
        | Some sz \<Rightarrow>
            if 2 ^ 64 \<le> pos + 8 + sz then Some None
            else if length bs < pos + 8 + sz then Some None
            else if ident = ''fmt '' then
              (if sz < 16 then Some None
               else case read_fmt bs (pos + 8) of
                 None \<Rightarrow> None
               | Some g \<Rightarrow> wav_chunks bs (pos + 8 + sz + sz mod 2) g)
            else if ident = ''data'' then read_data bs (pos + 8) sz f
            else wav_chunks bs (pos + 8 + sz + sz mod 2) f))"
  by pat_completeness auto
termination
  by (relation "measure (\<lambda>(bs, pos, f). Suc (length bs) - pos)") auto

declare wav_chunks.simps [simp del]

definition parse_wav_mono_16bit :: "rstr \<Rightarrow> WavSamples option option" where
  "parse_wav_mono_16bit bs =
     (if length bs < 44 then Some None
      else if byte_slice bs 0 4 = None \<or> byte_slice bs 8 12 = None then None
      else if byte_slice bs 0 4 \<noteq> Some ''RIFF'' \<or> byte_slice bs 8 12 \<noteq> Some ''WAVE'' then Some None
      else wav_chunks bs 12 \<lparr>wf_rate = 0, wf_channels = 0, wf_bits = 0, wf_audio_format = 0\<rparr>)"

section \<open>The waveform\<close>

definition unsigned_abs :: "16 word \<Rightarrow> nat" where
  "unsigned_abs s = nat \<bar>sint s\<bar>"

definition bucket_lo :: "nat \<Rightarrow> nat \<Rightarrow> nat \<Rightarrow> nat" where
  "bucket_lo len n i = i * len div n"

definition bucket_hi :: "nat \<Rightarrow> nat \<Rightarrow> nat \<Rightarrow> nat" where
  "bucket_hi len n i = min (max ((i + 1) * len div n) (bucket_lo len n i + 1)) len"

text \<open>The slice panics when its bounds are out of order or range, the clamp when its bounds are.\<close>

definition bucket_peak :: "16 word list \<Rightarrow> nat \<Rightarrow> nat \<Rightarrow> nat option" where
  "bucket_peak samples n i =
     (let lo = bucket_lo (length samples) n i; hi = bucket_hi (length samples) n i in
      if length samples < lo + 1 \<or> hi < lo \<or> length samples < hi then None
      else Some (fold max (map unsigned_abs (take (hi - lo) (drop lo samples))) 0))"

definition scale_peak :: "nat \<Rightarrow> nat" where
  "scale_peak peak = min (peak * 1024 div 32768) 1024"

fun all_some :: "'a option list \<Rightarrow> 'a list option" where
  "all_some [] = Some []"
| "all_some (x # xs) = (case x of None \<Rightarrow> None | Some a \<Rightarrow> map_option (Cons a) (all_some xs))"

definition compute_waveform :: "16 word list \<Rightarrow> nat \<Rightarrow> nat list option" where
  "compute_waveform samples bucket_count =
     (if samples = [] \<or> bucket_count = 0 then Some []
      else all_some (map (\<lambda>i. map_option scale_peak (bucket_peak samples bucket_count i)) [0..<bucket_count]))"

section \<open>Ogg Opus\<close>

definition build_opus_head :: "nat \<Rightarrow> nat \<Rightarrow> rstr" where
  "build_opus_head rate pre_skip =
     ''OpusHead'' @ [char_of (1::nat)] @ [char_of (1::nat)] @ le_bytes 2 pre_skip @ le_bytes 4 rate
     @ le_bytes 2 0 @ [char_of (0::nat)]"

definition build_opus_tags :: rstr where
  "build_opus_tags = ''OpusTags'' @ le_bytes 4 (length ''matrix-mcp'') @ ''matrix-mcp'' @ le_bytes 4 0"

datatype PacketEnd = EndPage | EndStream | NormalPacket

record Packet =
  pk_data :: rstr
  pk_end :: PacketEnd
  pk_granule :: nat

text \<open>The encoder, whose state is \<open>'e\<close>, and the writer, which may refuse a packet after those
  already written.\<close>

record 'e Codec =
  oc_new :: "nat \<Rightarrow> rstr + 'e"
  oc_set_bitrate :: "'e \<Rightarrow> nat \<Rightarrow> rstr + 'e"
  oc_lookahead :: "'e \<Rightarrow> rstr + int"
  oc_encode :: "'e \<Rightarrow> 16 word list \<Rightarrow> rstr + rstr \<times> 'e"
  oc_refuses :: "Packet list \<Rightarrow> Packet \<Rightarrow> rstr option"
  oc_bytes :: "Packet list \<Rightarrow> rstr"

definition GRANULES_PER_FRAME :: nat where "GRANULES_PER_FRAME = 960"
definition WAVEFORM_BUCKETS :: nat where "WAVEFORM_BUCKETS = 40"

function chunks_of :: "nat \<Rightarrow> 'a list \<Rightarrow> 'a list list" where
  "chunks_of n xs = (if n = 0 \<or> xs = [] then [] else take n xs # chunks_of n (drop n xs))"
  by pat_completeness auto
termination
  by (relation "measure (\<lambda>(n, xs). length xs)") auto

declare chunks_of.simps [simp del]

definition write_packet :: "'e Codec \<Rightarrow> rstr \<Rightarrow> Packet list \<Rightarrow> Packet \<Rightarrow> ErrorData + Packet list" where
  "write_packet C label ps p = (case oc_refuses C ps p of
      None \<Rightarrow> Inr (ps @ [p])
    | Some e \<Rightarrow> Inl (Internal_error (label @ '': '' @ e)))"

definition pad_frame :: "nat \<Rightarrow> 16 word list \<Rightarrow> 16 word list" where
  "pad_frame n chunk = chunk @ replicate (n - length chunk) 0"

fun encode_frames ::
  "'e Codec \<Rightarrow> nat \<Rightarrow> 'e \<Rightarrow> nat \<Rightarrow> 16 word list list \<Rightarrow> Packet list \<Rightarrow> ErrorData + Packet list" where
  "encode_frames C n enc granule [] ps = Inr ps"
| "encode_frames C n enc granule (chunk # rest) ps = (case oc_encode C enc (pad_frame n chunk) of
      Inl e \<Rightarrow> Inl (Internal_error (''opus encode: '' @ e))
    | Inr (packet, enc) \<Rightarrow>
        (case write_packet C ''ogg audio page'' ps
            \<lparr>pk_data = packet, pk_end = (if rest = [] then EndStream else NormalPacket),
             pk_granule = granule + GRANULES_PER_FRAME\<rparr> of
          Inl e \<Rightarrow> Inl e
        | Inr ps \<Rightarrow> encode_frames C n enc (granule + GRANULES_PER_FRAME) rest ps))"

definition pre_skip_of :: "int \<Rightarrow> nat \<Rightarrow> nat" where
  "pre_skip_of lookahead rate =
     (let n = nat (max lookahead 0) * 48000 div rate in if n < 2 ^ 16 then n else 312)"

definition encode_stream ::
  "'e Codec \<Rightarrow> WavSamples \<Rightarrow> 'e \<Rightarrow> nat \<Rightarrow> ErrorData + Packet list" where
  "encode_stream C pcm enc pre_skip =
     (case write_packet C ''ogg head page'' []
         \<lparr>pk_data = build_opus_head (ws_rate pcm) pre_skip, pk_end = EndPage, pk_granule = 0\<rparr> of
        Inl e \<Rightarrow> Inl e
      | Inr ps \<Rightarrow> (case write_packet C ''ogg tags page'' ps
            \<lparr>pk_data = build_opus_tags, pk_end = EndPage, pk_granule = 0\<rparr> of
          Inl e \<Rightarrow> Inl e
        | Inr ps \<Rightarrow> encode_frames C (ws_rate pcm div 50) enc pre_skip
             (chunks_of (ws_rate pcm div 50) (ws_samples pcm)) ps))"

text \<open>The duration is in microseconds. \<open>None\<close> is a panic.\<close>

definition transcode_wav_to_ogg_opus ::
  "'e Codec \<Rightarrow> rstr \<Rightarrow> (ErrorData + Packet list \<times> nat \<times> nat list) option" where
  "transcode_wav_to_ogg_opus C wav = (case parse_wav_mono_16bit wav of
      None \<Rightarrow> None
    | Some None \<Rightarrow> Some (Inl (Internal_error ''TTS response must be mono 16-bit PCM WAV (Chatterbox default)''))
    | Some (Some pcm) \<Rightarrow>
        if ws_rate pcm \<notin> set [8000, 12000, 16000, 24000, 48000]
        then Some (Inl (Internal_error (''TTS sample rate '' @ show_nat (ws_rate pcm) @ '' Hz is not one Opus supports natively'')))
        else if ws_samples pcm = [] then Some (Inl (Internal_error ''TTS response had no audio samples''))
        else (case compute_waveform (ws_samples pcm) WAVEFORM_BUCKETS of
            None \<Rightarrow> None
          | Some waveform \<Rightarrow> Some (case oc_new C (ws_rate pcm) of
              Inl e \<Rightarrow> Inl (Internal_error (''opus encoder init: '' @ e))
            | Inr enc \<Rightarrow> (case oc_set_bitrate C enc 24000 of
                Inl e \<Rightarrow> Inl (Internal_error (''opus set_bitrate: '' @ e))
              | Inr enc \<Rightarrow> (case oc_lookahead C enc of
                  Inl e \<Rightarrow> Inl (Internal_error (''opus get_lookahead: '' @ e))
                | Inr lookahead \<Rightarrow> (case encode_stream C pcm enc (pre_skip_of lookahead (ws_rate pcm)) of
                    Inl e \<Rightarrow> Inl e
                  | Inr ps \<Rightarrow> Inr (ps, length (ws_samples pcm) * 1000000 div ws_rate pcm, waveform)))))))"

section \<open>The parser reads in range\<close>

lemma byte_at_ok: "i < length bs \<Longrightarrow> byte_at bs i \<noteq> None"
  by (simp add: byte_at_def)

lemma le_u16_ok: "i + 2 \<le> length bs \<Longrightarrow> \<exists>n. le_u16 bs i = Some n"
  by (simp add: le_u16_def byte_at_def)

lemma le_u32_ok: "i + 4 \<le> length bs \<Longrightarrow> \<exists>n. le_u32 bs i = Some n"
  using le_u16_ok [of i bs] le_u16_ok [of "i + 2" bs] by (auto simp: le_u32_def)

lemma read_fmt_ok: "i + 16 \<le> length bs \<Longrightarrow> \<exists>f. read_fmt bs i = Some f"
  using le_u16_ok [of i bs] le_u16_ok [of "i + 2" bs] le_u32_ok [of "i + 4" bs] le_u16_ok [of "i + 14" bs]
  by (auto simp: read_fmt_def)

lemma read_data_ok: "i + sz \<le> length bs \<Longrightarrow> read_data bs i sz f \<noteq> None"
proof -
  assume "i + sz \<le> length bs"
  moreover have "sz div 2 * 2 \<le> sz" by simp
  ultimately have "i + sz div 2 * 2 \<le> length bs" by linarith
  then show ?thesis by (simp add: read_data_def byte_slice_def)
qed

lemma wav_chunks_in_range: "wav_chunks bs pos f \<noteq> None"
proof (induction bs pos f rule: wav_chunks.induct)
  case (1 bs pos f)
  show ?case
  proof (cases "length bs < pos + 8")
    case False
    then obtain w sz where w: "byte_slice bs pos (pos + 4) = Some w" "le_u32 bs (pos + 4) = Some sz"
      using le_u32_ok [of "pos + 4" bs] by (auto simp: byte_slice_def)
    show ?thesis
    proof (cases "2 ^ 64 \<le> pos + 8 + sz \<or> length bs < pos + 8 + sz")
      case True
      with w show ?thesis by (auto simp: wav_chunks.simps [of bs pos f])
    next
      case fits: False
      show ?thesis
      proof (cases "w = ''fmt '' \<and> 16 \<le> sz")
        case True
        with fits obtain g where "read_fmt bs (pos + 8) = Some g" using read_fmt_ok [of "pos + 8" bs] by auto
        with True w fits False 1(1) [OF False w] show ?thesis by (simp add: wav_chunks.simps [of bs pos f])
      next
        case other: False
        with w fits False 1(2) [OF False w] read_data_ok [of "pos + 8" sz bs f] show ?thesis
          by (auto simp: wav_chunks.simps [of bs pos f])
      qed
    qed
  qed (simp add: wav_chunks.simps)
qed

lemma parse_wav_in_range: "parse_wav_mono_16bit bs \<noteq> None"
  using wav_chunks_in_range by (simp add: parse_wav_mono_16bit_def byte_slice_def)

section \<open>A file written is a file read\<close>

definition sample_bytes :: "16 word list \<Rightarrow> rstr" where
  "sample_bytes samples = concat (map (\<lambda>s. le_bytes 2 (unat s)) samples)"

text \<open>A canonical file: a format chunk of 16 bytes, a data chunk, and whatever follows.\<close>

definition wav_file :: "nat \<Rightarrow> 16 word list \<Rightarrow> rstr \<Rightarrow> rstr" where
  "wav_file rate samples rest =
     ''RIFF'' @ le_bytes 4 (36 + 2 * length samples) @ ''WAVE''
     @ ''fmt '' @ le_bytes 4 16 @ le_bytes 2 1 @ le_bytes 2 1 @ le_bytes 4 rate @ le_bytes 4 (2 * rate)
     @ le_bytes 2 2 @ le_bytes 2 16
     @ ''data'' @ le_bytes 4 (2 * length samples) @ sample_bytes samples @ rest"

lemma length_le_bytes [simp]: "length (le_bytes k n) = k"
  by (induction k arbitrary: n) simp_all

lemma nth_le_bytes: "i < k \<Longrightarrow> le_bytes k n ! i = char_of (n div 256 ^ i mod 256)"
  by (induction k arbitrary: n i) (auto simp: nth_Cons div_mult2_eq split: nat.splits)

lemma byte_at_written:
  "i < k \<Longrightarrow> byte_at (a @ le_bytes k n @ b) (length a + i) = Some (n div 256 ^ i mod 256)"
  by (simp add: byte_at_def nth_append nth_le_bytes of_char_of)

lemma base256_2: "n mod 256 + 256 * (n div 256 mod 256) = n mod (65536::nat)"
  using mod_mult2_eq [of n 256 256] by simp

lemma le_u16_written: "k = 2 + d \<Longrightarrow> le_u16 (a @ le_bytes k n @ b) (length a) = Some (n mod 65536)"
  using byte_at_written [of 0 k a n b] byte_at_written [of 1 k a n b] base256_2 [of n]
  by (simp add: le_u16_def)

lemma le_u32_written: "n < 2 ^ 32 \<Longrightarrow> le_u32 (a @ le_bytes 4 n @ b) (length a) = Some n"
proof -
  assume n: "n < 2 ^ 32"
  have "le_u16 (a @ le_bytes 4 n @ b) (length a + 2) = Some (n div 65536 mod 65536)"
    using byte_at_written [of 2 4 a n b] byte_at_written [of "Suc (Suc (Suc 0))" 4 a n b] base256_2 [of "n div 65536"]
    by (simp add: le_u16_def div_mult2_eq [symmetric])
  moreover have "n div 65536 mod 65536 = n div 65536" using n by (simp add: div_less_iff_less_mult)
  ultimately show ?thesis using le_u16_written [of 4 2 a n b] by (simp add: le_u32_def)
qed

lemma pcm_sample_bytes: "pcm_samples (sample_bytes samples) = samples"
proof (induction samples)
  case (Cons s samples)
  have "unat s < 2 ^ LENGTH(16)" by (rule unsigned_less)
  then have "unat s < 65536" by simp
  then have "unat s div 256 < 256" by (simp add: div_less_iff_less_mult)
  then have "of_nat (unat s mod 256 + 256 * (unat s div 256 mod 256)) = s" by simp
  with Cons show ?case by (simp add: sample_bytes_def numeral_2_eq_2 of_char_of)
qed (simp add: sample_bytes_def)

lemma length_sample_bytes: "length (sample_bytes samples) = 2 * length samples"
  by (induction samples) (simp_all add: sample_bytes_def)

lemma byte_slice_written: "byte_slice (a @ w @ b) (length a) (length a + length w) = Some w"
  by (simp add: byte_slice_def)

text \<open>The parser on the parts of a canonical file.\<close>

lemma read_data_written:
  assumes "wf_audio_format f = 1" and "wf_channels f = 1" and "wf_bits f = 16" and "0 < wf_rate f"
  shows "read_data (a @ sample_bytes samples @ b) (length a) (2 * length samples) f
    = Some (Some \<lparr>ws_rate = wf_rate f, ws_samples = samples\<rparr>)"
  using assms byte_slice_written [of a "sample_bytes samples" b]
  by (simp add: read_data_def pcm_sample_bytes length_sample_bytes mult.commute)

definition fmt_body :: "nat \<Rightarrow> rstr" where
  "fmt_body rate = le_bytes 2 1 @ le_bytes 2 1 @ le_bytes 4 rate @ le_bytes 4 (2 * rate) @ le_bytes 2 2 @ le_bytes 2 16"

lemma read_fmt_written:
  assumes "rate < 2 ^ 32"
  shows "read_fmt (a @ fmt_body rate @ b) (length a)
    = Some \<lparr>wf_rate = rate, wf_channels = 1, wf_bits = 16, wf_audio_format = 1\<rparr>"
proof -
  have "le_u16 (a @ fmt_body rate @ b) (length a) = Some 1" "le_u16 (a @ fmt_body rate @ b) (length a + 2) = Some 1"
    "le_u32 (a @ fmt_body rate @ b) (length a + 4) = Some rate" "le_u16 (a @ fmt_body rate @ b) (length a + 14) = Some 16"
    using le_u16_written [of 2 0 a 1 "le_bytes 2 1 @ le_bytes 4 rate @ le_bytes 4 (2 * rate) @ le_bytes 2 2 @ le_bytes 2 16 @ b"]
      le_u16_written [of 2 0 "a @ le_bytes 2 1" 1 "le_bytes 4 rate @ le_bytes 4 (2 * rate) @ le_bytes 2 2 @ le_bytes 2 16 @ b"]
      le_u32_written [of rate "a @ le_bytes 2 1 @ le_bytes 2 1" "le_bytes 4 (2 * rate) @ le_bytes 2 2 @ le_bytes 2 16 @ b"]
      le_u16_written [of 2 0 "a @ le_bytes 2 1 @ le_bytes 2 1 @ le_bytes 4 rate @ le_bytes 4 (2 * rate) @ le_bytes 2 2" 16 b]
      assms
    by (simp_all add: fmt_body_def)
  then show ?thesis by (simp add: read_fmt_def)
qed

text \<open>C27: Parsing a WAV file gives back its rate and its samples: for the canonical layout of a mono 16-bit file, any
  sample rate of 31 bits, fewer than 2^30 samples, and whatever follows the samples in the file.\<close>

theorem wav_roundtrip:
  assumes "0 < rate" and "rate < 2 ^ 31" and "length samples < 2 ^ 30"
  shows "parse_wav_mono_16bit (wav_file rate samples rest) = Some (Some \<lparr>ws_rate = rate, ws_samples = samples\<rparr>)"
proof -
  define pcm where "pcm = sample_bytes samples"
  define n where "n = 2 * length samples"
  define head where "head = ''RIFF'' @ le_bytes 4 (36 + n) @ ''WAVE''"
  define fmt where "fmt = fmt_body rate"
  have n: "n < 2 ^ 32" using assms(3) by (simp add: n_def)
  define w where "w = wav_file rate samples rest"
  have w: "w = head @ ''fmt '' @ le_bytes 4 16 @ fmt @ ''data'' @ le_bytes 4 n @ pcm @ rest"
    by (simp add: w_def wav_file_def head_def fmt_def fmt_body_def n_def pcm_def)
  have len: "length head = 12" "length fmt = 16" "length pcm = n" 
    by (simp_all add: head_def fmt_def fmt_body_def pcm_def n_def length_sample_bytes)
  define f where "f = \<lparr>wf_rate = rate, wf_channels = 1, wf_bits = 16, wf_audio_format = 1\<rparr>"
  have "byte_slice w 12 16 = Some ''fmt ''" "le_u32 w 16 = Some 16"
    using byte_slice_written [of head "''fmt ''" "le_bytes 4 16 @ fmt @ ''data'' @ le_bytes 4 n @ pcm @ rest"]
      le_u32_written [of 16 "head @ ''fmt ''" "fmt @ ''data'' @ le_bytes 4 n @ pcm @ rest"]
    by (simp_all add: w len)
  moreover have "read_fmt w 20 = Some f"
    using read_fmt_written [of rate "head @ ''fmt '' @ le_bytes 4 16" "''data'' @ le_bytes 4 n @ pcm @ rest"] assms(2)
    by (simp add: w len f_def fmt_def)
  ultimately have one: "wav_chunks w 12 f0 = wav_chunks w 36 f" for f0
    by (subst wav_chunks.simps) (simp add: w len)
  have "byte_slice w 36 40 = Some ''data''" "le_u32 w 40 = Some n"
    using byte_slice_written [of "head @ ''fmt '' @ le_bytes 4 16 @ fmt" "''data''" "le_bytes 4 n @ pcm @ rest"]
      le_u32_written [of n "head @ ''fmt '' @ le_bytes 4 16 @ fmt @ ''data''" "pcm @ rest"] n
    by (simp_all add: w len)
  moreover have "read_data w 44 n f = Some (Some \<lparr>ws_rate = rate, ws_samples = samples\<rparr>)"
    using read_data_written [of f "head @ ''fmt '' @ le_bytes 4 16 @ fmt @ ''data'' @ le_bytes 4 n" samples rest] assms(1)
    by (simp add: w len f_def pcm_def n_def)
  ultimately have "wav_chunks w 36 f = Some (Some \<lparr>ws_rate = rate, ws_samples = samples\<rparr>)"
    using n by (subst wav_chunks.simps) (simp add: w len)
  moreover have "byte_slice w 0 4 = Some ''RIFF''" by (simp add: byte_slice_def w head_def)
  moreover have "byte_slice w 8 12 = Some ''WAVE''" by (simp add: byte_slice_def w head_def)
  ultimately show ?thesis
    using one by (simp add: w_def [symmetric] parse_wav_mono_16bit_def) (simp add: w len)
qed

theorem wav_roundtrip_witness:
  "parse_wav_mono_16bit (wav_file 24000 [0, 1, - 1] ''tail'') = Some (Some \<lparr>ws_rate = 24000, ws_samples = [0, 1, - 1]\<rparr>)"
  by (rule wav_roundtrip) simp_all

section \<open>The waveform of a clip\<close>

definition peak :: "16 word list \<Rightarrow> nat" where
  "peak samples = fold max (map unsigned_abs samples) 0"

lemma fold_max: "fold max xs (m::nat) = Max (set (m # xs))"
  using Max.set_eq_fold [of m xs] by simp

lemma peak_le: "peak samples \<le> m \<longleftrightarrow> (\<forall>s\<in>set samples. unsigned_abs s \<le> m)"
  by (simp add: peak_def fold_max del: fold_simps)

lemma peak_attained: "samples \<noteq> [] \<Longrightarrow> \<exists>s\<in>set samples. unsigned_abs s = peak samples"
proof -
  assume "samples \<noteq> []"
  have "peak samples \<in> set (0 # map unsigned_abs samples)" unfolding peak_def fold_max by (rule Max_in) simp_all
  moreover have "0 = peak samples \<Longrightarrow> \<forall>s\<in>set samples. unsigned_abs s = peak samples"
    using peak_le [of samples 0] by auto
  ultimately show ?thesis using \<open>samples \<noteq> []\<close> by (cases samples) auto
qed

lemma bucket_bounds:
  assumes "i < n" and "0 < len"
  shows "bucket_lo len n i < bucket_hi len n i" and "bucket_hi len n i \<le> len"
proof -
  have "bucket_lo len n i < len" using assms by (simp add: bucket_lo_def div_less_iff_less_mult)
  then show "bucket_lo len n i < bucket_hi len n i" by (simp add: bucket_hi_def)
qed (simp add: bucket_hi_def)

lemma bucket_peak_eq:
  assumes "i < n" and "samples \<noteq> []"
  shows "bucket_peak samples n i = Some (peak (take (bucket_hi (length samples) n i - bucket_lo (length samples) n i)
    (drop (bucket_lo (length samples) n i) samples)))"
  using bucket_bounds [of i n "length samples"] assms
  by (auto simp: bucket_peak_def Let_def peak_def)

text \<open>The buckets cover the clip.\<close>

lemma step_crossing: "f 0 \<le> (j::nat) \<Longrightarrow> j < f n \<Longrightarrow> \<exists>i<n. f i \<le> j \<and> j < f (Suc i)"
proof (induction n)
  case (Suc n)
  then show ?case by (cases "j < f n") (auto intro: less_SucI)
qed simp

lemma bucket_of_sample:
  assumes "j < len" and "0 < n"
  shows "\<exists>i<n. bucket_lo len n i \<le> j \<and> j < bucket_hi len n i"
proof -
  have "bucket_lo len n 0 \<le> j" "j < bucket_lo len n n" using assms by (simp_all add: bucket_lo_def)
  then obtain i where "i < n" "bucket_lo len n i \<le> j" "j < bucket_lo len n (Suc i)"
    using step_crossing [of "bucket_lo len n" j n] by blast
  then show ?thesis using assms(1) by (intro exI [of _ i]) (simp add: bucket_hi_def bucket_lo_def)
qed

lemma all_some_map: "list_all (\<lambda>x. f x = Some (g x)) xs \<Longrightarrow> all_some (map f xs) = Some (map g xs)"
  by (induction xs) simp_all

lemma scale_peak_mono: "a \<le> b \<Longrightarrow> scale_peak a \<le> scale_peak b"
  unfolding scale_peak_def by (meson div_le_mono min.mono mult_le_mono1 order_refl)

text \<open>A waveform is computed for every clip, without an index out of range: it has as many bars as
  were asked for, each at most 1024, and its tallest bar is the scaled peak of the whole clip.\<close>

theorem waveform_spec:
  "\<exists>bars. compute_waveform samples n = Some bars
    \<and> length bars = (if samples = [] then 0 else n) \<and> list_all (\<lambda>b. b \<le> 1024) bars
    \<and> (samples \<noteq> [] \<and> 0 < n \<longrightarrow> Max (set bars) = scale_peak (peak samples))"
proof (cases "samples = [] \<or> n = 0")
  case True
  then show ?thesis by (auto simp: compute_waveform_def)
next
  case False
  let ?part = "\<lambda>i. take (bucket_hi (length samples) n i - bucket_lo (length samples) n i)
    (drop (bucket_lo (length samples) n i) samples)"
  let ?bars = "map (\<lambda>i. scale_peak (peak (?part i))) [0..<n]"
  have "compute_waveform samples n = Some ?bars"
    using False by (simp add: compute_waveform_def) (rule all_some_map, simp add: list_all_iff bucket_peak_eq)
  moreover have "Max (set ?bars) = scale_peak (peak samples)"
  proof (rule Max_eqI)
    fix b assume "b \<in> set ?bars"
    then obtain i where b: "b = scale_peak (peak (?part i))" by auto
    have "set (?part i) \<subseteq> set samples" by (meson order_trans set_drop_subset set_take_subset)
    then have "peak (?part i) \<le> peak samples" using peak_le [of samples "peak samples"] by (auto simp: peak_le)
    then show "b \<le> scale_peak (peak samples)" unfolding b by (rule scale_peak_mono)
  next
    obtain j where j: "j < length samples" "unsigned_abs (samples ! j) = peak samples"
      using peak_attained [of samples] False by (metis in_set_conv_nth)
    obtain i where i: "i < n" "bucket_lo (length samples) n i \<le> j" "j < bucket_hi (length samples) n i"
      using bucket_of_sample [OF j(1), of n] False by auto
    have "?part i ! (j - bucket_lo (length samples) n i) = samples ! j"
      "j - bucket_lo (length samples) n i < length (?part i)"
      using i j(1) bucket_bounds(2) [of i n "length samples"] False by auto
    then have "samples ! j \<in> set (?part i)" by (metis nth_mem)
    then have "peak samples \<le> peak (?part i)" using j(2) peak_le [of "?part i" "peak (?part i)"] by auto
    moreover have "peak (?part i) \<le> peak samples"
      using peak_le [of samples "peak samples"] by (auto simp: peak_le dest!: in_set_takeD in_set_dropD)
    ultimately show "scale_peak (peak samples) \<in> set ?bars" using i(1) by (auto simp: image_iff intro!: bexI [of _ i])
  qed simp
  ultimately show ?thesis using False by (auto simp: list_all_iff scale_peak_def)
qed

section \<open>The stream\<close>

lemma chunks_of_length:
  "0 < n \<Longrightarrow> length xs \<le> length (chunks_of n xs) * n \<and> length (chunks_of n xs) * n < length xs + n"
proof (induction n xs rule: chunks_of.induct)
  case (1 n xs)
  show ?case
  proof (cases "xs = []")
    case True
    then show ?thesis using 1 by (simp add: chunks_of.simps [of n "[]"])
  next
    case False
    with 1 have "length xs - n \<le> length (chunks_of n (drop n xs)) * n
      \<and> length (chunks_of n (drop n xs)) * n < length xs - n + n" by simp
    with False 1(2) show ?thesis by (cases "n \<le> length xs") (auto simp: chunks_of.simps [of n xs])
  qed
qed

lemma encode_frames_spec:
  "encode_frames C n enc g chunks ps = Inr qs \<Longrightarrow> \<exists>audio. qs = ps @ audio
    \<and> map pk_granule audio = map (\<lambda>i. g + 960 * (i + 1)) [0..<length chunks]
    \<and> map pk_end audio = map (\<lambda>i. if i + 1 = length chunks then EndStream else NormalPacket) [0..<length chunks]"
proof (induction chunks arbitrary: enc g ps)
  case (Cons c cs)
  from Cons.prems obtain packet enc' where e: "oc_encode C enc (pad_frame n c) = Inr (packet, enc')"
    by (auto split: sum.splits prod.splits)
  define p where "p = \<lparr>pk_data = packet, pk_end = (if cs = [] then EndStream else NormalPacket), pk_granule = g + 960\<rparr>"
  then have p: "pk_granule p = g + 960" "pk_end p = (if cs = [] then EndStream else NormalPacket)" by simp_all
  have p: "pk_granule p = g + 960" "pk_end p = (if cs = [] then EndStream else NormalPacket)"
    "encode_frames C n enc' (g + 960) cs (ps @ [p]) = Inr qs"
    using Cons.prems e p
    by (auto simp: p_def [symmetric] write_packet_def GRANULES_PER_FRAME_def split: sum.splits option.splits)
  from Cons.IH [OF p(3)] obtain audio where a: "qs = (ps @ [p]) @ audio"
    "map pk_granule audio = map (\<lambda>i. g + 960 + 960 * (i + 1)) [0..<length cs]"
    "map pk_end audio = map (\<lambda>i. if i + 1 = length cs then EndStream else NormalPacket) [0..<length cs]" by blast
  have u: "[0..<Suc (length cs)] = 0 # map Suc [0..<length cs]" by (simp add: upt_conv_Cons map_Suc_upt del: upt_Suc)
  show ?case
    using a p(1,2) by (intro exI [of _ "p # audio"]) (simp add: u comp_def algebra_simps del: upt_Suc)
qed simp

text \<open>A stream of a clip: the two header packets and then one packet for each 20 ms of it, the last one
  padded; the granule position starts at the pre-skip and grows by 960 a packet, and exactly the last
  packet ends the stream.\<close>

definition opus_stream :: "WavSamples \<Rightarrow> nat \<Rightarrow> Packet list \<Rightarrow> bool" where
  "opus_stream pcm pre_skip ps \<longleftrightarrow>
     (let audio = drop 2 ps; k = length audio; n = ws_rate pcm div 50 in
        map pk_data (take 2 ps) = [build_opus_head (ws_rate pcm) pre_skip, build_opus_tags] \<and> audio \<noteq> []
        \<and> length (ws_samples pcm) \<le> k * n \<and> k * n < length (ws_samples pcm) + n
        \<and> map pk_granule audio = map (\<lambda>i. pre_skip + 960 * (i + 1)) [0..<k]
        \<and> map pk_end audio = map (\<lambda>i. if i + 1 = k then EndStream else NormalPacket) [0..<k])"

lemma encode_stream_spec:
  assumes "encode_stream C pcm enc k = Inr ps" and "0 < ws_rate pcm div 50" and "ws_samples pcm \<noteq> []"
  shows "opus_stream pcm k ps"
proof -
  define n where "n = ws_rate pcm div 50"
  define chunks where "chunks = chunks_of n (ws_samples pcm)"
  define h where "h = \<lparr>pk_data = build_opus_head (ws_rate pcm) k, pk_end = EndPage, pk_granule = 0\<rparr>"
  define t where "t = \<lparr>pk_data = build_opus_tags, pk_end = EndPage, pk_granule = 0\<rparr>"
  have ht: "pk_data h = build_opus_head (ws_rate pcm) k" "pk_data t = build_opus_tags"
    by (simp_all add: h_def t_def)
  have e: "encode_frames C n enc k chunks [h, t] = Inr ps"
    using assms(1) unfolding encode_stream_def n_def [symmetric] chunks_def [symmetric] h_def [symmetric] t_def [symmetric]
    by (auto simp: write_packet_def split: sum.splits option.splits)
  from encode_frames_spec [OF e] obtain audio where a: "ps = [h, t] @ audio"
    "map pk_granule audio = map (\<lambda>i. k + 960 * (i + 1)) [0..<length chunks]"
    "map pk_end audio = map (\<lambda>i. if i + 1 = length chunks then EndStream else NormalPacket) [0..<length chunks]" by blast
  have l: "length audio = length chunks" using arg_cong [OF a(2), of length] by simp
  have c: "length (ws_samples pcm) \<le> length audio * n" "length audio * n < length (ws_samples pcm) + n"
    using chunks_of_length [of n "ws_samples pcm"] assms(2) l by (simp_all add: chunks_def n_def)
  moreover have "audio \<noteq> []" using c(1) assms(3) by auto
  ultimately show ?thesis using a ht(1,2) l by (simp add: opus_stream_def Let_def n_def [symmetric])
qed

text \<open>Transcoding never reads out of range, and what it makes is an Opus stream of the clip, its duration,
  and a waveform of 40 bars of at most 1024.\<close>

theorem transcode_spec:
  "transcode_wav_to_ogg_opus C wav \<noteq> None
   \<and> (case transcode_wav_to_ogg_opus C wav of
        Some (Inr (ps, duration, bars)) \<Rightarrow> \<exists>pcm pre_skip. parse_wav_mono_16bit wav = Some (Some pcm)
          \<and> pre_skip < 2 ^ 16 \<and> opus_stream pcm pre_skip ps
          \<and> duration = length (ws_samples pcm) * 1000000 div ws_rate pcm
          \<and> length bars = 40 \<and> list_all (\<lambda>b. b \<le> 1024) bars
      | _ \<Rightarrow> True)"
proof
  have bars: "compute_waveform samples 40 \<noteq> None" for samples using waveform_spec [of samples 40] by auto
  show "transcode_wav_to_ogg_opus C wav \<noteq> None"
    using parse_wav_in_range [of wav] bars
    by (simp add: transcode_wav_to_ogg_opus_def WAVEFORM_BUCKETS_def del: not_None_eq split: option.splits)
  have "\<exists>pcm pre_skip. parse_wav_mono_16bit wav = Some (Some pcm)
          \<and> pre_skip < 2 ^ 16 \<and> opus_stream pcm pre_skip ps
          \<and> duration = length (ws_samples pcm) * 1000000 div ws_rate pcm
          \<and> length bars = 40 \<and> list_all (\<lambda>b. b \<le> 1024) bars"
    if r: "transcode_wav_to_ogg_opus C wav = Some (Inr (ps, duration, bars))" for ps duration bars
  proof -
    from r obtain pcm enc lookahead where p: "parse_wav_mono_16bit wav = Some (Some pcm)"
      "ws_rate pcm \<in> {8000, 12000, 16000, 24000, 48000}" "ws_samples pcm \<noteq> []"
      "compute_waveform (ws_samples pcm) 40 = Some bars"
      "encode_stream C pcm enc (pre_skip_of lookahead (ws_rate pcm)) = Inr ps"
      "duration = length (ws_samples pcm) * 1000000 div ws_rate pcm"
      by (auto simp: transcode_wav_to_ogg_opus_def WAVEFORM_BUCKETS_def
          split: option.splits sum.splits if_splits)
    have "opus_stream pcm (pre_skip_of lookahead (ws_rate pcm)) ps" using p(2,3,5) by (auto intro: encode_stream_spec)
    moreover have "pre_skip_of lookahead (ws_rate pcm) < 2 ^ 16" by (simp add: pre_skip_of_def Let_def)
    moreover have "length bars = 40" "list_all (\<lambda>b. b \<le> 1024) bars"
      using waveform_spec [of "ws_samples pcm" 40] p(3,4) by auto
    ultimately show ?thesis using p(1,6) by blast
  qed
  then show "case transcode_wav_to_ogg_opus C wav of
        Some (Inr (ps, duration, bars)) \<Rightarrow> \<exists>pcm pre_skip. parse_wav_mono_16bit wav = Some (Some pcm)
          \<and> pre_skip < 2 ^ 16 \<and> opus_stream pcm pre_skip ps
          \<and> duration = length (ws_samples pcm) * 1000000 div ws_rate pcm
          \<and> length bars = 40 \<and> list_all (\<lambda>b. b \<le> 1024) bars
      | _ \<Rightarrow> True" by (auto split: option.splits sum.splits)
qed

end
