(* ===== verification/MessageTools.thy ===== *)
theory MessageTools
  imports ToolCall ToolInputs
begin

text \<open>
  The handlers of \<open>src/mcp.rs\<close> that send, edit, forward, react to, redact and receipt
  messages, and the two that fan out. The content sent is the body given to
  \<open>RoomMessageEventContent::text_markdown\<close>.
\<close>

record SendTextMessageParams =
  st_room_id :: rstr
  st_body :: rstr
  st_reply_to :: "rstr option"

record MessageEditParams =
  ed_room_id :: rstr
  ed_event_id :: rstr
  ed_new_body :: rstr

record MessageForwardParams =
  fw_source :: rstr
  fw_event_id :: rstr
  fw_target :: rstr
  fw_prefix :: "rstr option"

record SendReactionParams =
  rc_room_id :: rstr
  rc_event_id :: rstr
  rc_key :: rstr

record RedactMessageParams =
  rd_room_id :: rstr
  rd_event_id :: rstr
  rd_reason :: "rstr option"

record MarkReadParams =
  mr_room_id :: rstr
  mr_event_id :: "rstr option"

record SendBulkParams =
  sb_room_ids :: "rstr list"
  sb_body :: rstr

record SendBroadcastParams =
  bc_body :: rstr
  bc_confirm :: bool
  bc_max_room_members :: "nat option"

record SendBulkOutcome =
  so_room_id :: rstr
  so_event_id :: "rstr option"
  so_error :: "rstr option"

section \<open>One message\<close>

definition reply_target :: "'b ToolEnv \<Rightarrow> rstr \<Rightarrow> rstr option \<Rightarrow> ('b, rstr option) tool" where
  "reply_target E room_id target = (case target of
      None \<Rightarrow> returnT None
    | Some t \<Rightarrow>
        bindT (parse_id (te_event_err E) t) (\<lambda>ev.
        bindT (askT ''fetch reply target'' (GetEvent room_id ev) (sd_event (te_sdk E))) (\<lambda>tle.
        case sd_original_sender (te_sdk E) tle of
          Inl _ \<Rightarrow> failT Invalid_params
        | Inr _ \<Rightarrow> returnT (Some ev))))"

definition send_text_message :: "'b ToolEnv \<Rightarrow> RequestContext \<Rightarrow> SendTextMessageParams \<Rightarrow> ('b, rstr) tool" where
  "send_text_message E ctx p = write_tool E ctx ''send_text_message'' (Some (st_room_id p))
     (bindT (rate_limit_check E ctx WriteCall) (\<lambda>_.
      bindT (liftT (validate_text_message_body (st_body p))) (\<lambda>_.
      bindT (client_for E ctx) (\<lambda>_.
      bindT (open_room E (st_room_id p)) (\<lambda>room.
      bindT (reply_target E (st_room_id p) (st_reply_to p)) (\<lambda>reply.
      doT E ''room.send'' (SendText (st_room_id p) (st_body p) reply)))))))"

definition message_edit :: "'b ToolEnv \<Rightarrow> RequestContext \<Rightarrow> MessageEditParams \<Rightarrow> ('b, rstr) tool" where
  "message_edit E ctx p = write_tool E ctx ''message_edit'' (Some (ed_room_id p))
     (bindT (rate_limit_check E ctx WriteCall) (\<lambda>_.
      bindT (liftT (validate_text_message_body (ed_new_body p))) (\<lambda>_.
      bindT (client_for E ctx) (\<lambda>_.
      bindT (open_room E (ed_room_id p)) (\<lambda>room.
      bindT (parse_id (te_event_err E) (ed_event_id p)) (\<lambda>ev.
      bindT (askT ''fetch edit target'' (GetEvent (ed_room_id p) ev) (sd_event (te_sdk E))) (\<lambda>tle.
      bindT (case sd_original_sender (te_sdk E) tle of
               Inl _ \<Rightarrow> failT Invalid_params | Inr sender \<Rightarrow> returnT sender) (\<lambda>sender.
      bindT (someT (sd_user_id (te_sdk E)) (Internal_error ''matrix client has no user_id'')) (\<lambda>caller.
      bindT (ensureT (sender = caller) Invalid_params) (\<lambda>_.
      doT E ''room.send'' (SendReplacement (ed_room_id p) ev (ed_new_body p))))))))))))"

fun content_body :: "AttachmentContent \<Rightarrow> rstr" where
  "content_body (MediaMessage _ _ _ _ b) = b"
| "content_body (OtherMessage _ b) = b"

definition forward_prefix :: "Room \<Rightarrow> MessageForwardParams \<Rightarrow> rstr" where
  "forward_prefix source p = (case fw_prefix p of
      Some s \<Rightarrow> s
    | None \<Rightarrow> ''Forwarded from ''
        @ (case rm_display_name source of None \<Rightarrow> fw_source p | Some n \<Rightarrow> n) @ '':'' @ NL @ NL)"

definition message_forward :: "'b ToolEnv \<Rightarrow> RequestContext \<Rightarrow> MessageForwardParams \<Rightarrow> ('b, rstr) tool" where
  "message_forward E ctx p = write_tool E ctx ''message_forward'' (Some (fw_target p))
     (bindT (rate_limit_check E ctx WriteCall) (\<lambda>_.
      bindT (client_for E ctx) (\<lambda>_.
      bindT (parse_id (te_room_err E) (fw_source p)) (\<lambda>source_id.
      bindT (parse_id (te_room_err E) (fw_target p)) (\<lambda>target_id.
      bindT (get_room E source_id) (\<lambda>source.
      bindT (get_room E target_id) (\<lambda>target.
      bindT (parse_id (te_event_err E) (fw_event_id p)) (\<lambda>ev.
      bindT (askT ''fetch forward source'' (GetEvent source_id ev) (sd_event (te_sdk E))) (\<lambda>tle.
      bindT (someT (Option.bind (tle_raw tle) (\<lambda>v. Option.bind (jget v ''content'')
               (sd_message_content (te_sdk E)))) Invalid_params) (\<lambda>content.
      let forwarded = forward_prefix source p @ content_body content in
      bindT (liftT (validate_text_message_body forwarded)) (\<lambda>_.
      doT E ''room.send'' (SendText target_id forwarded None))))))))))))"

definition send_reaction :: "'b ToolEnv \<Rightarrow> RequestContext \<Rightarrow> SendReactionParams \<Rightarrow> ('b, rstr) tool" where
  "send_reaction E ctx p = write_tool E ctx ''send_reaction'' (Some (rc_room_id p))
     (bindT (rate_limit_check E ctx WriteCall) (\<lambda>_.
      bindT (liftT (validate_reaction_key (rc_key p))) (\<lambda>_.
      bindT (client_for E ctx) (\<lambda>_.
      bindT (open_room E (rc_room_id p)) (\<lambda>room.
      bindT (parse_id (te_event_err E) (rc_event_id p)) (\<lambda>ev.
      doT E ''room.send reaction'' (SendReaction (rc_room_id p) ev (rc_key p))))))))"

definition redact_message :: "'b ToolEnv \<Rightarrow> RequestContext \<Rightarrow> RedactMessageParams \<Rightarrow> ('b, rstr) tool" where
  "redact_message E ctx p = write_tool E ctx ''redact_message'' (Some (rd_room_id p))
     (bindT (rate_limit_check E ctx WriteCall) (\<lambda>_.
      bindT (liftT (validate_redaction_reason (rd_reason p))) (\<lambda>_.
      bindT (client_for E ctx) (\<lambda>_.
      bindT (open_room E (rd_room_id p)) (\<lambda>room.
      bindT (parse_id (te_event_err E) (rd_event_id p)) (\<lambda>ev.
      doT E ''room.redact'' (RedactEvent (rd_room_id p) ev (rd_reason p))))))))"

text \<open>Without an event id the latest event of the room is receipted.\<close>

definition mark_read :: "'b ToolEnv \<Rightarrow> RequestContext \<Rightarrow> MarkReadParams \<Rightarrow> ('b, rstr \<times> rstr) tool" where
  "mark_read E ctx p = write_tool E ctx ''mark_read'' (Some (mr_room_id p))
     (bindT (rate_limit_check E ctx WriteCall) (\<lambda>_.
      bindT (client_for E ctx) (\<lambda>_.
      bindT (open_room E (mr_room_id p)) (\<lambda>room.
      bindT (case mr_event_id p of
               Some i \<Rightarrow> parse_id (te_event_err E) i
             | None \<Rightarrow> someT (le_event_id (rm_latest room)) Invalid_params) (\<lambda>ev.
      bindT (doT E ''send_single_receipt'' (SendReceipt (mr_room_id p) ev)) (\<lambda>_.
      returnT (rm_id room, ev)))))))"

section \<open>Many rooms\<close>

text \<open>The text of a failure is the outcome of its room, not an error of the call.\<close>

definition send_text_to_room :: "'b ToolEnv \<Rightarrow> rstr \<Rightarrow> rstr \<Rightarrow> ('b, rstr + rstr) tool" where
  "send_text_to_room E rid_str text = (case te_room_err E rid_str of
      Some e \<Rightarrow> returnT (Inl (''invalid room_id '' @ rid_str @ '': '' @ e))
    | None \<Rightarrow> bindT (seeT (\<lambda>h. sd_get_room (te_sdk E) h rid_str)) (\<lambda>room. case room of
          None \<Rightarrow> returnT (Inl (''not joined to '' @ rid_str))
        | Some _ \<Rightarrow> bindT (tryDoT E (SendText rid_str text None)) (\<lambda>r. returnT (case r of
              Inl e \<Rightarrow> Inl (''room.send: '' @ e)
            | Inr ev \<Rightarrow> Inr ev))))"

definition outcome_for :: "rstr \<Rightarrow> rstr + rstr \<Rightarrow> SendBulkOutcome" where
  "outcome_for rid r = (case r of
      Inr ev \<Rightarrow> \<lparr>so_room_id = rid, so_event_id = Some ev, so_error = None\<rparr>
    | Inl e \<Rightarrow> \<lparr>so_room_id = rid, so_event_id = None, so_error = Some e\<rparr>)"

text \<open>One room of a fan-out: a token of the caller's quota for every message.\<close>

definition charged_send ::
  "'b ToolEnv \<Rightarrow> RequestContext \<Rightarrow> rstr \<Rightarrow> rstr \<Rightarrow> ('b, SendBulkOutcome) tool" where
  "charged_send E ctx text rid =
     bindT (tryT (rate_limit_check E ctx WriteCall)) (\<lambda>verdict. case verdict of
       Inl _ \<Rightarrow> returnT (outcome_for rid (Inl ''rate_limited''))
     | Inr _ \<Rightarrow> bindT (send_text_to_room E rid text) (\<lambda>r. returnT (outcome_for rid r)))"

definition MAX_ROOMS_PER_CALL :: nat where "MAX_ROOMS_PER_CALL = 20"
definition MAX_ROOMS_TOTAL :: nat where "MAX_ROOMS_TOTAL = 50"

definition send_bulk :: "'b ToolEnv \<Rightarrow> RequestContext \<Rightarrow> SendBulkParams \<Rightarrow> ('b, SendBulkOutcome list) tool" where
  "send_bulk E ctx p = write_tool E ctx ''send_bulk'' None
     (bindT (rate_limit_check E ctx WriteCall) (\<lambda>_.
      bindT (liftT (validate_text_message_body (sb_body p))) (\<lambda>_.
      bindT (ensureT (sb_room_ids p \<noteq> []) Invalid_params) (\<lambda>_.
      bindT (ensureT (length (sb_room_ids p) \<le> MAX_ROOMS_PER_CALL) Invalid_params) (\<lambda>_.
      bindT (client_for E ctx) (\<lambda>_.
      forT (charged_send E ctx (sb_body p)) (sb_room_ids p)))))))"

definition broadcast_to ::
  "'b ToolEnv \<Rightarrow> RequestContext \<Rightarrow> rstr \<Rightarrow> nat \<Rightarrow> Room \<Rightarrow> ('b, SendBulkOutcome) tool" where
  "broadcast_to E ctx text max_members room =
     (if max_members < rm_joined room
      then returnT (outcome_for (rm_id room) (Inl (''skipped: '' @ show_nat (rm_joined room)
             @ '' joined members exceeds max_room_members '' @ show_nat max_members)))
      else charged_send E ctx text (rm_id room))"

definition send_broadcast ::
  "'b ToolEnv \<Rightarrow> RequestContext \<Rightarrow> SendBroadcastParams \<Rightarrow> ('b, SendBulkOutcome list) tool" where
  "send_broadcast E ctx p = write_tool E ctx ''send_broadcast'' None
     (bindT (rate_limit_check E ctx WriteCall) (\<lambda>_.
      bindT (liftT (validate_text_message_body (bc_body p))) (\<lambda>_.
      bindT (ensureT (bc_confirm p) Invalid_params) (\<lambda>_.
      let max_members = (case bc_max_room_members p of None \<Rightarrow> 10 | Some n \<Rightarrow> n) in
      bindT (client_for E ctx) (\<lambda>_.
      bindT (seeT (sd_joined_rooms (te_sdk E))) (\<lambda>joined.
      bindT (ensureT (length joined \<le> MAX_ROOMS_TOTAL) Invalid_params) (\<lambda>_.
      forT (broadcast_to E ctx (bc_body p) max_members) joined)))))))"

end
