(* ===== verification/RoomTools.thy ===== *)
theory RoomTools
  imports ToolCall ToolInputs
begin

text \<open>
  The handlers of \<open>src/mcp.rs\<close> that list, describe, create, join and leave rooms, manage
  invites, and change their name, topic, members, power levels and pins.
\<close>

section \<open>Listing and describing\<close>

record JoinedRoom =
  jr_room_id :: rstr
  jr_display_name :: "rstr option"
  jr_topic :: "rstr option"
  jr_encrypted :: bool

definition summarize_room :: "Room \<Rightarrow> JoinedRoom" where
  "summarize_room room = \<lparr>jr_room_id = rm_id room, jr_display_name = rm_display_name room,
     jr_topic = rm_topic room, jr_encrypted = rm_encrypted room\<rparr>"

definition list_joined_rooms :: "'b ToolEnv \<Rightarrow> RequestContext \<Rightarrow> ('b, JoinedRoom list) tool" where
  "list_joined_rooms E ctx = read_tool E ctx ''list_joined_rooms'' None (counted length)
     (bindT (rate_limit_check E ctx ReadCall) (\<lambda>_.
      bindT (client_for E ctx) (\<lambda>_.
      bindT (seeT (sd_joined_rooms (te_sdk E))) (\<lambda>rooms.
      returnT (map summarize_room rooms)))))"

record RoomInfoResult =
  ri_room_id :: rstr
  ri_display_name :: "rstr option"
  ri_name :: "rstr option"
  ri_topic :: "rstr option"
  ri_encrypted :: bool
  ri_joined_members_count :: nat
  ri_active_members_count :: nat
  ri_my_power_level :: "int option"
  ri_is_room_creator :: bool

text \<open>A power level that could not be read is reported as absent.\<close>

definition own_power :: "rstr \<Rightarrow> rstr + PowerLevels \<Rightarrow> int option \<times> bool" where
  "own_power me answer = (case answer of
      Inl _ \<Rightarrow> (None, False)
    | Inr pl \<Rightarrow> (case pl_for pl me of
        PlInt n \<Rightarrow> (Some n, False) | PlInfinite \<Rightarrow> (None, True) | PlOther \<Rightarrow> (None, False)))"

definition room_info :: "'b ToolEnv \<Rightarrow> RequestContext \<Rightarrow> rstr \<Rightarrow> ('b, RoomInfoResult) tool" where
  "room_info E ctx room_id = read_tool E ctx ''room_info'' (Some room_id) uncounted
     (bindT (rate_limit_check E ctx ReadCall) (\<lambda>_.
      bindT (client_for E ctx) (\<lambda>_.
      bindT (open_room E room_id) (\<lambda>room.
      bindT (require_joined room) (\<lambda>_.
      bindT (someT (sd_user_id (te_sdk E)) (Internal_error ''no user_id on client'')) (\<lambda>me.
      bindT (tryAskT (GetPowerLevels room_id) (sd_power_levels (te_sdk E))) (\<lambda>answer.
      let (level, creator) = own_power me answer in
      returnT \<lparr>ri_room_id = rm_id room, ri_display_name = rm_display_name room, ri_name = rm_name room,
        ri_topic = rm_topic room, ri_encrypted = rm_encrypted room, ri_joined_members_count = rm_joined room,
        ri_active_members_count = rm_active room, ri_my_power_level = level, ri_is_room_creator = creator\<rparr>)))))))"

record RoomMemberInfo =
  mi_mxid :: rstr
  mi_display_name :: "rstr option"
  mi_avatar_url :: "rstr option"
  mi_power_level :: int

fun member_level :: "PowerLevel \<Rightarrow> int" where
  "member_level (PlInt n) = n"
| "member_level PlInfinite = 2 ^ 63 - 1"
| "member_level PlOther = 0"

definition member_info :: "Member \<Rightarrow> RoomMemberInfo" where
  "member_info m = \<lparr>mi_mxid = mb_user m, mi_display_name = mb_display_name m, mi_avatar_url = mb_avatar m,
     mi_power_level = member_level (mb_power m)\<rparr>"

definition room_members ::
  "'b ToolEnv \<Rightarrow> RequestContext \<Rightarrow> rstr \<Rightarrow> nat \<Rightarrow> ('b, RoomMemberInfo list \<times> nat) tool" where
  "room_members E ctx room_id limit =
     read_tool E ctx ''room_members'' (Some room_id) (counted (\<lambda>r. length (fst r)))
     (bindT (rate_limit_check E ctx ReadCall) (\<lambda>_.
      bindT (client_for E ctx) (\<lambda>_.
      bindT (open_room E room_id) (\<lambda>room.
      bindT (liftT (validate_room_members_enumeration (rm_joined room))) (\<lambda>_.
      bindT (askT ''members_no_sync'' (GetMembers room_id) (sd_members (te_sdk E))) (\<lambda>members.
      returnT (map member_info (take (min limit MAX_MEMBER_LIMIT) members), length members)))))))"

text \<open>All members of a room must be asked for one at a time or through \<open>room_members\<close>.\<close>

record GetRoomStateParams =
  gs_room_id :: rstr
  gs_event_type :: rstr
  gs_state_key :: "rstr option"

definition get_room_state ::
  "'b ToolEnv \<Rightarrow> RequestContext \<Rightarrow> GetRoomStateParams \<Rightarrow> ('b, json list \<times> bool) tool" where
  "get_room_state E ctx p =
     read_tool E ctx ''get_room_state'' (Some (gs_room_id p)) (counted (\<lambda>r. length (fst r)))
     (bindT (rate_limit_check E ctx ReadCall) (\<lambda>_.
      bindT (client_for E ctx) (\<lambda>_.
      bindT (open_room E (gs_room_id p)) (\<lambda>room.
      bindT (ensureT (\<not> (gs_state_key p = None \<and> gs_event_type p = ''m.room.member'')) Invalid_params) (\<lambda>_.
      bindT (askT (case gs_state_key p of None \<Rightarrow> ''get_state_events'' | Some _ \<Rightarrow> ''get_state_events_for_keys'')
               (GetStateEvents (gs_room_id p) (gs_event_type p) (gs_state_key p)) (sd_state_events (te_sdk E))) (\<lambda>raws.
      returnT (take MAX_STATE_EVENTS raws, MAX_STATE_EVENTS < length raws)))))))"

record GetSpaceHierarchyParams =
  gh_room_id :: rstr
  gh_limit :: nat
  gh_max_depth :: nat
  gh_suggested_only :: bool

definition get_space_hierarchy ::
  "'b ToolEnv \<Rightarrow> RequestContext \<Rightarrow> GetSpaceHierarchyParams \<Rightarrow> ('b, HierarchyRoom list \<times> rstr option) tool" where
  "get_space_hierarchy E ctx p =
     read_tool E ctx ''get_space_hierarchy'' (Some (gh_room_id p)) (counted (\<lambda>r. length (fst r)))
     (bindT (rate_limit_check E ctx ReadCall) (\<lambda>_.
      bindT (client_for E ctx) (\<lambda>_.
      bindT (parse_id (te_room_err E) (gh_room_id p)) (\<lambda>room_id.
      askT ''get_hierarchy''
        (GetHierarchy room_id (min (gh_limit p) MAX_SPACE_HIERARCHY_LIMIT) (gh_max_depth p) (gh_suggested_only p))
        (sd_hierarchy (te_sdk E))))))"

section \<open>Power levels and members\<close>

definition admin_get_power_levels ::
  "'b ToolEnv \<Rightarrow> RequestContext \<Rightarrow> rstr \<Rightarrow> ('b, int \<times> (rstr \<times> int) list) tool" where
  "admin_get_power_levels E ctx room_id = read_tool E ctx ''admin_get_power_levels'' (Some room_id) uncounted
     (bindT (rate_limit_check E ctx ReadCall) (\<lambda>_.
      bindT (client_for E ctx) (\<lambda>_.
      bindT (open_room E room_id) (\<lambda>room.
      bindT (askT ''power_levels'' (GetPowerLevels room_id) (sd_power_levels (te_sdk E))) (\<lambda>pl.
      returnT (pl_users_default pl, pl_users pl))))))"

record AdminSetPowerLevelParams =
  sp_room_id :: rstr
  sp_user_id :: rstr
  sp_level :: int

text \<open>\<open>Int::try_from\<close>: 53 bits and a sign.\<close>

definition js_int :: "int \<Rightarrow> int option" where
  "js_int n = (if \<bar>n\<bar> < 2 ^ 53 then Some n else None)"

definition admin_set_power_level ::
  "'b ToolEnv \<Rightarrow> RequestContext \<Rightarrow> AdminSetPowerLevelParams \<Rightarrow> ('b, rstr \<times> int) tool" where
  "admin_set_power_level E ctx p = write_tool E ctx ''admin_set_power_level'' (Some (sp_room_id p))
     (bindT (rate_limit_check E ctx WriteCall) (\<lambda>_.
      bindT (client_for E ctx) (\<lambda>_.
      bindT (open_room E (sp_room_id p)) (\<lambda>room.
      bindT (parse_id (te_user_err E) (sp_user_id p)) (\<lambda>user.
      bindT (someT (js_int (sp_level p)) Invalid_params) (\<lambda>level.
      bindT (doT E ''update_power_levels'' (SetPowerLevel (sp_room_id p) user level)) (\<lambda>_.
      returnT (sp_user_id p, sp_level p))))))))"

datatype MembershipAction = Kick | Ban | Unban

fun membership_tool_name :: "MembershipAction \<Rightarrow> rstr" where
  "membership_tool_name Kick = ''room_kick''"
| "membership_tool_name Ban = ''room_ban''"
| "membership_tool_name Unban = ''room_unban''"

fun membership_request :: "MembershipAction \<Rightarrow> rstr \<Rightarrow> rstr \<Rightarrow> rstr option \<Rightarrow> SdkWrite" where
  "membership_request Kick = KickUser"
| "membership_request Ban = BanUser"
| "membership_request Unban = UnbanUser"

record RoomMembershipParams =
  rp_room_id :: rstr
  rp_user_id :: rstr
  rp_reason :: "rstr option"

definition membership_change ::
  "'b ToolEnv \<Rightarrow> RequestContext \<Rightarrow> RoomMembershipParams \<Rightarrow> MembershipAction \<Rightarrow> ('b, rstr \<times> rstr) tool" where
  "membership_change E ctx p action = write_tool E ctx (membership_tool_name action) (Some (rp_room_id p))
     (bindT (rate_limit_check E ctx WriteCall) (\<lambda>_.
      bindT (liftT (validate_redaction_reason (rp_reason p))) (\<lambda>_.
      bindT (client_for E ctx) (\<lambda>_.
      bindT (open_room E (rp_room_id p)) (\<lambda>room.
      bindT (parse_id (te_user_err E) (rp_user_id p)) (\<lambda>user.
      bindT (doT E (membership_tool_name action)
               (membership_request action (rp_room_id p) user (rp_reason p))) (\<lambda>_.
      returnT (rp_room_id p, rp_user_id p))))))))"

section \<open>Pins, name and topic\<close>

record RoomPinParams =
  pn_room_id :: rstr
  pn_event_id :: rstr

definition current_pins :: "PinnedState \<Rightarrow> ('b, rstr list) tool" where
  "current_pins answer = (case answer of
      NoPins \<Rightarrow> returnT []
    | PinsUndecodable e \<Rightarrow> failT (Internal_error (''decode pinned: '' @ e))
    | Pins ps \<Rightarrow> returnT ps)"

definition new_pins :: "bool \<Rightarrow> rstr \<Rightarrow> rstr list \<Rightarrow> rstr list" where
  "new_pins add ev current =
     (if add then (if ev \<in> set current then current else current @ [ev])
      else filter (\<lambda>e. e \<noteq> ev) current)"

definition toggle_pin :: "'b ToolEnv \<Rightarrow> RequestContext \<Rightarrow> RoomPinParams \<Rightarrow> bool \<Rightarrow> ('b, rstr \<times> nat) tool" where
  "toggle_pin E ctx p add =
     write_tool E ctx (if add then ''room_pin_message'' else ''room_unpin_message'') (Some (pn_room_id p))
     (bindT (rate_limit_check E ctx WriteCall) (\<lambda>_.
      bindT (client_for E ctx) (\<lambda>_.
      bindT (open_room E (pn_room_id p)) (\<lambda>room.
      bindT (parse_id (te_event_err E) (pn_event_id p)) (\<lambda>ev.
      bindT (askT ''fetch pinned'' (GetPinned (pn_room_id p)) (sd_pinned (te_sdk E))) (\<lambda>answer.
      bindT (current_pins answer) (\<lambda>current.
      let pins = new_pins add ev current in
      bindT (doT E ''send_state_event m.room.pinned_events'' (SetPinned (pn_room_id p) pins)) (\<lambda>_.
      returnT (ev, length pins)))))))))"

record SetRoomTextParams =
  sx_room_id :: rstr
  sx_value :: rstr

definition set_room_name :: "'b ToolEnv \<Rightarrow> RequestContext \<Rightarrow> SetRoomTextParams \<Rightarrow> ('b, rstr) tool" where
  "set_room_name E ctx p = notice_first_tool E ctx ''set_room_name'' (Some (sx_room_id p))
     (bindT (rate_limit_check E ctx WriteCall) (\<lambda>_.
      bindT (client_for E ctx) (\<lambda>_.
      bindT (open_room E (sx_room_id p)) (\<lambda>room.
      doT E ''set_name'' (SetName (sx_room_id p) (sx_value p))))))"

definition set_room_topic :: "'b ToolEnv \<Rightarrow> RequestContext \<Rightarrow> SetRoomTextParams \<Rightarrow> ('b, rstr) tool" where
  "set_room_topic E ctx p = notice_first_tool E ctx ''set_room_topic'' (Some (sx_room_id p))
     (bindT (rate_limit_check E ctx WriteCall) (\<lambda>_.
      bindT (client_for E ctx) (\<lambda>_.
      bindT (open_room E (sx_room_id p)) (\<lambda>room.
      doT E ''set_room_topic'' (SetTopic (sx_room_id p) (sx_value p))))))"

section \<open>Joining, leaving, inviting\<close>

definition join_room :: "'b ToolEnv \<Rightarrow> RequestContext \<Rightarrow> rstr \<Rightarrow> ('b, rstr) tool" where
  "join_room E ctx target = write_tool E ctx ''join_room'' (Some target)
     (bindT (rate_limit_check E ctx WriteCall) (\<lambda>_.
      bindT (client_for E ctx) (\<lambda>_.
      bindT (parse_id (te_alias_err E) target) (\<lambda>t.
      doT E ''join_room'' (JoinByIdOrAlias t)))))"

definition leave_room :: "'b ToolEnv \<Rightarrow> RequestContext \<Rightarrow> rstr \<Rightarrow> ('b, rstr) tool" where
  "leave_room E ctx room_id = write_tool E ctx ''leave_room'' (Some room_id)
     (bindT (rate_limit_check E ctx WriteCall) (\<lambda>_.
      bindT (client_for E ctx) (\<lambda>_.
      bindT (open_room E room_id) (\<lambda>room.
      bindT (doT E ''leave'' (LeaveRoom room_id)) (\<lambda>_.
      returnT room_id)))))"

definition invite_user :: "'b ToolEnv \<Rightarrow> RequestContext \<Rightarrow> rstr \<Rightarrow> rstr \<Rightarrow> ('b, rstr \<times> rstr) tool" where
  "invite_user E ctx room_id user_id = write_tool E ctx ''invite_user'' (Some room_id)
     (bindT (rate_limit_check E ctx WriteCall) (\<lambda>_.
      bindT (client_for E ctx) (\<lambda>_.
      bindT (open_room E room_id) (\<lambda>room.
      bindT (parse_id (te_user_err E) user_id) (\<lambda>user.
      bindT (doT E ''invite_user_by_id'' (InviteUser room_id user)) (\<lambda>_.
      returnT (room_id, user)))))))"

record RoomCreateParams =
  cp_name :: "rstr option"
  cp_topic :: "rstr option"
  cp_invite :: "rstr list"
  cp_public :: bool
  cp_encrypted :: bool
  cp_is_direct :: bool
  cp_alias :: "rstr option"

definition room_create :: "'b ToolEnv \<Rightarrow> RequestContext \<Rightarrow> RoomCreateParams \<Rightarrow> ('b, rstr) tool" where
  "room_create E ctx p = write_tool E ctx ''room_create'' None
     (bindT (rate_limit_check E ctx WriteCall) (\<lambda>_.
      bindT (client_for E ctx) (\<lambda>_.
      bindT (forT (parse_id (te_user_err E)) (cp_invite p)) (\<lambda>invite.
      doT E ''create_room'' (CreateRoom
        \<lparr>cr_name = cp_name p, cr_topic = cp_topic p, cr_invite = invite, cr_direct = cp_is_direct p,
         cr_alias = cp_alias p, cr_preset = (if cp_public p then PublicChat else PrivateChat),
         cr_public = cp_public p, cr_encrypted = cp_encrypted p\<rparr>)))))"

definition room_create_dm :: "'b ToolEnv \<Rightarrow> RequestContext \<Rightarrow> rstr \<Rightarrow> ('b, rstr) tool" where
  "room_create_dm E ctx user_id = write_tool E ctx ''room_create_dm'' None
     (bindT (rate_limit_check E ctx WriteCall) (\<lambda>_.
      bindT (client_for E ctx) (\<lambda>_.
      bindT (parse_id (te_user_err E) user_id) (\<lambda>user.
      doT E ''create_room'' (CreateRoom
        \<lparr>cr_name = None, cr_topic = None, cr_invite = [user], cr_direct = True, cr_alias = None,
         cr_preset = TrustedPrivateChat, cr_public = False, cr_encrypted = True\<rparr>)))))"

record InviteSummary =
  is_room_id :: rstr
  is_display_name :: "rstr option"
  is_encrypted :: bool

definition invites_list :: "'b ToolEnv \<Rightarrow> RequestContext \<Rightarrow> ('b, InviteSummary list) tool" where
  "invites_list E ctx = read_tool E ctx ''invites_list'' None uncounted
     (bindT (rate_limit_check E ctx ReadCall) (\<lambda>_.
      bindT (client_for E ctx) (\<lambda>_.
      bindT (seeT (sd_invited_rooms (te_sdk E))) (\<lambda>rooms.
      returnT (map (\<lambda>r. \<lparr>is_room_id = rm_id r, is_display_name = rm_display_name r,
        is_encrypted = rm_encrypted r\<rparr>) rooms)))))"

definition invites_accept :: "'b ToolEnv \<Rightarrow> RequestContext \<Rightarrow> rstr \<Rightarrow> ('b, rstr) tool" where
  "invites_accept E ctx room_id = write_tool E ctx ''invites_accept'' (Some room_id)
     (bindT (rate_limit_check E ctx WriteCall) (\<lambda>_.
      bindT (client_for E ctx) (\<lambda>_.
      bindT (open_room E room_id) (\<lambda>room.
      bindT (ensureT (rm_state room = Invited) Invalid_params) (\<lambda>_.
      bindT (doT E ''join_room_by_id'' (JoinById room_id)) (\<lambda>_.
      returnT room_id))))))"

definition invites_reject :: "'b ToolEnv \<Rightarrow> RequestContext \<Rightarrow> rstr \<Rightarrow> ('b, rstr) tool" where
  "invites_reject E ctx room_id = write_tool E ctx ''invites_reject'' (Some room_id)
     (bindT (rate_limit_check E ctx WriteCall) (\<lambda>_.
      bindT (client_for E ctx) (\<lambda>_.
      bindT (open_room E room_id) (\<lambda>room.
      bindT (ensureT (rm_state room = Invited) Invalid_params) (\<lambda>_.
      bindT (doT E ''room.leave'' (LeaveRoom room_id)) (\<lambda>_.
      returnT room_id))))))"

text \<open>\<open>audit_room::set_audit_room\<close>: the room under the account-data type the notices read.\<close>

definition set_audit_room :: "'b ToolEnv \<Rightarrow> RequestContext \<Rightarrow> rstr \<Rightarrow> ('b, rstr) tool" where
  "set_audit_room E ctx room_id = write_tool E ctx ''set_audit_room'' (Some room_id)
     (bindT (rate_limit_check E ctx WriteCall) (\<lambda>_.
      bindT (client_for E ctx) (\<lambda>_.
      bindT (open_room E room_id) (\<lambda>room.
      bindT (doT E ''set_audit_room''
               (SetAccountData ''m.audit_room'' (JObj [(''room_id'', JStr room_id)]))) (\<lambda>_.
      returnT room_id)))))"

end
