(* ===== verification/MediaTools.thy ===== *)
theory MediaTools
  imports ToolCall VoiceAudio
begin

text \<open>
  The handlers of \<open>src/mcp.rs\<close> that upload and send media: images, files, video, audio,
  voice messages and synthesised speech. The upload is \<open>upload_from_url\<close> of UrlSafety; its
  URLs are recorded, and the upload itself when the homeserver accepted it.
\<close>

section \<open>Upload\<close>

fun emit_allT :: "Effect list \<Rightarrow> ('b, unit) tool" where
  "emit_allT [] = returnT ()"
| "emit_allT (e # es) = bindT (emitT e) (\<lambda>_. emit_allT es)"

definition run_upload ::
  "'b ToolEnv \<Rightarrow> rstr \<Rightarrow> rstr option \<Rightarrow> rstr \<Rightarrow> Effect list \<Rightarrow> rstr list \<times> (ErrorData + UploadedMedia)" where
  "run_upload E url expected_prefix default_mime h =
     upload_from_url (wb_normal (te_web E)) (wb_head (te_web E)) (wb_join (te_web E)) (wb_validate (te_web E))
       (wb_get (te_web E)) (wb_mime (te_web E))
       (\<lambda>mime bytes. sd_write (te_sdk E) h (UploadMedia mime (length bytes)))
       (te_upload_max E) url expected_prefix default_mime"

definition upload_for ::
  "'b ToolEnv \<Rightarrow> rstr \<Rightarrow> rstr option \<Rightarrow> rstr \<Rightarrow> ('b, UploadedMedia) tool" where
  "upload_for E url expected_prefix default_mime =
     bindT (seeT (run_upload E url expected_prefix default_mime)) (\<lambda>(urls, r).
     bindT (emit_allT (map Requested urls)) (\<lambda>_.
     case r of
       Inl e \<Rightarrow> failT e
     | Inr m \<Rightarrow> bindT (emitT (Did (UploadMedia (mime_type m) (bytes_len m)))) (\<lambda>_. returnT m)))"

definition upload_image_from_url :: "'b ToolEnv \<Rightarrow> rstr \<Rightarrow> ('b, rstr) tool" where
  "upload_image_from_url E url =
     bindT (upload_for E url (Some ''image/'') ''image/jpeg'') (\<lambda>m. returnT (mxc_uri m))"

definition upload_media_from_url :: "'b ToolEnv \<Rightarrow> RequestContext \<Rightarrow> rstr \<Rightarrow> ('b, rstr \<times> rstr \<times> nat) tool" where
  "upload_media_from_url E ctx url = notice_first_tool E ctx ''upload_media_from_url'' None
     (bindT (rate_limit_check E ctx WriteCall) (\<lambda>_.
      bindT (client_for E ctx) (\<lambda>_.
      bindT (upload_for E url None ''application/octet-stream'') (\<lambda>m.
      returnT (mxc_uri m, wb_essence (te_web E) (mime_type m), bytes_len m)))))"

section \<open>Media messages\<close>

text \<open>\<open>UInt::try_from\<close>: an integer of JSON has 53 bits.\<close>

definition js_uint :: "nat \<Rightarrow> nat option" where
  "js_uint n = (if n < 2 ^ 53 then Some n else None)"

record SendImageFromUrlParams =
  si_room_id :: rstr
  si_image_url :: rstr
  si_caption :: "rstr option"

definition image_content :: "UploadedMedia \<Rightarrow> rstr option \<Rightarrow> MediaContent" where
  "image_content m caption =
     \<lparr>mc_kind = None, mc_body = (case caption of None \<Rightarrow> up_filename m | Some c \<Rightarrow> c), mc_url = mxc_uri m,
      mc_filename = (case caption of None \<Rightarrow> None | Some _ \<Rightarrow> Some (up_filename m)),
      mc_mime = None, mc_size = None, mc_duration = None, mc_voice = False, mc_audio = None\<rparr>"

definition send_image_from_url ::
  "'b ToolEnv \<Rightarrow> RequestContext \<Rightarrow> SendImageFromUrlParams \<Rightarrow> ('b, rstr \<times> rstr) tool" where
  "send_image_from_url E ctx p = write_tool E ctx ''send_image_from_url'' (Some (si_room_id p))
     (bindT (rate_limit_check E ctx WriteCall) (\<lambda>_.
      bindT (client_for E ctx) (\<lambda>_.
      bindT (upload_for E (si_image_url p) (Some ''image/'') ''image/jpeg'') (\<lambda>m.
      bindT (open_room E (si_room_id p)) (\<lambda>room.
      bindT (doT E ''room.send'' (SendMedia (si_room_id p) (image_content m (si_caption p)))) (\<lambda>ev.
      returnT (ev, mxc_uri m)))))))"

fun expected_prefix :: "MediaKind \<Rightarrow> rstr option" where
  "expected_prefix FileMedia = None"
| "expected_prefix VideoMedia = Some ''video/''"
| "expected_prefix AudioMedia = Some ''audio/''"

fun default_mime :: "MediaKind \<Rightarrow> rstr" where
  "default_mime FileMedia = ''application/octet-stream''"
| "default_mime VideoMedia = ''video/mp4''"
| "default_mime AudioMedia = ''audio/ogg''"

fun media_tool_name :: "MediaKind \<Rightarrow> rstr" where
  "media_tool_name FileMedia = ''send_file''"
| "media_tool_name VideoMedia = ''send_video''"
| "media_tool_name AudioMedia = ''send_audio''"

definition media_content ::
  "'b ToolEnv \<Rightarrow> MediaKind \<Rightarrow> UploadedMedia \<Rightarrow> rstr option \<Rightarrow> rstr option \<Rightarrow> MediaContent" where
  "media_content E kind m caption filename_override =
     (let display = (case filename_override of None \<Rightarrow> up_filename m | Some f \<Rightarrow> f)
      in \<lparr>mc_kind = Some kind, mc_body = (case caption of None \<Rightarrow> display | Some c \<Rightarrow> c), mc_url = mxc_uri m,
          mc_filename = (if kind = FileMedia then Some display else None),
          mc_mime = Some (wb_essence (te_web E) (mime_type m)), mc_size = js_uint (bytes_len m),
          mc_duration = None, mc_voice = False, mc_audio = None\<rparr>)"

definition send_media_from_url ::
  "'b ToolEnv \<Rightarrow> RequestContext \<Rightarrow> rstr \<Rightarrow> rstr \<Rightarrow> rstr option \<Rightarrow> rstr option \<Rightarrow> MediaKind
     \<Rightarrow> ('b, rstr \<times> rstr) tool" where
  "send_media_from_url E ctx room_id url caption filename_override kind =
     write_tool E ctx (media_tool_name kind) (Some room_id)
     (bindT (rate_limit_check E ctx WriteCall) (\<lambda>_.
      bindT (client_for E ctx) (\<lambda>_.
      bindT (upload_for E url (expected_prefix kind) (default_mime kind)) (\<lambda>m.
      bindT (open_room E room_id) (\<lambda>room.
      bindT (doT E ''room.send'' (SendMedia room_id (media_content E kind m caption filename_override))) (\<lambda>ev.
      returnT (ev, mxc_uri m)))))))"

record SendFileFromUrlParams =
  sf_room_id :: rstr
  sf_file_url :: rstr
  sf_caption :: "rstr option"
  sf_filename :: "rstr option"

record SendMediaFromUrlParams =
  sm_room_id :: rstr
  sm_media_url :: rstr
  sm_caption :: "rstr option"

definition send_file :: "'b ToolEnv \<Rightarrow> RequestContext \<Rightarrow> SendFileFromUrlParams \<Rightarrow> ('b, rstr \<times> rstr) tool" where
  "send_file E ctx p =
     send_media_from_url E ctx (sf_room_id p) (sf_file_url p) (sf_caption p) (sf_filename p) FileMedia"

definition send_video :: "'b ToolEnv \<Rightarrow> RequestContext \<Rightarrow> SendMediaFromUrlParams \<Rightarrow> ('b, rstr \<times> rstr) tool" where
  "send_video E ctx p = send_media_from_url E ctx (sm_room_id p) (sm_media_url p) (sm_caption p) None VideoMedia"

definition send_audio :: "'b ToolEnv \<Rightarrow> RequestContext \<Rightarrow> SendMediaFromUrlParams \<Rightarrow> ('b, rstr \<times> rstr) tool" where
  "send_audio E ctx p = send_media_from_url E ctx (sm_room_id p) (sm_media_url p) (sm_caption p) None AudioMedia"

section \<open>Voice messages\<close>

definition WAVEFORM_MAX_LEN :: nat where "WAVEFORM_MAX_LEN = 200"
definition WAVEFORM_MAX_VALUE :: nat where "WAVEFORM_MAX_VALUE = 1024"
definition DURATION_MAX_MS :: nat where "DURATION_MAX_MS = 60 * 60 * 1000"

record SendVoiceMessageParams =
  vm_room_id :: rstr
  vm_media_url :: rstr
  vm_duration_ms :: "nat option"
  vm_waveform :: "nat list option"
  vm_caption :: "rstr option"

text \<open>Durations of a message are in microseconds.\<close>

definition voice_content :: "'b ToolEnv \<Rightarrow> UploadedMedia \<Rightarrow> SendVoiceMessageParams \<Rightarrow> MediaContent" where
  "voice_content E m p =
     (let duration = map_option (\<lambda>ms. ms * 1000) (vm_duration_ms p)
      in \<lparr>mc_kind = Some AudioMedia,
          mc_body = (case vm_caption p of None \<Rightarrow> ''Voice message'' | Some c \<Rightarrow> c), mc_url = mxc_uri m,
          mc_filename = None, mc_mime = Some (wb_essence (te_web E) (mime_type m)),
          mc_size = js_uint (bytes_len m), mc_duration = duration, mc_voice = True,
          mc_audio = Some (case duration of None \<Rightarrow> 0 | Some d \<Rightarrow> d,
                           case vm_waveform p of None \<Rightarrow> [] | Some ws \<Rightarrow> ws)\<rparr>)"

definition send_voice_message ::
  "'b ToolEnv \<Rightarrow> RequestContext \<Rightarrow> SendVoiceMessageParams \<Rightarrow> ('b, rstr \<times> rstr) tool" where
  "send_voice_message E ctx p = write_tool E ctx ''send_voice_message'' (Some (vm_room_id p))
     (bindT (rate_limit_check E ctx WriteCall) (\<lambda>_.
      bindT (liftT (validate_voice_params (vm_duration_ms p) (vm_waveform p)
               DURATION_MAX_MS WAVEFORM_MAX_LEN WAVEFORM_MAX_VALUE)) (\<lambda>_.
      bindT (client_for E ctx) (\<lambda>_.
      bindT (upload_for E (vm_media_url p) (Some ''audio/'') (default_mime AudioMedia)) (\<lambda>m.
      bindT (open_room E (vm_room_id p)) (\<lambda>room.
      bindT (doT E ''room.send'' (SendMedia (vm_room_id p) (voice_content E m p))) (\<lambda>ev.
      returnT (ev, mxc_uri m))))))))"

section \<open>Speech\<close>

text \<open>An answer of the speech endpoint: a failed request, with whether it is one of the kinds the source
  retries; or a status, its text, the declared length and the stream.\<close>

datatype TtsAnswer = TtsNoAnswer bool rstr | TtsAnswered nat rstr "nat option" "(rstr + rstr) list"

datatype TtsAttemptError = TransientError ErrorData | PermanentError ErrorData

record 'e TtsEnv =
  tv_codec :: "'e Codec"
  tv_config :: "TtsConfig option"
  tv_answer :: "Effect list \<Rightarrow> TtsAnswer"
  tv_alnum :: "rstr \<Rightarrow> bool"
  tv_float_text :: "f32 \<Rightarrow> rstr"

definition send_tts_once :: "TtsAnswer \<Rightarrow> nat \<Rightarrow> TtsAttemptError + rstr" where
  "send_tts_once answer max_bytes = (case answer of
      TtsNoAnswer retryable e \<Rightarrow>
        Inl ((if retryable then TransientError else PermanentError) (Internal_error (''tts request: '' @ e)))
    | TtsAnswered status text declared chunks \<Rightarrow>
        if \<not> (200 \<le> status \<and> status < 300)
        then Inl ((if 500 \<le> status \<and> status < 600 then TransientError else PermanentError)
               (Internal_error (''tts endpoint returned '' @ text)))
        else (case read_response_body_capped declared chunks max_bytes ''tts'' of
            Inr bytes \<Rightarrow> Inr bytes
          | Inl e \<Rightarrow> Inl ((if err_code e = -32602 then PermanentError else TransientError) e)))"

definition MAX_ATTEMPTS :: nat where "MAX_ATTEMPTS = 2"
definition RETRY_BACKOFF_SECS :: nat where "RETRY_BACKOFF_SECS = 2"

text \<open>\<open>left\<close> attempts remain; a wait follows every failed attempt but the last.\<close>

fun tts_attempts ::
  "'e TtsEnv \<Rightarrow> rstr \<Rightarrow> json \<Rightarrow> nat \<Rightarrow> nat \<Rightarrow> ErrorData option \<Rightarrow> ('b, rstr) tool" where
  "tts_attempts V url request_body max_bytes 0 last_err = failT (case last_err of
      Some e \<Rightarrow> e
    | None \<Rightarrow> Internal_error ''tts: all attempts failed without recording an error'')"
| "tts_attempts V url request_body max_bytes (Suc left) last_err =
     bindT (seeT (tv_answer V)) (\<lambda>answer.
     bindT (emitT (Posted url request_body)) (\<lambda>_.
     case send_tts_once answer max_bytes of
       Inr bytes \<Rightarrow> returnT bytes
     | Inl err \<Rightarrow> (case err of
         PermanentError e \<Rightarrow> failT e
       | TransientError e \<Rightarrow>
           bindT (if left = 0 then returnT () else emitT (Slept RETRY_BACKOFF_SECS)) (\<lambda>_.
           tts_attempts V url request_body max_bytes left (Some e)))))"

definition tts_request :: "'e TtsEnv \<Rightarrow> SendTtsVoiceMessageParams \<Rightarrow> json" where
  "tts_request V p = JObj
     [(''input'', JStr (inject_pauses (tv_alnum V) (tp_input p))),
      (''voice'', JStr (case tp_voice p of None \<Rightarrow> ''julian'' | Some v \<Rightarrow> v)),
      (''exaggeration'', JFloat (tv_float_text V (case tp_exaggeration p of None \<Rightarrow> F32 (10066330 / 16777216) | Some v \<Rightarrow> v))),
      (''cfg_weight'', JFloat (tv_float_text V (case tp_cfg_weight p of None \<Rightarrow> F32 (1 / 2) | Some v \<Rightarrow> v))),
      (''language_id'', JStr (case tp_language_id p of None \<Rightarrow> ''de'' | Some l \<Rightarrow> l))]"

definition synthesize_tts ::
  "'b ToolEnv \<Rightarrow> 'e TtsEnv \<Rightarrow> TtsConfig \<Rightarrow> SendTtsVoiceMessageParams \<Rightarrow> nat \<Rightarrow> ('b, rstr) tool" where
  "synthesize_tts E V endpoint p max_bytes =
     (let url = tts_base_url endpoint @ ''/audio/speech'' in
      bindT (ensureT (wb_validate (te_web E) url) Invalid_params) (\<lambda>_.
      tts_attempts V url (tts_request V p) max_bytes MAX_ATTEMPTS None))"

definition INPUT_MAX_CHARS :: nat where "INPUT_MAX_CHARS = 4096"
definition BODY_FALLBACK_MAX_CHARS :: nat where "BODY_FALLBACK_MAX_CHARS = 512"

definition spoken_content ::
  "SendTtsVoiceMessageParams \<Rightarrow> rstr \<Rightarrow> nat \<Rightarrow> nat \<Rightarrow> nat list \<Rightarrow> MediaContent" where
  "spoken_content p uri bytes duration bars =
     \<lparr>mc_kind = Some AudioMedia,
      mc_body = (case tp_caption p of None \<Rightarrow> body_fallback BODY_FALLBACK_MAX_CHARS (tp_input p) | Some c \<Rightarrow> c),
      mc_url = uri, mc_filename = None, mc_mime = Some ''audio/ogg'', mc_size = js_uint bytes,
      mc_duration = Some duration, mc_voice = True, mc_audio = Some (duration, bars)\<rparr>"

text \<open>A panic of the transcoder is no result at all; \<open>transcode_spec\<close> shows there is none.\<close>

definition transcoded :: "'e Codec \<Rightarrow> rstr \<Rightarrow> ('b, rstr \<times> nat \<times> nat list) tool" where
  "transcoded C wav = (case transcode_wav_to_ogg_opus C wav of
      None \<Rightarrow> failT (Internal_error ''panic'')
    | Some (Inl e) \<Rightarrow> failT e
    | Some (Inr (ps, duration, bars)) \<Rightarrow> returnT (oc_bytes C ps, duration, bars))"

definition send_tts_voice_message ::
  "'b ToolEnv \<Rightarrow> 'e TtsEnv \<Rightarrow> RequestContext \<Rightarrow> SendTtsVoiceMessageParams \<Rightarrow> ('b, rstr \<times> rstr) tool" where
  "send_tts_voice_message E V ctx p = write_tool E ctx ''send_tts_voice_message'' (Some (tp_room_id p))
     (bindT (rate_limit_check E ctx WriteCall) (\<lambda>_.
      bindT (someT (tv_config V) Invalid_params) (\<lambda>endpoint.
      bindT (liftT (validate_tts_params p INPUT_MAX_CHARS)) (\<lambda>_.
      bindT (synthesize_tts E V endpoint p (te_upload_max E)) (\<lambda>wav.
      bindT (transcoded (tv_codec V) wav) (\<lambda>(ogg, duration, bars).
      bindT (client_for E ctx) (\<lambda>_.
      bindT (doT E ''media upload'' (UploadMedia ''audio/ogg'' (length ogg))) (\<lambda>uri.
      bindT (open_room E (tp_room_id p)) (\<lambda>room.
      bindT (doT E ''room.send'' (SendMedia (tp_room_id p)
               (spoken_content p uri (length ogg) duration bars))) (\<lambda>ev.
      returnT (ev, uri)))))))))))"

end
