(* ===== verification/ReadTools.thy ===== *)
theory ReadTools
  imports ToolCall ToolInputs ReadEvents
begin

text \<open>
  The handlers of \<open>src/mcp.rs\<close> that read messages, threads, reactions, receipts,
  activity, search results and attachments, and the pull of room keys. The pages of
  \<open>read_reactions\<close> are followed with fuel: \<open>None\<close> is a loop that has not ended.
\<close>

section \<open>Key backup\<close>

text \<open>How a pull ends: a success starts the cooldown, and the permit is dropped either way.\<close>

definition pull_finished :: "instant \<Rightarrow> bool \<Rightarrow> cooldown_key \<Rightarrow> KeyBackupGate \<Rightarrow> KeyBackupGate" where
  "pull_finished now success k g = drop_permit (if success then record_success now k g else g)"

text \<open>The task started here ends with \<open>pull_finished\<close> after the call has returned.\<close>

definition spawn_key_backup_pull_if_needed ::
  "'b ToolEnv \<Rightarrow> rstr \<Rightarrow> rstr \<Rightarrow> ReadEvent list \<Rightarrow> ('b, unit) tool" where
  "spawn_key_backup_pull_if_needed E caller_sub room_id events w =
     (if filter (\<lambda>e. re_status e = ''unable_to_decrypt'') events = [] then (Inr (), w)
      else (case try_acquire (te_now E (tw_trace w)) caller_sub room_id (tw_gate w) of
          (Permit k, g) \<Rightarrow>
            (Inr (), w\<lparr>tw_gate := g, tw_trace := tw_trace w @ [PullSpawned caller_sub room_id]\<rparr>)
        | (_, g) \<Rightarrow> (Inr (), w\<lparr>tw_gate := g\<rparr>)))"

definition caller_subject :: "RequestContext \<Rightarrow> rstr" where
  "caller_subject ctx = (case ctx_identity ctx of None \<Rightarrow> [] | Some ident \<Rightarrow> mas_subject ident)"

section \<open>Messages and threads\<close>

record ReadRecentMessagesParams =
  rr_room_id :: rstr
  rr_limit :: nat
  rr_from :: "rstr option"
  rr_to :: "rstr option"
  rr_direction :: ReadMessagesDirection

record ReadRecentMessagesResult =
  rrr_events :: "ReadEvent list"
  rrr_start_token :: rstr
  rrr_end_token :: "rstr option"
  rrr_direction :: ReadMessagesDirection

definition read_recent_messages ::
  "'b ToolEnv \<Rightarrow> RequestContext \<Rightarrow> ReadRecentMessagesParams \<Rightarrow> ('b, ReadRecentMessagesResult) tool" where
  "read_recent_messages E ctx p =
     read_tool E ctx ''read_recent_messages'' (Some (rr_room_id p)) (counted (\<lambda>r. length (rrr_events r)))
     (bindT (rate_limit_check E ctx ReadCall) (\<lambda>_.
      bindT (client_for E ctx) (\<lambda>_.
      bindT (open_room E (rr_room_id p)) (\<lambda>room.
      bindT (askT ''fetch /messages''
               (GetMessages (rr_room_id p) (rr_direction p) (capped_message_limit (rr_limit p)) (rr_from p) (rr_to p))
               (sd_messages (te_sdk E))) (\<lambda>messages.
      let events = read_events_from_chunk (mp_chunk messages) in
      bindT (spawn_key_backup_pull_if_needed E (caller_subject ctx) (rr_room_id p) events) (\<lambda>_.
      returnT \<lparr>rrr_events = events, rrr_start_token = mp_start messages, rrr_end_token = mp_end messages,
        rrr_direction = rr_direction p\<rparr>))))))"

record ReadThreadParams =
  rt_room_id :: rstr
  rt_root_event_id :: rstr
  rt_limit :: nat

definition read_thread ::
  "'b ToolEnv \<Rightarrow> RequestContext \<Rightarrow> ReadThreadParams \<Rightarrow> ('b, ReadEvent list) tool" where
  "read_thread E ctx p = read_tool E ctx ''read_thread'' (Some (rt_room_id p)) (counted length)
     (bindT (rate_limit_check E ctx ReadCall) (\<lambda>_.
      bindT (client_for E ctx) (\<lambda>_.
      bindT (open_room E (rt_room_id p)) (\<lambda>room.
      bindT (require_joined room) (\<lambda>_.
      bindT (parse_id (te_event_err E) (rt_root_event_id p)) (\<lambda>root.
      bindT (askT ''fetch thread relations''
               (GetRelations (rt_room_id p) root ThreadRelation (clamp_limit (rt_limit p) MAX_THREAD_LIMIT) None)
               (sd_relations (te_sdk E))) (\<lambda>relations.
      let events = read_events_from_chunk (rp_chunk relations) in
      bindT (spawn_key_backup_pull_if_needed E (caller_subject ctx) (rt_room_id p) events) (\<lambda>_.
      returnT events))))))))"

section \<open>Reactions\<close>

record ReadReactionsParams =
  rx_room_id :: rstr
  rx_event_id :: rstr
  rx_limit :: nat

record ReadReactionsResult =
  rx_reactions :: "Reaction list"
  rx_unreadable :: nat
  rx_truncated :: bool

fun reaction_pages ::
  "nat \<Rightarrow> 'b ToolEnv \<Rightarrow> rstr \<Rightarrow> rstr \<Rightarrow> nat \<Rightarrow> rstr option \<Rightarrow> Reaction list \<Rightarrow> nat
     \<Rightarrow> ('b, ReadReactionsResult option) tool" where
  "reaction_pages 0 E room_id ev limit start reactions unreadable = returnT None"
| "reaction_pages (Suc fuel) E room_id ev limit start reactions unreadable =
     bindT (askT ''fetch annotation relations''
              (GetRelations room_id ev AnnotationRelation MAX_RELATIONS_PAGE start) (sd_relations (te_sdk E))) (\<lambda>page.
     let (rs, bad) = reactions_from_chunk (read_events_from_chunk (rp_chunk page)) ev;
         unreadable = unreadable + bad;
         reactions = reactions @ rs
     in if limit \<le> length reactions
        then returnT (Some \<lparr>rx_reactions = take limit reactions, rx_unreadable = unreadable,
               rx_truncated = (rp_next page \<noteq> None \<or> limit < length reactions)\<rparr>)
        else (case rp_next page of
            Some token \<Rightarrow> reaction_pages fuel E room_id ev limit (Some token) reactions unreadable
          | None \<Rightarrow> returnT (Some \<lparr>rx_reactions = reactions, rx_unreadable = unreadable, rx_truncated = False\<rparr>)))"

definition read_reactions ::
  "nat \<Rightarrow> 'b ToolEnv \<Rightarrow> RequestContext \<Rightarrow> ReadReactionsParams \<Rightarrow> ('b, ReadReactionsResult option) tool" where
  "read_reactions fuel E ctx p = read_tool E ctx ''read_reactions'' (Some (rx_room_id p))
       (counted (\<lambda>r. case r of None \<Rightarrow> 0 | Some res \<Rightarrow> length (rx_reactions res)))
     (bindT (rate_limit_check E ctx ReadCall) (\<lambda>_.
      bindT (client_for E ctx) (\<lambda>_.
      bindT (open_room E (rx_room_id p)) (\<lambda>room.
      bindT (require_joined room) (\<lambda>_.
      bindT (parse_id (te_event_err E) (rx_event_id p)) (\<lambda>ev.
      reaction_pages fuel E (rx_room_id p) ev (clamp_limit (rx_limit p) MAX_THREAD_LIMIT) None [] 0))))))"

section \<open>Unread and recent rooms\<close>

record UnreadRoomSummary =
  ur_room_id :: rstr
  ur_display_name :: "rstr option"
  ur_encrypted :: bool
  ur_unread_messages :: nat
  ur_unread_notifications :: nat
  ur_unread_mentions :: nat
  ur_latest_event_id :: "rstr option"
  ur_latest_event_type :: "rstr option"
  ur_latest_sender :: "rstr option"
  ur_latest_ts :: "nat option"

text \<open>Sender and type of the latest event, from its JSON.\<close>

definition latest_field :: "LatestEvent \<Rightarrow> rstr \<Rightarrow> rstr option" where
  "latest_field l field = (case le_remote l of Some (Some v) \<Rightarrow> jstr_at v [field] | _ \<Rightarrow> None)"

definition dropped_as_noise :: "bool \<Rightarrow> Room \<Rightarrow> bool" where
  "dropped_as_noise message_events_only room \<longleftrightarrow>
     message_events_only \<and> \<not> is_chat_message_type (latest_field (rm_latest room) ''type'')"

definition unread_summary_of :: "bool \<Rightarrow> Room \<Rightarrow> UnreadRoomSummary option" where
  "unread_summary_of message_events_only room =
     (if rm_notifications room = 0 \<and> rm_highlights room = 0 \<and> rm_unread room = 0 then None
      else if dropped_as_noise message_events_only room then None
      else Some \<lparr>ur_room_id = rm_id room, ur_display_name = rm_display_name room,
        ur_encrypted = rm_encrypted room, ur_unread_messages = rm_unread room,
        ur_unread_notifications = rm_notifications room, ur_unread_mentions = rm_highlights room,
        ur_latest_event_id = le_event_id (rm_latest room),
        ur_latest_event_type = latest_field (rm_latest room) ''type'',
        ur_latest_sender = latest_field (rm_latest room) ''sender'',
        ur_latest_ts = le_timestamp (rm_latest room)\<rparr>)"

definition ts_or_zero :: "nat option \<Rightarrow> nat" where
  "ts_or_zero t = (case t of None \<Rightarrow> 0 | Some n \<Rightarrow> n)"

text \<open>\<open>sort_by\<close> with the arguments swapped: stable, latest first.\<close>

definition latest_first :: "('r \<Rightarrow> nat option) \<Rightarrow> 'r list \<Rightarrow> 'r list" where
  "latest_first ts = sort_key (\<lambda>r. - int (ts_or_zero (ts r)))"

definition get_unread_summary ::
  "'b ToolEnv \<Rightarrow> RequestContext \<Rightarrow> bool \<Rightarrow> ('b, UnreadRoomSummary list \<times> nat \<times> nat) tool" where
  "get_unread_summary E ctx message_events_only =
     read_tool E ctx ''get_unread_summary'' None (counted (\<lambda>(rooms, total, messages). total))
     (bindT (rate_limit_check E ctx ReadCall) (\<lambda>_.
      bindT (client_for E ctx) (\<lambda>_.
      bindT (seeT (sd_joined_rooms (te_sdk E))) (\<lambda>joined.
      let rooms = latest_first ur_latest_ts (List.map_filter (unread_summary_of message_events_only) joined) in
      returnT (rooms, length rooms, sum_list (map ur_unread_messages rooms) mod 2 ^ 64)))))"

record RecentActivityRoom =
  ra_room_id :: rstr
  ra_display_name :: "rstr option"
  ra_encrypted :: bool
  ra_latest_event_id :: "rstr option"
  ra_latest_event_type :: "rstr option"
  ra_latest_sender :: "rstr option"
  ra_latest_ts :: "nat option"
  ra_unread_notifications :: nat
  ra_unread_mentions :: nat

record ListRecentActivityParams =
  la_limit :: nat
  la_since :: "nat option"
  la_encrypted_only :: bool
  la_message_events_only :: bool

definition recent_activity_of :: "ListRecentActivityParams \<Rightarrow> Room \<Rightarrow> RecentActivityRoom option" where
  "recent_activity_of p room =
     (if la_encrypted_only p \<and> \<not> rm_encrypted room then None
      else if (case la_since p of None \<Rightarrow> False | Some t \<Rightarrow> ts_or_zero (le_timestamp (rm_latest room)) \<le> t) then None
      else if dropped_as_noise (la_message_events_only p) room then None
      else Some \<lparr>ra_room_id = rm_id room, ra_display_name = rm_display_name room,
        ra_encrypted = rm_encrypted room, ra_latest_event_id = le_event_id (rm_latest room),
        ra_latest_event_type = latest_field (rm_latest room) ''type'',
        ra_latest_sender = latest_field (rm_latest room) ''sender'',
        ra_latest_ts = le_timestamp (rm_latest room),
        ra_unread_notifications = rm_notifications room, ra_unread_mentions = rm_highlights room\<rparr>)"

definition list_recent_activity ::
  "'b ToolEnv \<Rightarrow> RequestContext \<Rightarrow> ListRecentActivityParams \<Rightarrow> ('b, RecentActivityRoom list \<times> nat) tool" where
  "list_recent_activity E ctx p =
     read_tool E ctx ''list_recent_activity'' None (counted (\<lambda>r. length (fst r)))
     (bindT (rate_limit_check E ctx ReadCall) (\<lambda>_.
      bindT (client_for E ctx) (\<lambda>_.
      bindT (seeT (sd_joined_rooms (te_sdk E))) (\<lambda>joined.
      returnT (take (min (la_limit p) MAX_RECENT_ACTIVITY_LIMIT)
                 (latest_first ra_latest_ts (List.map_filter (recent_activity_of p) joined)),
               length joined)))))"

section \<open>Receipts\<close>

record GetUserReceiptsParams =
  gu_room_id :: rstr
  gu_user_ids :: "rstr list option"

record UserReceiptInfo =
  ui_user_id :: rstr
  ui_event_id :: "rstr option"
  ui_ts :: "nat option"

definition user_receipt :: "'b ToolEnv \<Rightarrow> rstr \<Rightarrow> rstr \<Rightarrow> ('b, UserReceiptInfo) tool" where
  "user_receipt E room_id raw =
     bindT (parse_id (te_user_err E) raw) (\<lambda>user.
     bindT (askT (''load_user_receipt for '' @ user) (GetUserReceipt room_id user) (sd_user_receipt (te_sdk E))) (\<lambda>entry.
     returnT (case entry of
         Some (ev, ts) \<Rightarrow> \<lparr>ui_user_id = user, ui_event_id = Some ev, ui_ts = ts\<rparr>
       | None \<Rightarrow> \<lparr>ui_user_id = user, ui_event_id = None, ui_ts = None\<rparr>)))"

definition receipt_users :: "RequestContext \<Rightarrow> rstr list option \<Rightarrow> rstr list" where
  "receipt_users ctx user_ids = (case user_ids of
      Some us \<Rightarrow> us
    | None \<Rightarrow> (case ctx_identity ctx of None \<Rightarrow> [] | Some ident \<Rightarrow> [mxid ident]))"

definition get_user_receipts ::
  "'b ToolEnv \<Rightarrow> RequestContext \<Rightarrow> GetUserReceiptsParams \<Rightarrow> ('b, UserReceiptInfo list) tool" where
  "get_user_receipts E ctx p = read_tool E ctx ''get_user_receipts'' (Some (gu_room_id p)) (counted length)
     (bindT (rate_limit_check E ctx ReadCall) (\<lambda>_.
      bindT (client_for E ctx) (\<lambda>_.
      bindT (open_room E (gu_room_id p)) (\<lambda>room.
      let raw_user_ids = receipt_users ctx (gu_user_ids p) in
      bindT (ensureT (length raw_user_ids \<le> MAX_RECEIPT_USERS) Invalid_params) (\<lambda>_.
      forT (user_receipt E (gu_room_id p)) raw_user_ids)))))"

definition get_event_receipts ::
  "'b ToolEnv \<Rightarrow> RequestContext \<Rightarrow> rstr \<Rightarrow> rstr \<Rightarrow> ('b, (rstr \<times> nat option) list \<times> bool) tool" where
  "get_event_receipts E ctx room_id event_id =
     read_tool E ctx ''get_event_receipts'' (Some room_id) (counted (\<lambda>r. length (fst r)))
     (bindT (rate_limit_check E ctx ReadCall) (\<lambda>_.
      bindT (client_for E ctx) (\<lambda>_.
      bindT (open_room E room_id) (\<lambda>room.
      bindT (parse_id (te_event_err E) event_id) (\<lambda>ev.
      bindT (askT ''load_event_receipts'' (GetEventReceipts room_id ev) (sd_event_receipts (te_sdk E))) (\<lambda>pairs.
      returnT (take MAX_EVENT_RECEIPT_READERS pairs, MAX_EVENT_RECEIPT_READERS < length pairs)))))))"

section \<open>Threads of a room and search\<close>

record ListThreadsParams =
  lt_room_id :: rstr
  lt_only_participated :: bool
  lt_limit :: nat

record ThreadRootInfo =
  ti_event_id :: "rstr option"
  ti_ts :: "nat option"
  ti_sender :: "rstr option"
  ti_untrusted_body :: "rstr option"
  ti_suspicious :: bool
  ti_reply_count :: "nat option"

definition thread_root_info :: "rstr \<Rightarrow> TimelineEvent \<Rightarrow> ThreadRootInfo" where
  "thread_root_info room_id tle =
     (let value = tle_value tle;
          event_id = jstr_at value [''event_id''];
          sender = jstr_at value [''sender''];
          (untrusted, susp) = (case jstr_at value [''content'', ''body''] of
              None \<Rightarrow> (None, False)
            | Some b \<Rightarrow> let v = evaluate (Some room_id) sender event_id b in (Some (wrapped v), suspicious v))
      in \<lparr>ti_event_id = event_id, ti_ts = Option.bind (jget value ''origin_server_ts'') as_u64,
          ti_sender = sender, ti_untrusted_body = untrusted, ti_suspicious = susp,
          ti_reply_count = Option.bind
            (jpath value [''unsigned'', ''m.relations'', ''m.thread'', ''count'']) as_u64\<rparr>)"

definition list_threads_in_room ::
  "'b ToolEnv \<Rightarrow> RequestContext \<Rightarrow> ListThreadsParams \<Rightarrow> ('b, ThreadRootInfo list \<times> rstr option) tool" where
  "list_threads_in_room E ctx p =
     read_tool E ctx ''list_threads_in_room'' (Some (lt_room_id p)) (counted (\<lambda>r. length (fst r)))
     (bindT (rate_limit_check E ctx ReadCall) (\<lambda>_.
      bindT (client_for E ctx) (\<lambda>_.
      bindT (open_room E (lt_room_id p)) (\<lambda>room.
      bindT (askT ''list_threads''
               (GetThreads (lt_room_id p) (lt_only_participated p) (clamp_limit (lt_limit p) MAX_THREADS_LIMIT))
               (sd_threads (te_sdk E))) (\<lambda>(roots, prev_batch_token).
      returnT (map (thread_root_info (lt_room_id p)) roots, prev_batch_token))))))"

record SearchMessagesParams =
  sq_query :: rstr
  sq_room_id :: "rstr option"
  sq_limit :: nat

record SearchHit =
  sh_event_id :: "rstr option"
  sh_room_id :: rstr
  sh_sender :: "rstr option"
  sh_ts :: "nat option"
  sh_rank :: "rstr option"
  sh_body :: "rstr option"
  sh_untrusted_body :: "rstr option"
  sh_suspicious :: bool

definition search_hit :: "json option \<times> rstr option \<Rightarrow> SearchHit" where
  "search_hit result =
     (let raw_val = (case fst result of None \<Rightarrow> JNull | Some v \<Rightarrow> v);
          event_id = jstr_at raw_val [''event_id''];
          room_id = (case jstr_at raw_val [''room_id''] of None \<Rightarrow> [] | Some r \<Rightarrow> r);
          sender = jstr_at raw_val [''sender''];
          body = jstr_at raw_val [''content'', ''body''];
          (untrusted, susp) = (case body of
              None \<Rightarrow> (None, False)
            | Some b \<Rightarrow> let v = evaluate (Some room_id) sender event_id b in (Some (wrapped v), suspicious v))
      in \<lparr>sh_event_id = event_id, sh_room_id = room_id, sh_sender = sender,
          sh_ts = Option.bind (jget raw_val ''origin_server_ts'') as_u64, sh_rank = snd result,
          sh_body = body, sh_untrusted_body = untrusted, sh_suspicious = susp\<rparr>)"

definition search_messages ::
  "'b ToolEnv \<Rightarrow> RequestContext \<Rightarrow> SearchMessagesParams \<Rightarrow> ('b, SearchHit list \<times> nat) tool" where
  "search_messages E ctx p =
     read_tool E ctx ''search_messages'' (sq_room_id p) (counted (\<lambda>r. length (fst r)))
     (bindT (rate_limit_check E ctx ReadCall) (\<lambda>_.
      bindT (client_for E ctx) (\<lambda>_.
      let limit = min (sq_limit p) 100 in
      bindT (case sq_room_id p of
               None \<Rightarrow> returnT None
             | Some r \<Rightarrow> bindT (parse_id (te_room_err E) r) (\<lambda>rid. returnT (Some rid))) (\<lambda>scope.
      bindT (askT ''search'' (SearchEvents (sq_query p) scope limit) (sd_search (te_sdk E))) (\<lambda>answer.
      let hits = map search_hit (take limit (sa_results answer)) in
      returnT (hits, case sa_count answer of None \<Rightarrow> length hits | Some n \<Rightarrow> n))))))"

section \<open>Attachments\<close>

record DownloadAttachmentResult =
  da_content_type :: rstr
  da_size_bytes :: nat
  da_body_base64 :: rstr
  da_filename :: "rstr option"

text \<open>\<open>base64\<close> is the padded standard encoding of the base64 crate.\<close>

definition attachment_result ::
  "(rstr \<Rightarrow> rstr) \<Rightarrow> rstr \<Rightarrow> rstr \<Rightarrow> rstr option \<Rightarrow> DownloadAttachmentResult" where
  "attachment_result base64 bytes content_type filename =
     \<lparr>da_content_type = content_type, da_size_bytes = length bytes, da_body_base64 = base64 bytes,
      da_filename = filename\<rparr>"

definition fetch_media :: "'b ToolEnv \<Rightarrow> rstr \<Rightarrow> ('b, rstr) tool" where
  "fetch_media E source =
     bindT (seeT (\<lambda>h. sd_media (te_sdk E) h source)) (\<lambda>answer.
     bindT (emitT (Asked (GetMedia source))) (\<lambda>_. case answer of
       MediaTimedOut \<Rightarrow> failT (Internal_error ''media download timed out after 60s; aborting to bound memory use'')
     | MediaFailed e \<Rightarrow> failT (Internal_error (''media download: '' @ e))
     | Media bytes \<Rightarrow> returnT bytes))"

definition download_attachment ::
  "'b ToolEnv \<Rightarrow> (rstr \<Rightarrow> rstr) \<Rightarrow> RequestContext \<Rightarrow> rstr \<Rightarrow> rstr \<Rightarrow> ('b, DownloadAttachmentResult) tool" where
  "download_attachment E base64 ctx room_id event_id =
     read_tool E ctx ''download_attachment'' (Some room_id) (\<lambda>r. Some 1)
     (bindT (rate_limit_check E ctx ReadCall) (\<lambda>_.
      bindT (client_for E ctx) (\<lambda>_.
      bindT (open_room E room_id) (\<lambda>room.
      bindT (require_joined room) (\<lambda>_.
      bindT (parse_id (te_event_err E) event_id) (\<lambda>ev.
      bindT (askT ''fetch event'' (GetEvent room_id ev) (sd_event (te_sdk E))) (\<lambda>tle.
      bindT (someT (Option.bind (jget (tle_value tle) ''content'') (sd_message_content (te_sdk E))) Invalid_params) (\<lambda>content.
      case content of
        OtherMessage _ _ \<Rightarrow> failT Invalid_params
      | MediaMessage source mimetype declared filename _ \<Rightarrow>
          bindT (ensureT (\<not> (case declared of None \<Rightarrow> False | Some n \<Rightarrow> te_download_max E < n)) Invalid_params) (\<lambda>_.
          bindT (fetch_media E source) (\<lambda>bytes.
          bindT (ensureT (length bytes \<le> te_download_max E) Invalid_params) (\<lambda>_.
          returnT (attachment_result base64 bytes
            (case mimetype of None \<Rightarrow> ''application/octet-stream'' | Some m \<Rightarrow> m) (Some filename)))))))))))))"

section \<open>Room keys\<close>

text \<open>A refusal by the gate is an error here: the cooldown as invalid parameters, the bound on
  concurrent pulls with the code of the rate limiter.\<close>

definition acquire_pull :: "'b ToolEnv \<Rightarrow> rstr \<Rightarrow> rstr \<Rightarrow> ('b, cooldown_key) tool" where
  "acquire_pull E caller_sub room_id w =
     (let (a, g) = try_acquire (te_now E (tw_trace w)) caller_sub room_id (tw_gate w)
      in (case a of Permit k \<Rightarrow> Inr k | Cooling \<Rightarrow> Inl Invalid_params | GateBusy \<Rightarrow> Inl Rate_limited,
          w\<lparr>tw_gate := g\<rparr>))"

text \<open>\<open>sd_pull_keys\<close> is whether the download ended in time and without an error.\<close>

definition pull_keys :: "'b ToolEnv \<Rightarrow> cooldown_key \<Rightarrow> ('b, bool) tool" where
  "pull_keys E k w =
     (let requested = sd_pull_keys (te_sdk E) (tw_trace w) (snd k);
          w = w\<lparr>tw_trace := tw_trace w @ [Asked (PullRoomKeys (snd k))]\<rparr>
      in (Inr requested, w\<lparr>tw_gate := pull_finished (te_now E (tw_trace w)) requested k (tw_gate w)\<rparr>))"

definition request_room_keys :: "'b ToolEnv \<Rightarrow> RequestContext \<Rightarrow> rstr \<Rightarrow> ('b, rstr \<times> bool) tool" where
  "request_room_keys E ctx room_id = notice_first_tool E ctx ''request_room_keys'' (Some room_id)
     (bindT (rate_limit_check E ctx ReadCall) (\<lambda>_.
      bindT (client_for E ctx) (\<lambda>_.
      bindT (open_room E room_id) (\<lambda>room.
      bindT (require_joined room) (\<lambda>_.
      bindT (ensureT (rm_encrypted room) Invalid_params) (\<lambda>_.
      bindT (someT (ctx_identity ctx) missing_identity_err) (\<lambda>ident.
      bindT (acquire_pull E (mas_subject ident) room_id) (\<lambda>k.
      bindT (pull_keys E k) (\<lambda>requested.
      returnT (room_id, requested))))))))))"

end
