(* ===== verification/AccountTools.thy ===== *)
theory AccountTools
  imports MediaTools
begin

text \<open>
  The handlers of \<open>src/mcp.rs\<close> on the caller's own account: identity, cross-signing,
  profile, ignored users, account data and presence. The parser and the printer of serde_json are
  arguments of \<open>set_account_data\<close>.
\<close>

section \<open>Identity\<close>

text \<open>No request is made, so there is no reaction to an expired session.\<close>

definition whoami :: "'b ToolEnv \<Rightarrow> RequestContext \<Rightarrow> ('b, rstr \<times> rstr option) tool" where
  "whoami E ctx w =
     (let (r, w) = bindT (rate_limit_check E ctx ReadCall) (\<lambda>_.
            bindT (someT (ctx_identity ctx) missing_identity_err) (\<lambda>ident.
            returnT (mxid ident, id_device ident))) w
      in (r, add_effects [emit_tool_audit E ''whoami'' ctx None None r] w))"

text \<open>The identity known to the homeserver, or the cached one; a failed query is passed to
  \<open>on_failure\<close>.\<close>

definition user_identity :: "'b ToolEnv \<Rightarrow> rstr \<Rightarrow> (rstr \<Rightarrow> ('b, bool) tool) \<Rightarrow> ('b, bool) tool" where
  "user_identity E me on_failure =
     bindT (tryAskT (QueryIdentity me) (sd_identity (te_sdk E))) (\<lambda>answer. case answer of
       Inr True \<Rightarrow> returnT True
     | Inr False \<Rightarrow> askT ''get_user_identity'' (CachedIdentity me) (sd_identity (te_sdk E))
     | Inl e \<Rightarrow> on_failure e)"

definition cross_signed_device :: "'b ToolEnv \<Rightarrow> rstr \<Rightarrow> ('b, bool) tool" where
  "cross_signed_device E me = (case sd_device_id (te_sdk E) of
      None \<Rightarrow> returnT False
    | Some did \<Rightarrow> bindT (askT ''get_device'' (GetDevice me did) (sd_device (te_sdk E))) (\<lambda>device.
        returnT (device = Some True)))"

text \<open>Which of the three texts is given, with the URL it names.\<close>

datatype VerifyMessage = NoIdentityYet rstr | DeviceSigned | DeviceUnsigned rstr

record VerifyStatusResult =
  vs_cross_signed :: bool
  vs_user_has_master_key :: bool
  vs_message :: VerifyMessage

definition verify_status :: "'b ToolEnv \<Rightarrow> RequestContext \<Rightarrow> ('b, VerifyStatusResult) tool" where
  "verify_status E ctx = read_tool E ctx ''verify_status'' None uncounted
     (bindT (rate_limit_check E ctx ReadCall) (\<lambda>_.
      bindT (client_for E ctx) (\<lambda>_.
      bindT (someT (sd_user_id (te_sdk E)) (Internal_error ''no user_id on client'')) (\<lambda>me.
      bindT (user_identity E me
               (\<lambda>_. askT ''get_user_identity'' (CachedIdentity me) (sd_identity (te_sdk E)))) (\<lambda>has_master_key.
      bindT (cross_signed_device E me) (\<lambda>cross_signed.
      returnT \<lparr>vs_cross_signed = cross_signed, vs_user_has_master_key = has_master_key,
        vs_message = (if \<not> has_master_key then NoIdentityYet (te_setup_url E)
                      else if cross_signed then DeviceSigned else DeviceUnsigned (te_setup_url E))\<rparr>))))))"

datatype BootstrapMessage = NotInSecretStorage | CreatedAndSigned | CreatedNotSigned

record BootstrapCrossSigningResult =
  bs_mxid :: rstr
  bs_device_id :: "rstr option"
  bs_cross_signed :: bool
  bs_recovery_enabled :: bool
  bs_message :: BootstrapMessage

definition refused_unconfirmed :: "rstr \<Rightarrow> ErrorData" where
  "refused_unconfirmed e = Internal_error (''could not confirm whether a cross-signing identity already exists ('' @ e
     @ ''); refusing to bootstrap'')"

definition create_identity :: "'b ToolEnv \<Rightarrow> ('b, unit) tool" where
  "create_identity E = bindT (tryDoT E BootstrapIdentity) (\<lambda>r. case r of
      Inl e \<Rightarrow> failT (Internal_error (''bootstrap_cross_signing: '' @ e
        @ ''. A homeserver that requires interactive auth for the first cross-signing upload cannot be bootstrapped this way.''))
    | Inr _ \<Rightarrow> returnT ())"

text \<open>A write that is audited but sends no notice; without Secret Storage the identity still
  counts as created.\<close>

definition bootstrap_cross_signing ::
  "'b ToolEnv \<Rightarrow> RequestContext \<Rightarrow> ('b, BootstrapCrossSigningResult) tool" where
  "bootstrap_cross_signing E ctx = read_tool E ctx ''bootstrap_cross_signing'' None uncounted
     (bindT (rate_limit_check E ctx WriteCall) (\<lambda>_.
      bindT (client_for E ctx) (\<lambda>_.
      bindT (someT (sd_user_id (te_sdk E)) (Internal_error ''no user_id on client'')) (\<lambda>me.
      bindT (user_identity E me (\<lambda>e. failT (refused_unconfirmed e))) (\<lambda>existing.
      bindT (ensureT (\<not> existing) Invalid_params) (\<lambda>_.
      bindT (create_identity E) (\<lambda>_.
      bindT (tryDoT E EnableRecovery) (\<lambda>recovery.
      bindT (tryAskT (QueryIdentity me) (sd_identity (te_sdk E))) (\<lambda>_.
      bindT (cross_signed_device E me) (\<lambda>cross_signed.
      let enabled = \<not> isl recovery in
      returnT \<lparr>bs_mxid = me, bs_device_id = sd_device_id (te_sdk E), bs_cross_signed = cross_signed,
        bs_recovery_enabled = enabled,
        bs_message = (if \<not> enabled then NotInSecretStorage
                      else if cross_signed then CreatedAndSigned else CreatedNotSigned)\<rparr>))))))))))"

section \<open>Profile\<close>

definition me_set_displayname :: "'b ToolEnv \<Rightarrow> RequestContext \<Rightarrow> rstr option \<Rightarrow> ('b, rstr option) tool" where
  "me_set_displayname E ctx display_name = write_tool E ctx ''me_set_displayname'' None
     (bindT (rate_limit_check E ctx WriteCall) (\<lambda>_.
      bindT (ensureT (\<not> (case display_name of None \<Rightarrow> False | Some s \<Rightarrow> 256 < length s)) Invalid_params) (\<lambda>_.
      bindT (client_for E ctx) (\<lambda>_.
      bindT (doT E ''set_display_name'' (SetDisplayName display_name)) (\<lambda>_.
      returnT display_name)))))"

definition me_set_avatar :: "'b ToolEnv \<Rightarrow> RequestContext \<Rightarrow> rstr option \<Rightarrow> ('b, rstr option) tool" where
  "me_set_avatar E ctx image_url = write_tool E ctx ''me_set_avatar'' None
     (bindT (rate_limit_check E ctx WriteCall) (\<lambda>_.
      bindT (client_for E ctx) (\<lambda>_.
      bindT (case image_url of
               None \<Rightarrow> returnT None
             | Some url \<Rightarrow> bindT (upload_image_from_url E url) (\<lambda>uri. returnT (Some uri))) (\<lambda>uri.
      bindT (doT E ''set_avatar_url'' (SetAvatar uri)) (\<lambda>_.
      returnT uri)))))"

definition users_get_profile ::
  "'b ToolEnv \<Rightarrow> RequestContext \<Rightarrow> rstr \<Rightarrow> ('b, rstr \<times> rstr option \<times> rstr option) tool" where
  "users_get_profile E ctx user_id = read_tool E ctx ''users_get_profile'' None uncounted
     (bindT (rate_limit_check E ctx ReadCall) (\<lambda>_.
      bindT (client_for E ctx) (\<lambda>_.
      bindT (parse_id (te_user_err E) user_id) (\<lambda>user.
      bindT (askT ''fetch_user_profile_of'' (GetProfile user) (sd_profile (te_sdk E))) (\<lambda>profile.
      returnT (user_id, jstr_at profile [''displayname''], jstr_at profile [''avatar_url'']))))))"

section \<open>Ignored users\<close>

definition ignore_user :: "'b ToolEnv \<Rightarrow> RequestContext \<Rightarrow> rstr \<Rightarrow> ('b, rstr) tool" where
  "ignore_user E ctx user_id = notice_first_tool E ctx ''ignore_user'' None
     (bindT (rate_limit_check E ctx WriteCall) (\<lambda>_.
      bindT (client_for E ctx) (\<lambda>_.
      bindT (parse_id (te_user_err E) user_id) (\<lambda>user.
      bindT (doT E ''ignore_user'' (IgnoreUser user)) (\<lambda>_.
      returnT user)))))"

definition unignore_user :: "'b ToolEnv \<Rightarrow> RequestContext \<Rightarrow> rstr \<Rightarrow> ('b, rstr) tool" where
  "unignore_user E ctx user_id = notice_first_tool E ctx ''unignore_user'' None
     (bindT (rate_limit_check E ctx WriteCall) (\<lambda>_.
      bindT (client_for E ctx) (\<lambda>_.
      bindT (parse_id (te_user_err E) user_id) (\<lambda>user.
      bindT (doT E ''unignore_user'' (UnignoreUser user)) (\<lambda>_.
      returnT user)))))"

definition list_ignored_users :: "'b ToolEnv \<Rightarrow> RequestContext \<Rightarrow> ('b, rstr list) tool" where
  "list_ignored_users E ctx = read_tool E ctx ''list_ignored_users'' None (counted length)
     (bindT (rate_limit_check E ctx ReadCall) (\<lambda>_.
      bindT (client_for E ctx) (\<lambda>_.
      bindT (askT ''account_data'' (GetAccountData ''m.ignored_user_list'') (sd_account_data (te_sdk E))) (\<lambda>raw.
      returnT (case Option.bind raw (sd_ignored_list (te_sdk E)) of None \<Rightarrow> [] | Some users \<Rightarrow> users)))))"

section \<open>Account data\<close>

definition get_account_data ::
  "'b ToolEnv \<Rightarrow> RequestContext \<Rightarrow> rstr \<Rightarrow> ('b, rstr \<times> json option) tool" where
  "get_account_data E ctx event_type = read_tool E ctx ''get_account_data'' None uncounted
     (bindT (rate_limit_check E ctx ReadCall) (\<lambda>_.
      bindT (client_for E ctx) (\<lambda>_.
      bindT (askT ''account_data_raw'' (GetAccountData event_type) (sd_account_data (te_sdk E))) (\<lambda>content.
      returnT (event_type, content)))))"

record JsonText =
  jt_parse :: "rstr \<Rightarrow> json option"
  jt_print :: "json \<Rightarrow> rstr option"

text \<open>A string that holds JSON is taken for that JSON.\<close>

definition canonical_content :: "JsonText \<Rightarrow> json \<Rightarrow> json" where
  "canonical_content J content = (case content of
      JStr s \<Rightarrow> (case jt_parse J s of None \<Rightarrow> content | Some v \<Rightarrow> v)
    | _ \<Rightarrow> content)"

definition set_account_data ::
  "'b ToolEnv \<Rightarrow> JsonText \<Rightarrow> RequestContext \<Rightarrow> rstr \<Rightarrow> json \<Rightarrow> ('b, rstr) tool" where
  "set_account_data E J ctx event_type content = notice_first_tool E ctx ''set_account_data'' None
     (bindT (rate_limit_check E ctx WriteCall) (\<lambda>_.
      bindT (ensureT (\<not> account_data_event_type_is_reserved event_type) Invalid_params) (\<lambda>_.
      bindT (client_for E ctx) (\<lambda>_.
      let canonical = canonical_content J content in
      bindT (ensureT (as_object canonical \<noteq> None) Invalid_params) (\<lambda>_.
      bindT (someT (jt_print J canonical) Invalid_params) (\<lambda>raw_bytes.
      bindT (ensureT (length raw_bytes \<le> MAX_ACCOUNT_DATA_CONTENT_BYTES) Invalid_params) (\<lambda>_.
      bindT (doT E ''set_account_data_raw'' (SetAccountData event_type canonical)) (\<lambda>_.
      returnT event_type))))))))"

section \<open>Presence\<close>

record PresenceInfo =
  pi_user_id :: rstr
  pi_answer :: PresenceAnswer

definition get_presence :: "'b ToolEnv \<Rightarrow> RequestContext \<Rightarrow> rstr option \<Rightarrow> ('b, PresenceInfo) tool" where
  "get_presence E ctx user_id = read_tool E ctx ''get_presence'' None uncounted
     (bindT (rate_limit_check E ctx ReadCall) (\<lambda>_.
      bindT (client_for E ctx) (\<lambda>_.
      bindT (someT (case user_id of Some u \<Rightarrow> Some u | None \<Rightarrow> map_option mxid (ctx_identity ctx))
               Invalid_params) (\<lambda>raw_user_id.
      bindT (parse_id (te_user_err E) raw_user_id) (\<lambda>user.
      bindT (askT ''get_presence'' (GetPresence user) (sd_presence (te_sdk E))) (\<lambda>answer.
      returnT \<lparr>pi_user_id = user, pi_answer = answer\<rparr>))))))"

definition set_presence ::
  "'b ToolEnv \<Rightarrow> RequestContext \<Rightarrow> rstr \<Rightarrow> rstr option \<Rightarrow> ('b, rstr) tool" where
  "set_presence E ctx presence status_msg = notice_first_tool E ctx ''set_presence'' None
     (bindT (rate_limit_check E ctx WriteCall) (\<lambda>_.
      bindT (client_for E ctx) (\<lambda>_.
      bindT (someT (ctx_identity ctx)
               (Internal_error ''auth middleware did not populate identity'')) (\<lambda>ident.
      bindT (case te_user_err E (mxid ident) of
               None \<Rightarrow> returnT (mxid ident)
             | Some e \<Rightarrow> failT (Internal_error (''parse own mxid: '' @ e))) (\<lambda>user.
      bindT (doT E ''set_presence'' (SetPresence user presence status_msg)) (\<lambda>_.
      returnT presence))))))"

end
