(* ===== verification/ToolDispatch.thy ===== *)
theory ToolDispatch
  imports MessageTools RoomTools ReadTools AccountTools
begin

text \<open>
  The tool router of \<open>src/mcp.rs\<close>: every tool call with its parameters, the handler it
  goes to, and the narrowing of the router to the tools of a channel session. The serialised result
  of a call is left out: a call is what it does and whether it fails.
\<close>

section \<open>Calls\<close>

datatype ToolCall =
    Whoami
  | ListJoinedRooms
  | ReadRecentMessages ReadRecentMessagesParams
  | ReadThread ReadThreadParams
  | ReadReactions ReadReactionsParams
  | SendTextMessage SendTextMessageParams
  | MessageEdit MessageEditParams
  | MessageForward MessageForwardParams
  | VerifyStatus
  | BootstrapCrossSigning
  | RoomInfo rstr
  | RoomMembers rstr nat
  | GetUnreadSummary bool
  | ListRecentActivity ListRecentActivityParams
  | RequestRoomKeys rstr
  | GetUserReceipts GetUserReceiptsParams
  | GetEventReceipts rstr rstr
  | ListThreadsInRoom ListThreadsParams
  | GetRoomState GetRoomStateParams
  | SetRoomName SetRoomTextParams
  | SetRoomTopic SetRoomTextParams
  | IgnoreUserTool rstr
  | UnignoreUserTool rstr
  | ListIgnoredUsers
  | MarkRead MarkReadParams
  | React SendReactionParams
  | RedactMessage RedactMessageParams
  | RoomMembership RoomMembershipParams MembershipAction
  | AdminGetPowerLevels rstr
  | AdminSetPowerLevel AdminSetPowerLevelParams
  | RoomPin RoomPinParams bool
  | DownloadAttachment rstr rstr
  | SendImageFromUrl SendImageFromUrlParams
  | SendFile SendFileFromUrlParams
  | SendVideo SendMediaFromUrlParams
  | SendAudio SendMediaFromUrlParams
  | SendVoiceMessage SendVoiceMessageParams
  | SendTtsVoiceMessage SendTtsVoiceMessageParams
  | SendBulk SendBulkParams
  | SendBroadcast SendBroadcastParams
  | MeSetDisplayname "rstr option"
  | MeSetAvatar "rstr option"
  | UsersGetProfile rstr
  | SearchMessages SearchMessagesParams
  | JoinRoom rstr
  | LeaveRoomTool rstr
  | InviteUserTool rstr rstr
  | RoomCreate RoomCreateParams
  | RoomCreateDm rstr
  | InvitesList
  | InvitesAccept rstr
  | InvitesReject rstr
  | GetAccountDataTool rstr
  | SetAccountDataTool rstr json
  | UploadMediaFromUrl rstr
  | GetPresenceTool "rstr option"
  | SetPresenceTool rstr "rstr option"
  | GetSpaceHierarchy GetSpaceHierarchyParams
  | SetAuditRoom rstr

fun tool_name :: "ToolCall \<Rightarrow> rstr" where
  "tool_name (Whoami) = ''whoami''"
| "tool_name (ListJoinedRooms) = ''list_joined_rooms''"
| "tool_name (ReadRecentMessages p) = ''read_recent_messages''"
| "tool_name (ReadThread p) = ''read_thread''"
| "tool_name (ReadReactions p) = ''read_reactions''"
| "tool_name (SendTextMessage p) = ''send_text_message''"
| "tool_name (MessageEdit p) = ''message_edit''"
| "tool_name (MessageForward p) = ''message_forward''"
| "tool_name (VerifyStatus) = ''verify_status''"
| "tool_name (BootstrapCrossSigning) = ''bootstrap_cross_signing''"
| "tool_name (RoomInfo p) = ''room_info''"
| "tool_name (RoomMembers p q) = ''room_members''"
| "tool_name (GetUnreadSummary p) = ''get_unread_summary''"
| "tool_name (ListRecentActivity p) = ''list_recent_activity''"
| "tool_name (RequestRoomKeys p) = ''request_room_keys''"
| "tool_name (GetUserReceipts p) = ''get_user_receipts''"
| "tool_name (GetEventReceipts p q) = ''get_event_receipts''"
| "tool_name (ListThreadsInRoom p) = ''list_threads_in_room''"
| "tool_name (GetRoomState p) = ''get_room_state''"
| "tool_name (SetRoomName p) = ''set_room_name''"
| "tool_name (SetRoomTopic p) = ''set_room_topic''"
| "tool_name (IgnoreUserTool p) = ''ignore_user''"
| "tool_name (UnignoreUserTool p) = ''unignore_user''"
| "tool_name (ListIgnoredUsers) = ''list_ignored_users''"
| "tool_name (MarkRead p) = ''mark_read''"
| "tool_name (React p) = ''send_reaction''"
| "tool_name (RedactMessage p) = ''redact_message''"
| "tool_name (RoomMembership p q) = membership_tool_name q"
| "tool_name (AdminGetPowerLevels p) = ''admin_get_power_levels''"
| "tool_name (AdminSetPowerLevel p) = ''admin_set_power_level''"
| "tool_name (RoomPin p q) = (if q then ''room_pin_message'' else ''room_unpin_message'')"
| "tool_name (DownloadAttachment p q) = ''download_attachment''"
| "tool_name (SendImageFromUrl p) = ''send_image_from_url''"
| "tool_name (SendFile p) = ''send_file''"
| "tool_name (SendVideo p) = ''send_video''"
| "tool_name (SendAudio p) = ''send_audio''"
| "tool_name (SendVoiceMessage p) = ''send_voice_message''"
| "tool_name (SendTtsVoiceMessage p) = ''send_tts_voice_message''"
| "tool_name (SendBulk p) = ''send_bulk''"
| "tool_name (SendBroadcast p) = ''send_broadcast''"
| "tool_name (MeSetDisplayname p) = ''me_set_displayname''"
| "tool_name (MeSetAvatar p) = ''me_set_avatar''"
| "tool_name (UsersGetProfile p) = ''users_get_profile''"
| "tool_name (SearchMessages p) = ''search_messages''"
| "tool_name (JoinRoom p) = ''join_room''"
| "tool_name (LeaveRoomTool p) = ''leave_room''"
| "tool_name (InviteUserTool p q) = ''invite_user''"
| "tool_name (RoomCreate p) = ''room_create''"
| "tool_name (RoomCreateDm p) = ''room_create_dm''"
| "tool_name (InvitesList) = ''invites_list''"
| "tool_name (InvitesAccept p) = ''invites_accept''"
| "tool_name (InvitesReject p) = ''invites_reject''"
| "tool_name (GetAccountDataTool p) = ''get_account_data''"
| "tool_name (SetAccountDataTool p q) = ''set_account_data''"
| "tool_name (UploadMediaFromUrl p) = ''upload_media_from_url''"
| "tool_name (GetPresenceTool p) = ''get_presence''"
| "tool_name (SetPresenceTool p q) = ''set_presence''"
| "tool_name (GetSpaceHierarchy p) = ''get_space_hierarchy''"
| "tool_name (SetAuditRoom p) = ''set_audit_room''"

text \<open>What the handlers use of third-party code beside the SDK, and the fuel of the page loop.\<close>

record 'e ToolLibs =
  tl_tts :: "'e TtsEnv"
  tl_json :: JsonText
  tl_base64 :: "rstr \<Rightarrow> rstr"
  tl_page_fuel :: nat

definition effects_of :: "('b, 'a) tool \<Rightarrow> ('b, unit) tool" where
  "effects_of m = bindT m (\<lambda>_. returnT ())"

fun call_tool :: "'b ToolEnv \<Rightarrow> 'e ToolLibs \<Rightarrow> RequestContext \<Rightarrow> ToolCall \<Rightarrow> ('b, unit) tool" where
  "call_tool E L ctx (Whoami) = effects_of (whoami E ctx)"
| "call_tool E L ctx (ListJoinedRooms) = effects_of (list_joined_rooms E ctx)"
| "call_tool E L ctx (ReadRecentMessages p) = effects_of (read_recent_messages E ctx p)"
| "call_tool E L ctx (ReadThread p) = effects_of (read_thread E ctx p)"
| "call_tool E L ctx (ReadReactions p) = effects_of (read_reactions (tl_page_fuel L) E ctx p)"
| "call_tool E L ctx (SendTextMessage p) = effects_of (send_text_message E ctx p)"
| "call_tool E L ctx (MessageEdit p) = effects_of (message_edit E ctx p)"
| "call_tool E L ctx (MessageForward p) = effects_of (message_forward E ctx p)"
| "call_tool E L ctx (VerifyStatus) = effects_of (verify_status E ctx)"
| "call_tool E L ctx (BootstrapCrossSigning) = effects_of (bootstrap_cross_signing E ctx)"
| "call_tool E L ctx (RoomInfo p) = effects_of (room_info E ctx p)"
| "call_tool E L ctx (RoomMembers p q) = effects_of (room_members E ctx p q)"
| "call_tool E L ctx (GetUnreadSummary p) = effects_of (get_unread_summary E ctx p)"
| "call_tool E L ctx (ListRecentActivity p) = effects_of (list_recent_activity E ctx p)"
| "call_tool E L ctx (RequestRoomKeys p) = effects_of (request_room_keys E ctx p)"
| "call_tool E L ctx (GetUserReceipts p) = effects_of (get_user_receipts E ctx p)"
| "call_tool E L ctx (GetEventReceipts p q) = effects_of (get_event_receipts E ctx p q)"
| "call_tool E L ctx (ListThreadsInRoom p) = effects_of (list_threads_in_room E ctx p)"
| "call_tool E L ctx (GetRoomState p) = effects_of (get_room_state E ctx p)"
| "call_tool E L ctx (SetRoomName p) = effects_of (set_room_name E ctx p)"
| "call_tool E L ctx (SetRoomTopic p) = effects_of (set_room_topic E ctx p)"
| "call_tool E L ctx (IgnoreUserTool p) = effects_of (ignore_user E ctx p)"
| "call_tool E L ctx (UnignoreUserTool p) = effects_of (unignore_user E ctx p)"
| "call_tool E L ctx (ListIgnoredUsers) = effects_of (list_ignored_users E ctx)"
| "call_tool E L ctx (MarkRead p) = effects_of (mark_read E ctx p)"
| "call_tool E L ctx (React p) = effects_of (send_reaction E ctx p)"
| "call_tool E L ctx (RedactMessage p) = effects_of (redact_message E ctx p)"
| "call_tool E L ctx (RoomMembership p q) = effects_of (membership_change E ctx p q)"
| "call_tool E L ctx (AdminGetPowerLevels p) = effects_of (admin_get_power_levels E ctx p)"
| "call_tool E L ctx (AdminSetPowerLevel p) = effects_of (admin_set_power_level E ctx p)"
| "call_tool E L ctx (RoomPin p q) = effects_of (toggle_pin E ctx p q)"
| "call_tool E L ctx (DownloadAttachment p q) = effects_of (download_attachment E (tl_base64 L) ctx p q)"
| "call_tool E L ctx (SendImageFromUrl p) = effects_of (send_image_from_url E ctx p)"
| "call_tool E L ctx (SendFile p) = effects_of (send_file E ctx p)"
| "call_tool E L ctx (SendVideo p) = effects_of (send_video E ctx p)"
| "call_tool E L ctx (SendAudio p) = effects_of (send_audio E ctx p)"
| "call_tool E L ctx (SendVoiceMessage p) = effects_of (send_voice_message E ctx p)"
| "call_tool E L ctx (SendTtsVoiceMessage p) = effects_of (send_tts_voice_message E (tl_tts L) ctx p)"
| "call_tool E L ctx (SendBulk p) = effects_of (send_bulk E ctx p)"
| "call_tool E L ctx (SendBroadcast p) = effects_of (send_broadcast E ctx p)"
| "call_tool E L ctx (MeSetDisplayname p) = effects_of (me_set_displayname E ctx p)"
| "call_tool E L ctx (MeSetAvatar p) = effects_of (me_set_avatar E ctx p)"
| "call_tool E L ctx (UsersGetProfile p) = effects_of (users_get_profile E ctx p)"
| "call_tool E L ctx (SearchMessages p) = effects_of (search_messages E ctx p)"
| "call_tool E L ctx (JoinRoom p) = effects_of (join_room E ctx p)"
| "call_tool E L ctx (LeaveRoomTool p) = effects_of (leave_room E ctx p)"
| "call_tool E L ctx (InviteUserTool p q) = effects_of (invite_user E ctx p q)"
| "call_tool E L ctx (RoomCreate p) = effects_of (room_create E ctx p)"
| "call_tool E L ctx (RoomCreateDm p) = effects_of (room_create_dm E ctx p)"
| "call_tool E L ctx (InvitesList) = effects_of (invites_list E ctx)"
| "call_tool E L ctx (InvitesAccept p) = effects_of (invites_accept E ctx p)"
| "call_tool E L ctx (InvitesReject p) = effects_of (invites_reject E ctx p)"
| "call_tool E L ctx (GetAccountDataTool p) = effects_of (get_account_data E ctx p)"
| "call_tool E L ctx (SetAccountDataTool p q) = effects_of (set_account_data E (tl_json L) ctx p q)"
| "call_tool E L ctx (UploadMediaFromUrl p) = effects_of (upload_media_from_url E ctx p)"
| "call_tool E L ctx (GetPresenceTool p) = effects_of (get_presence E ctx p)"
| "call_tool E L ctx (SetPresenceTool p q) = effects_of (set_presence E ctx p q)"
| "call_tool E L ctx (GetSpaceHierarchy p) = effects_of (get_space_hierarchy E ctx p)"
| "call_tool E L ctx (SetAuditRoom p) = effects_of (set_audit_room E ctx p)"

section \<open>The two mounts\<close>

definition CHANNEL_TOOLS :: "rstr list" where
  "CHANNEL_TOOLS = [''whoami'', ''list_joined_rooms'', ''read_recent_messages'', ''read_thread'',
     ''send_text_message'', ''send_reaction'', ''mark_read'', ''download_attachment'']"

text \<open>\<open>into_channel_mode\<close> removes every other route from the router.\<close>

definition into_channel_mode :: "rstr list \<Rightarrow> rstr list" where
  "into_channel_mode routes = filter (\<lambda>r. r \<in> set CHANNEL_TOOLS) routes"

text \<open>A call whose tool is not in the router does nothing at all.\<close>

definition dispatch ::
  "'b ToolEnv \<Rightarrow> 'e ToolLibs \<Rightarrow> rstr list \<Rightarrow> RequestContext \<Rightarrow> ToolCall \<Rightarrow> ('b, unit) tool" where
  "dispatch E L routes ctx call =
     (if tool_name call \<in> set routes then call_tool E L ctx call else failT Invalid_params)"

end
