(* ===== verification/ToolSample.thy ===== *)
theory ToolSample
  imports ToolDispatch
begin

text \<open>
  A service to evaluate calls on: a homeserver that accepts every write, one joined encrypted room, a
  caller with a token, and a limiter whose buckets grant their quota once.
\<close>

definition kind_room :: "rstr \<Rightarrow> Room" where
  "kind_room r = \<lparr>rm_id = r, rm_state = Joined, rm_encrypted = True, rm_display_name = Some ''room'', rm_name = None,
     rm_topic = None, rm_joined = 2, rm_active = 2, rm_notifications = 0, rm_highlights = 0, rm_unread = 0,
     rm_latest = \<lparr>le_event_id = Some ''$1'', le_timestamp = Some 7, le_remote = None\<rparr>\<rparr>"

definition kind_event :: TimelineEvent where
  "kind_event = \<lparr>tle_kind = PlainText, tle_raw = Some (JObj [(''content'', JObj [(''body'', JStr ''hi'')])])\<rparr>"

text \<open>Two pages of relations, the first with a reaction.\<close>

definition kind_reaction :: TimelineEvent where
  "kind_reaction = \<lparr>tle_kind = Decrypted, tle_raw = Some (JObj [(''event_id'', JStr ''$9''), (''sender'', JStr ''@b:x''),
     (''content'', JObj [(''m.relates_to'', JObj [(''rel_type'', JStr ''m.annotation''), (''event_id'', JStr ''$1''),
       (''key'', JStr ''+1'')])])])\<rparr>"

definition kind_pages :: "rstr option \<Rightarrow> RelationsPage" where
  "kind_pages start = (case start of
      None \<Rightarrow> \<lparr>rp_chunk = [kind_reaction], rp_next = Some ''t''\<rparr> | Some _ \<Rightarrow> \<lparr>rp_chunk = [], rp_next = None\<rparr>)"

definition kind_sdk :: Sdk where
  "kind_sdk = \<lparr>sd_for_user = \<lambda>_ _ _. None, sd_user_id = Some ''@a:x'', sd_device_id = None,
     sd_get_room = \<lambda>_ r. Some (kind_room r), sd_joined_rooms = \<lambda>_. [kind_room ''!r:x''], sd_invited_rooms = \<lambda>_. [],
     sd_write = \<lambda>_ _. Inr ''$2'', sd_messages = \<lambda>_ _. Inr \<lparr>mp_start = ''s'', mp_end = None, mp_chunk = []\<rparr>,
     sd_relations = \<lambda>_ q. (case q of GetRelations _ _ _ _ start \<Rightarrow> Inr (kind_pages start) | _ \<Rightarrow> Inl []), sd_event = \<lambda>_ _. Inr kind_event,
     sd_power_levels = \<lambda>_ _. Inr \<lparr>pl_users = [], pl_users_default = 0, pl_for = \<lambda>_. PlInt 50\<rparr>,
     sd_user_receipt = \<lambda>_ _. Inr None, sd_event_receipts = \<lambda>_ _. Inr [], sd_threads = \<lambda>_ _. Inr ([], None),
     sd_state_events = \<lambda>_ _. Inr [], sd_pinned = \<lambda>_ _. Inr NoPins, sd_account_data = \<lambda>_ _. Inr None,
     sd_profile = \<lambda>_ _. Inr (JObj []), sd_search = \<lambda>_ _. Inr \<lparr>sa_count = None, sa_results = []\<rparr>,
     sd_members = \<lambda>_ _. Inr [], sd_hierarchy = \<lambda>_ _. Inr ([], None),
     sd_presence = \<lambda>_ _. Inr \<lparr>pa_presence = ''online'', pa_status_msg = None, pa_active = None, pa_last_active = None\<rparr>,
     sd_identity = \<lambda>_ _. Inr False, sd_device = \<lambda>_ _. Inr None, sd_media = \<lambda>_ _. Media ''data'',
     sd_pull_keys = \<lambda>_ _. True, sd_original_sender = \<lambda>_. Inr ''@a:x'', sd_message_content = \<lambda>_. None,
     sd_ignored_list = \<lambda>_. None\<rparr>"

definition kind_web :: Web where
  "kind_web = \<lparr>wb_normal = Some, wb_head = \<lambda>_. Head 200 None, wb_join = \<lambda>_ u. Some u, wb_validate = \<lambda>_. True,
     wb_get = \<lambda>_. Get 200 (Some ''image/png'') (Some 1) [Inr ''x''], wb_mime = Some, wb_essence = \<lambda>m. m\<rparr>"

definition kind_env :: "nat ToolEnv" where
  "kind_env = \<lparr>te_sdk = kind_sdk, te_web = kind_web, te_now = length, te_fresh = \<lambda>n. n, te_take = take_once,
     te_token_hash = \<lambda>t. t, te_room_err = \<lambda>_. None, te_event_err = \<lambda>_. None, te_user_err = \<lambda>_. None,
     te_alias_err = \<lambda>_. None, te_upload_max = 10, te_download_max = 10, te_setup_url = ''https://x/setup''\<rparr>"

definition kind_caller :: AuthenticatedIdentity where
  "kind_caller = \<lparr>mas_subject = ''sub'', mxid = ''@a:x'', id_device = None, raw_scope = None, id_exp = None\<rparr>"

definition kind_ctx :: RequestContext where
  "kind_ctx = \<lparr>ctx_identity = Some kind_caller, ctx_token = Some ''tok''\<rparr>"

definition kind_world :: "nat ToolWorld" where
  "kind_world = \<lparr>tw_limiter = \<lparr>reads_per_min = 5, writes_per_min = 5, bearer_read = [], bearer_write = [], sub_read = [],
     sub_write = []\<rparr>, tw_gate = new_gate, tw_trace = []\<rparr>"

lemmas kind_defs = kind_env_def kind_sdk_def kind_web_def kind_ctx_def kind_caller_def kind_world_def kind_room_def
  kind_event_def

lemmas tool_eval = returnT_def failT_def bindT_def liftT_def ensureT_def someT_def tryT_def emitT_def seeT_def
  tryAskT_def askT_def labelled_def tryDoT_def doT_def limiter_verdict_def rate_limit_check_def for_user_of_def
  client_for_def parse_id_def get_room_def open_room_def require_joined_def react_to_auth_expiry_def add_effects_def
  evictions_def emit_tool_audit_def emit_write_notice_def outcome_of_def caller_mxid_def read_tool_def write_tool_def
  notice_first_tool_def counted_def uncounted_def effects_of_def limiter_check_def check_both_def check_bucket_def
  get_or_insert_def hm_simps take_once_def

lemma kind_trace [simp]: "tw_trace kind_world = []"
  by (simp add: kind_world_def)

lemma kind_join:
  "tw_trace (snd (call_tool kind_env L kind_ctx (JoinRoom ''!r:x'') kind_world)) =
     [Charged WriteCall True, ClientFor ''@a:x'' ''tok'', Did (JoinByIdOrAlias ''!r:x''),
      emit_tool_audit kind_env ''join_room'' kind_ctx (Some ''!r:x'') None (Inr ()), ClientFor ''@a:x'' ''tok'',
      NoticeSpawned ''join_room'' (Some ''!r:x'') ''ok'']"
  by (simp add: join_room_def kind_defs tool_eval)

lemma kind_presence:
  "tw_trace (snd (call_tool kind_env L kind_ctx (GetPresenceTool None) kind_world)) =
     [Charged ReadCall True, ClientFor ''@a:x'' ''tok'', Asked (GetPresence ''@a:x''),
      emit_tool_audit kind_env ''get_presence'' kind_ctx None None (Inr ())]"
  by (simp add: get_presence_def kind_defs tool_eval)

lemma kind_audit_room:
  "tw_trace (snd (call_tool kind_env L kind_ctx (SetAuditRoom ''!r:x'') kind_world)) =
     [Charged WriteCall True, ClientFor ''@a:x'' ''tok'',
      Did (SetAccountData ''m.audit_room'' (JObj [(''room_id'', JStr ''!r:x'')])),
      emit_tool_audit kind_env ''set_audit_room'' kind_ctx (Some ''!r:x'') None (Inr ()), ClientFor ''@a:x'' ''tok'',
      NoticeSpawned ''set_audit_room'' (Some ''!r:x'') ''ok'']"
  by (simp add: set_audit_room_def kind_defs tool_eval)

definition kind_mark :: MarkReadParams where
  "kind_mark = \<lparr>mr_room_id = ''!r:x'', mr_event_id = None\<rparr>"

lemma kind_mark_read:
  "tw_trace (snd (dispatch kind_env L (into_channel_mode [''mark_read'', ''leave_room'']) kind_ctx (MarkRead kind_mark)
       kind_world)) =
     [Charged WriteCall True, ClientFor ''@a:x'' ''tok'', Did (SendReceipt ''!r:x'' ''$1''),
      emit_tool_audit kind_env ''mark_read'' kind_ctx (Some ''!r:x'') None (Inr ()), ClientFor ''@a:x'' ''tok'',
      NoticeSpawned ''mark_read'' (Some ''!r:x'') ''ok'']"
  by (simp add: dispatch_def into_channel_mode_def CHANNEL_TOOLS_def mark_read_def kind_mark_def kind_defs tool_eval)

definition kind_edit :: MessageEditParams where
  "kind_edit = \<lparr>ed_room_id = ''!r:x'', ed_event_id = ''$1'', ed_new_body = ''new''\<rparr>"

lemma kind_edits:
  "\<exists>later. tw_trace (snd (call_tool kind_env L kind_ctx (MessageEdit kind_edit) kind_world)) =
     [Charged WriteCall True, ClientFor ''@a:x'' ''tok'', Asked (GetEvent ''!r:x'' ''$1'')]
     @ Did (SendReplacement ''!r:x'' ''$1'' ''new'') # later"
  by (simp add: message_edit_def kind_edit_def kind_defs tool_eval validate_text_message_body_def
      MAX_TEXT_MESSAGE_BODY_BYTES_def)

end
