(* ===== verification/ToolRules.thy ===== *)
theory ToolRules
  imports ToolCall
begin

text \<open>
  Reasoning about what tool computations do. A monitor is an automaton over effects:
  \<open>\<delta> s e\<close> is the state after effect \<open>e\<close>, or \<open>None\<close> when it is
  forbidden; \<open>A h s\<close> relates its state to the history. \<open>monitored A \<delta> s m Q R\<close> says
  that from any world whose history has state \<open>s\<close> the effects of \<open>m\<close> are accepted,
  that a result and the state reached satisfy \<open>Q\<close>, and an error and the state reached satisfy
  \<open>R\<close>. The rules in \<open>tool_rules\<close> go backwards through a computation, one per
  construct, and leave the obligations the monitor makes.
\<close>

named_theorems tool_rules \<open>rules of the monitored computations\<close>

section \<open>Monitors\<close>

fun run_monitor :: "('s \<Rightarrow> Effect \<Rightarrow> 's option) \<Rightarrow> 's \<Rightarrow> Effect list \<Rightarrow> 's option" where
  "run_monitor \<delta> s [] = Some s"
| "run_monitor \<delta> s (e # es) = (case \<delta> s e of None \<Rightarrow> None | Some s' \<Rightarrow> run_monitor \<delta> s' es)"

text \<open>The states keep their relation to the history.\<close>

definition consistent :: "(Effect list \<Rightarrow> 's \<Rightarrow> bool) \<Rightarrow> ('s \<Rightarrow> Effect \<Rightarrow> 's option) \<Rightarrow> bool" where
  "consistent A \<delta> \<longleftrightarrow> (\<forall>h s e s'. A h s \<longrightarrow> \<delta> s e = Some s' \<longrightarrow> A (h @ [e]) s')"

definition monitored ::
  "(Effect list \<Rightarrow> 's \<Rightarrow> bool) \<Rightarrow> ('s \<Rightarrow> Effect \<Rightarrow> 's option) \<Rightarrow> 's \<Rightarrow> ('b, 'a) tool \<Rightarrow> ('a \<Rightarrow> 's \<Rightarrow> bool)
     \<Rightarrow> (ErrorData \<Rightarrow> 's \<Rightarrow> bool) \<Rightarrow> bool" where
  "monitored A \<delta> s m Q R \<longleftrightarrow> (\<forall>w. A (tw_trace w) s \<longrightarrow> (\<exists>es s'. tw_trace (snd (m w)) = tw_trace w @ es
     \<and> run_monitor \<delta> s es = Some s' \<and> A (tw_trace w @ es) s'
     \<and> (case fst (m w) of Inl e \<Rightarrow> R e s' | Inr a \<Rightarrow> Q a s')))"

text \<open>A monitor that does not look at the history.\<close>

definition any_history :: "Effect list \<Rightarrow> 's \<Rightarrow> bool" where
  "any_history h s \<longleftrightarrow> True"

lemma consistent_any [simp]: "consistent any_history \<delta>"
  by (simp add: consistent_def any_history_def)

lemma run_monitor_append:
  "run_monitor \<delta> s (es @ fs) = Option.bind (run_monitor \<delta> s es) (\<lambda>s'. run_monitor \<delta> s' fs)"
  by (induction es arbitrary: s) (auto split: option.splits)

lemma monitoredI:
  assumes "\<And>w. A (tw_trace w) s \<Longrightarrow> \<exists>es s'. tw_trace (snd (m w)) = tw_trace w @ es
     \<and> run_monitor \<delta> s es = Some s' \<and> A (tw_trace w @ es) s'
     \<and> (case fst (m w) of Inl e \<Rightarrow> R e s' | Inr a \<Rightarrow> Q a s')"
  shows "monitored A \<delta> s m Q R"
  using assms by (simp add: monitored_def)

lemma monitoredE:
  assumes "monitored A \<delta> s m Q R" and "A (tw_trace w) s"
  obtains es s' where "tw_trace (snd (m w)) = tw_trace w @ es" and "run_monitor \<delta> s es = Some s'"
    and "A (tw_trace w @ es) s'" and "case fst (m w) of Inl e \<Rightarrow> R e s' | Inr a \<Rightarrow> Q a s'"
  using assms unfolding monitored_def by blast

lemma run_consistent:
  "consistent A \<delta> \<Longrightarrow> A h s \<Longrightarrow> run_monitor \<delta> s es = Some s' \<Longrightarrow> A (h @ es) s'"
proof (induction es arbitrary: h s)
  case (Cons e es)
  from Cons.prems obtain t where t: "\<delta> s e = Some t" "run_monitor \<delta> t es = Some s'" by (auto split: option.splits)
  with Cons.prems have "A (h @ [e]) t" unfolding consistent_def by blast
  from Cons.IH [OF Cons.prems(1) this t(2)] show ?case by simp
qed simp

text \<open>A computation that adds one list of effects.\<close>

lemma monitored_effects:
  assumes "consistent A \<delta>"
    and "\<And>w. A (tw_trace w) s \<Longrightarrow> \<exists>es s'. tw_trace (snd (m w)) = tw_trace w @ es \<and> run_monitor \<delta> s es = Some s'
     \<and> (case fst (m w) of Inl e \<Rightarrow> R e s' | Inr a \<Rightarrow> Q a s')"
  shows "monitored A \<delta> s m Q R"
  by (rule monitoredI) (use assms(2) run_consistent [OF assms(1)] in blast)

text \<open>A computation that records nothing.\<close>

lemma monitored_silent:
  assumes "\<And>w. tw_trace (snd (m w)) = tw_trace w"
    and "\<And>w a. A (tw_trace w) s \<Longrightarrow> fst (m w) = Inr a \<Longrightarrow> Q a s"
    and "\<And>w e. A (tw_trace w) s \<Longrightarrow> fst (m w) = Inl e \<Longrightarrow> R e s"
  shows "monitored A \<delta> s m Q R"
proof (rule monitoredI, goal_cases)
  case (1 w)
  then show ?case
    using assms by (intro exI [of _ "[]"] exI [of _ s]) (auto split: sum.splits)
qed

lemma monitored_return [tool_rules]: "Q a s \<Longrightarrow> monitored A \<delta> s (returnT a) Q R"
  by (rule monitored_silent) (simp_all add: returnT_def)

lemma monitored_fail [tool_rules]: "R e s \<Longrightarrow> monitored A \<delta> s (failT e) Q R"
  by (rule monitored_silent) (simp_all add: failT_def)

lemma monitored_lift [tool_rules]:
  "(\<And>a. r = Inr a \<Longrightarrow> Q a s) \<Longrightarrow> (\<And>e. r = Inl e \<Longrightarrow> R e s) \<Longrightarrow> monitored A \<delta> s (liftT r) Q R"
  by (rule monitored_silent) (simp_all add: liftT_def)

lemma monitored_see [tool_rules]: "(\<And>h. A h s \<Longrightarrow> Q (f h) s) \<Longrightarrow> monitored A \<delta> s (seeT f) Q R"
  by (rule monitored_silent) (auto simp: seeT_def)

lemma monitored_ensure [tool_rules]:
  "(c \<Longrightarrow> Q () s) \<Longrightarrow> (\<not> c \<Longrightarrow> R e s) \<Longrightarrow> monitored A \<delta> s (ensureT c e) Q R"
  by (simp add: ensureT_def monitored_return monitored_fail)

lemma monitored_some [tool_rules]:
  "(\<And>a. x = Some a \<Longrightarrow> Q a s) \<Longrightarrow> (x = None \<Longrightarrow> R e s) \<Longrightarrow> monitored A \<delta> s (someT x e) Q R"
  by (cases x) (simp_all add: someT_def monitored_return monitored_fail)

lemma monitored_emit [tool_rules]:
  "consistent A \<delta> \<Longrightarrow> \<delta> s e = Some s' \<Longrightarrow> Q () s' \<Longrightarrow> monitored A \<delta> s (emitT e) Q R"
  by (rule monitored_effects) (simp_all add: emitT_def)

lemma monitored_bind [tool_rules]:
  assumes "monitored A \<delta> s m (\<lambda>a s'. monitored A \<delta> s' (k a) Q R) R"
  shows "monitored A \<delta> s (bindT m k) Q R"
proof (rule monitoredI, goal_cases)
  case (1 w)
  with assms obtain es s' where m: "tw_trace (snd (m w)) = tw_trace w @ es" "run_monitor \<delta> s es = Some s'"
    "A (tw_trace w @ es) s'" "case fst (m w) of Inl e \<Rightarrow> R e s' | Inr a \<Rightarrow> monitored A \<delta> s' (k a) Q R"
    by (rule monitoredE)
  show ?case
  proof (cases "fst (m w)")
    case (Inl e)
    with m show ?thesis by (auto simp: bindT_def split: prod.splits sum.splits)
  next
    case (Inr a)
    then have b: "bindT m k w = k a (snd (m w))" by (auto simp: bindT_def split: prod.splits sum.splits)
    from m(1,3,4) Inr have "monitored A \<delta> s' (k a) Q R" "A (tw_trace (snd (m w))) s'" by simp_all
    then obtain fs t where k: "tw_trace (snd (k a (snd (m w)))) = tw_trace (snd (m w)) @ fs"
      "run_monitor \<delta> s' fs = Some t" "A (tw_trace (snd (m w)) @ fs) t"
      "case fst (k a (snd (m w))) of Inl e \<Rightarrow> R e t | Inr a \<Rightarrow> Q a t" by (rule monitoredE)
    with m(1,2) show ?thesis unfolding b
      by (intro exI [of _ "es @ fs"] exI [of _ t]) (simp add: run_monitor_append)
  qed
qed

lemma monitored_try [tool_rules]:
  assumes "monitored A \<delta> s m (\<lambda>a. Q (Inr a)) (\<lambda>e. Q (Inl e))"
  shows "monitored A \<delta> s (tryT m) Q R"
proof (rule monitoredI, goal_cases)
  case (1 w)
  have "snd (tryT m w) = snd (m w)" "fst (tryT m w) = Inr (fst (m w))" by (simp_all add: tryT_def split: prod.splits)
  moreover obtain es s' where "tw_trace (snd (m w)) = tw_trace w @ es" "run_monitor \<delta> s es = Some s'"
    "A (tw_trace w @ es) s'" "case fst (m w) of Inl e \<Rightarrow> Q (Inl e) s' | Inr a \<Rightarrow> Q (Inr a) s'"
    using assms 1 by (rule monitoredE)
  ultimately show ?case
    by (intro exI [of _ es] exI [of _ s']) (simp split: sum.splits)
qed

lemma monitored_if [tool_rules]:
  "(c \<Longrightarrow> monitored A \<delta> s m Q R) \<Longrightarrow> (\<not> c \<Longrightarrow> monitored A \<delta> s n Q R) \<Longrightarrow> monitored A \<delta> s (if c then m else n) Q R"
  by simp

lemma monitored_option [tool_rules]:
  "(x = None \<Longrightarrow> monitored A \<delta> s m Q R) \<Longrightarrow> (\<And>a. x = Some a \<Longrightarrow> monitored A \<delta> s (f a) Q R)
    \<Longrightarrow> monitored A \<delta> s (case x of None \<Rightarrow> m | Some a \<Rightarrow> f a) Q R"
  by (cases x) simp_all

lemma monitored_sum [tool_rules]:
  "(\<And>a. x = Inl a \<Longrightarrow> monitored A \<delta> s (f a) Q R) \<Longrightarrow> (\<And>b. x = Inr b \<Longrightarrow> monitored A \<delta> s (g b) Q R)
    \<Longrightarrow> monitored A \<delta> s (case x of Inl a \<Rightarrow> f a | Inr b \<Rightarrow> g b) Q R"
  by (cases x) simp_all

lemma monitored_prod [tool_rules]:
  "(\<And>a b. x = (a, b) \<Longrightarrow> monitored A \<delta> s (f a b) Q R) \<Longrightarrow> monitored A \<delta> s (case x of (a, b) \<Rightarrow> f a b) Q R"
  by (cases x) simp

lemma monitored_let [tool_rules]: "monitored A \<delta> s (f x) Q R \<Longrightarrow> monitored A \<delta> s (let a = x in f a) Q R"
  by (simp add: Let_def)

lemma monitored_mono:
  assumes "monitored A \<delta> s m Q R" and "\<And>a s'. Q a s' \<Longrightarrow> Q' a s'" and "\<And>e s'. R e s' \<Longrightarrow> R' e s'"
  shows "monitored A \<delta> s m Q' R'"
proof (rule monitoredI, goal_cases)
  case (1 w)
  show ?case
    by (rule monitoredE [OF assms(1), of w], rule 1, intro exI conjI) (auto intro: assms(2,3) split: sum.splits)
qed

text \<open>A loop keeps an invariant of the monitor.\<close>

lemma monitored_for:
  assumes step: "\<And>x s. x \<in> set xs \<Longrightarrow> I s \<Longrightarrow> monitored A \<delta> s (f x) (\<lambda>_. I) R" and "I s"
    and finish: "\<And>ys s. I s \<Longrightarrow> length ys = length xs \<Longrightarrow> Q ys s"
  shows "monitored A \<delta> s (forT f xs) Q R"
proof -
  have "monitored A \<delta> s (forT f zs) (\<lambda>ys s. I s \<and> length ys = length zs) R" if "set zs \<subseteq> set xs" "I s" for zs s
    using that
  proof (induction zs arbitrary: s)
    case Nil
    then show ?case by (auto intro: tool_rules)
  next
    case (Cons z zs)
    have "monitored A \<delta> s (f z) (\<lambda>_. I) R" using Cons.prems by (intro step) auto
    then show ?case
      unfolding forT.simps
    proof (intro monitored_bind, elim monitored_mono, goal_cases)
      case (1 y s')
      then have "monitored A \<delta> s' (forT f zs) (\<lambda>ys s. I s \<and> length ys = length zs) R"
        using Cons.prems by (intro Cons.IH) auto
      then show ?case by (intro monitored_bind, elim monitored_mono) (auto intro: tool_rules)
    qed
  qed
  from this [OF subset_refl assms(2)] show ?thesis by (rule monitored_mono) (auto intro: finish)
qed

section \<open>Requests\<close>

lemma monitored_tryAsk [tool_rules]:
  "consistent A \<delta> \<Longrightarrow> \<delta> s (Asked q) = Some s' \<Longrightarrow> (\<And>r h. A h s \<Longrightarrow> r = answer h q \<Longrightarrow> Q r s') \<Longrightarrow> monitored A \<delta> s (tryAskT q answer) Q R"
  unfolding tryAskT_def by (intro tool_rules) auto

lemma monitored_labelled [tool_rules]:
  "(\<And>a. r = Inr a \<Longrightarrow> Q a s) \<Longrightarrow> (\<And>m. R (Internal_error m) s) \<Longrightarrow> monitored A \<delta> s (labelled label r) Q R"
  unfolding labelled_def by (intro tool_rules) auto

lemma monitored_ask [tool_rules]:
  "consistent A \<delta> \<Longrightarrow> \<delta> s (Asked q) = Some s' \<Longrightarrow> (\<And>a h. A h s \<Longrightarrow> answer h q = Inr a \<Longrightarrow> Q a s') \<Longrightarrow> (\<And>m. R (Internal_error m) s')
    \<Longrightarrow> monitored A \<delta> s (askT label q answer) Q R"
  unfolding askT_def by (intro tool_rules) auto

lemma monitored_tryDo [tool_rules]:
  "consistent A \<delta> \<Longrightarrow> \<delta> s (Did c) = Some s' \<Longrightarrow> (\<And>r h. A h s \<Longrightarrow> r = sd_write (te_sdk E) h c \<Longrightarrow> Q r s')
    \<Longrightarrow> monitored A \<delta> s (tryDoT E c) Q R"
  unfolding tryDoT_def by (intro tool_rules) auto

lemma monitored_do [tool_rules]:
  "consistent A \<delta> \<Longrightarrow> \<delta> s (Did c) = Some s' \<Longrightarrow> (\<And>a. Q a s') \<Longrightarrow> (\<And>m. R (Internal_error m) s')
    \<Longrightarrow> monitored A \<delta> s (doT E label c) Q R"
  unfolding doT_def by (intro tool_rules) auto

lemma monitored_parse [tool_rules]:
  "(err s' = None \<Longrightarrow> Q s' s) \<Longrightarrow> R Invalid_params s \<Longrightarrow> monitored A \<delta> s (parse_id err s') Q R"
  unfolding parse_id_def by (intro tool_rules) auto

lemma monitored_get_room [tool_rules]:
  "(\<And>room h. A h s \<Longrightarrow> sd_get_room (te_sdk E) h rid = Some room \<Longrightarrow> Q room s) \<Longrightarrow> R Invalid_params s
    \<Longrightarrow> monitored A \<delta> s (get_room E rid) Q R"
  unfolding get_room_def by (intro tool_rules) auto

lemma monitored_open_room [tool_rules]:
  "(\<And>room h. A h s \<Longrightarrow> sd_get_room (te_sdk E) h rid = Some room \<Longrightarrow> te_room_err E rid = None \<Longrightarrow> Q room s)
    \<Longrightarrow> R Invalid_params s \<Longrightarrow> monitored A \<delta> s (open_room E rid) Q R"
  unfolding open_room_def by (intro tool_rules) auto

lemma monitored_require_joined [tool_rules]:
  "(rm_state room = Joined \<Longrightarrow> Q () s) \<Longrightarrow> R Invalid_params s \<Longrightarrow> monitored A \<delta> s (require_joined room) Q R"
  unfolding require_joined_def by (intro tool_rules) auto

lemma monitored_verdict [tool_rules]:
  assumes "consistent A \<delta>" and "\<delta> s (Charged category True) = Some s1" and "Q () s1"
    and "\<delta> s (Charged category False) = Some s2" and "R Rate_limited s2"
  shows "monitored A \<delta> s (limiter_verdict E token subject category) Q R"
  using assms by (intro monitored_effects) (auto simp: limiter_verdict_def Let_def split: prod.splits)

lemma monitored_rate_limit [tool_rules]:
  assumes "consistent A \<delta>" and "\<delta> s (Charged category True) = Some s1" and "Q () s1"
    and "\<delta> s (Charged category False) = Some s2" and "R Rate_limited s2" and "\<And>m. R (Internal_error m) s"
  shows "monitored A \<delta> s (rate_limit_check E ctx category) Q R"
  unfolding rate_limit_check_def using assms
  by (intro tool_rules) (auto simp: missing_identity_err_def missing_token_err_def)

lemma monitored_client [tool_rules]:
  assumes "consistent A \<delta>" and "\<And>m t. \<delta> s (ClientFor m t) = Some (t' m t)" and "\<And>m t. Q () (t' m t)"
    and "\<And>m. R (Internal_error m) s" and "\<And>m t u. R (Internal_error m) (t' t u)"
  shows "monitored A \<delta> s (client_for E ctx) Q R"
  unfolding client_for_def for_user_of_def using assms
  by (intro tool_rules) (auto simp: missing_identity_err_def missing_token_err_def)

section \<open>The envelopes\<close>

text \<open>What the envelopes add: no request to the homeserver but the client's.\<close>

fun bookkeeping :: "Effect \<Rightarrow> bool" where
  "bookkeeping (ClientFor m t) = True"
| "bookkeeping (EvictedClient m) = True"
| "bookkeeping (DroppedToken t) = True"
| "bookkeeping (Logged t m r ou c k) = True"
| "bookkeeping (NoticeSpawned t r ou) = True"
| "bookkeeping _ = False"

definition tolerant :: "('s \<Rightarrow> Effect \<Rightarrow> 's option) \<Rightarrow> bool" where
  "tolerant \<delta> \<longleftrightarrow> (\<forall>s e. bookkeeping e \<longrightarrow> \<delta> s e = Some s)"

text \<open>A property of states that bookkeeping neither breaks nor is refused in.\<close>

definition stable :: "('s \<Rightarrow> Effect \<Rightarrow> 's option) \<Rightarrow> ('s \<Rightarrow> bool) \<Rightarrow> bool" where
  "stable \<delta> P \<longleftrightarrow> (\<forall>s e. bookkeeping e \<longrightarrow> P s \<longrightarrow> (\<exists>s'. \<delta> s e = Some s' \<and> P s'))"

lemma tolerant_stable: "tolerant \<delta> \<Longrightarrow> stable \<delta> P"
  by (simp add: tolerant_def stable_def)

lemma run_stable: "stable \<delta> P \<Longrightarrow> P s \<Longrightarrow> list_all bookkeeping es \<Longrightarrow> \<exists>s'. run_monitor \<delta> s es = Some s' \<and> P s'"
proof (induction es arbitrary: s)
  case (Cons e es)
  have "\<exists>t. \<delta> s e = Some t \<and> P t" using Cons.prems unfolding stable_def by simp
  then obtain t where t: "\<delta> s e = Some t" "P t" by blast
  from Cons.IH [OF Cons.prems(1) t(2)] Cons.prems(3) t(1) show ?case by simp
qed simp

text \<open>Every envelope runs the body, adds bookkeeping, and may turn an internal error into the expiry.\<close>

lemma envelope_effects:
  fixes body :: "('b, 'a) tool"
  assumes "env \<in> {read_tool E ctx tool rid cnt, write_tool E ctx tool rid, notice_first_tool E ctx tool rid}"
  shows "\<exists>es. tw_trace (snd (env body w)) = tw_trace (snd (body w)) @ es \<and> list_all bookkeeping es
    \<and> (fst (env body w) = fst (body w)
       \<or> (fst (env body w) = Inl Auth_expired \<and> (\<exists>m. fst (body w) = Inl (Internal_error m))))"
proof -
  have react: "\<exists>es. tw_trace (snd (react_to_auth_expiry ctx p)) = tw_trace (snd p) @ es \<and> list_all bookkeeping es
      \<and> (fst (react_to_auth_expiry ctx p) = fst p
         \<or> (fst (react_to_auth_expiry ctx p) = Inl Auth_expired \<and> (\<exists>m. fst p = Inl (Internal_error m))))"
    for p :: "(ErrorData + 'a) \<times> 'b ToolWorld"
    by (cases p)
      (auto simp: react_to_auth_expiry_def add_effects_def evictions_def
         split: sum.splits ErrorData.splits option.splits)
  have notice: "list_all bookkeeping (emit_write_notice E ctx tool rid r h)" for r :: "ErrorData + 'a" and h
    by (simp add: emit_write_notice_def split: option.splits)
  obtain r w' where p: "react_to_auth_expiry ctx (body w) = (r, w')" by (metis prod.exhaust)
  from react [of "body w"] p obtain es where "tw_trace w' = tw_trace (snd (body w)) @ es" "list_all bookkeeping es"
    "r = fst (body w) \<or> (r = Inl Auth_expired \<and> (\<exists>m. fst (body w) = Inl (Internal_error m)))" by auto
  with assms p notice show ?thesis
    by (auto simp: read_tool_def write_tool_def notice_first_tool_def add_effects_def emit_tool_audit_def Let_def)
qed

lemma monitored_envelope:
  assumes "env \<in> {read_tool E ctx tool rid cnt, write_tool E ctx tool rid, notice_first_tool E ctx tool rid}"
    and c: "consistent A \<delta>" and t: "\<And>a. stable \<delta> (Q a)" "\<And>e. stable \<delta> (R e)"
    and body: "monitored A \<delta> s body Q R" and expiry: "\<And>m s'. R (Internal_error m) s' \<Longrightarrow> R Auth_expired s'"
  shows "monitored A \<delta> s (env body) Q R"
proof (rule monitored_effects [OF c], goal_cases)
  case (1 w)
  with body obtain es s' where b: "tw_trace (snd (body w)) = tw_trace w @ es" "run_monitor \<delta> s es = Some s'"
    "case fst (body w) of Inl e \<Rightarrow> R e s' | Inr a \<Rightarrow> Q a s'"
    by (rule monitoredE)
  obtain fs where f: "tw_trace (snd (env body w)) = tw_trace (snd (body w)) @ fs" "list_all bookkeeping fs"
    "fst (env body w) = fst (body w)
       \<or> (fst (env body w) = Inl Auth_expired \<and> (\<exists>m. fst (body w) = Inl (Internal_error m)))"
    using envelope_effects [OF assms(1)] by blast
  from f(3) b(3) expiry have "case fst (env body w) of Inl e \<Rightarrow> R e s' | Inr a \<Rightarrow> Q a s'"
    by (auto split: sum.splits)
  then obtain s'' where "run_monitor \<delta> s' fs = Some s''" "case fst (env body w) of Inl e \<Rightarrow> R e s'' | Inr a \<Rightarrow> Q a s''"
    using run_stable [OF t(1) _ f(2)] run_stable [OF t(2) _ f(2)] by (cases "fst (env body w)") fastforce+
  with b(1,2) f(1) show ?case by (intro exI [of _ "es @ fs"] exI [of _ s'']) (simp add: run_monitor_append)
qed

lemma monitored_envelopes:
  assumes "consistent A \<delta>" and "tolerant \<delta>" and "monitored A \<delta> s body Q R"
    and "\<And>m s'. R (Internal_error m) s' \<Longrightarrow> R Auth_expired s'"
  shows "monitored A \<delta> s (read_tool E ctx tool rid cnt body) Q R"
    and "monitored A \<delta> s (write_tool E ctx tool rid body) Q R"
    and "monitored A \<delta> s (notice_first_tool E ctx tool rid body) Q R"
proof -
  have e: "env \<in> {read_tool E ctx tool rid cnt, write_tool E ctx tool rid, notice_first_tool E ctx tool rid}
      \<Longrightarrow> monitored A \<delta> s (env body) Q R" for env
    by (rule monitored_envelope) (use assms tolerant_stable [OF assms(2)] in simp_all)
  show "monitored A \<delta> s (read_tool E ctx tool rid cnt body) Q R"
    and "monitored A \<delta> s (write_tool E ctx tool rid body) Q R"
    and "monitored A \<delta> s (notice_first_tool E ctx tool rid body) Q R" by (rule e; simp)+
qed

text \<open>A monitor that records bookkeeping, when nothing is claimed of the end.\<close>

lemma monitored_envelopes_end:
  assumes "consistent A \<delta>" and "stable \<delta> (\<lambda>_. True)" and "monitored A \<delta> s body (\<lambda>_ _. True) (\<lambda>_ _. True)"
  shows "monitored A \<delta> s (read_tool E ctx tool rid cnt body) (\<lambda>_ _. True) (\<lambda>_ _. True)"
    and "monitored A \<delta> s (write_tool E ctx tool rid body) (\<lambda>_ _. True) (\<lambda>_ _. True)"
    and "monitored A \<delta> s (notice_first_tool E ctx tool rid body) (\<lambda>_ _. True) (\<lambda>_ _. True)"
proof -
  have e: "env \<in> {read_tool E ctx tool rid cnt, write_tool E ctx tool rid, notice_first_tool E ctx tool rid}
      \<Longrightarrow> monitored A \<delta> s (env body) (\<lambda>_ _. True) (\<lambda>_ _. True)" for env
    by (rule monitored_envelope) (use assms in simp_all)
  show "monitored A \<delta> s (read_tool E ctx tool rid cnt body) (\<lambda>_ _. True) (\<lambda>_ _. True)"
    and "monitored A \<delta> s (write_tool E ctx tool rid body) (\<lambda>_ _. True) (\<lambda>_ _. True)"
    and "monitored A \<delta> s (notice_first_tool E ctx tool rid body) (\<lambda>_ _. True) (\<lambda>_ _. True)" by (rule e; simp)+
qed

end
