(* ===== verification/ToolPolicy.thy ===== *)
theory ToolPolicy
  imports ToolSample ToolRules
begin

text \<open>
  What every tool call keeps to, whatever the homeserver answers: an automaton over its effects. The
  state is what the rate limiter has granted the call and how many messages it has sent. A tool has
  one category; it asks the limiter before it asks anybody else; only a granted write lets it change
  anything or contact a third party; every message takes a granted write of its own; what it sends is
  bounded; and account data of a reserved type is written by \<open>set_audit_room\<close> alone.
\<close>

section \<open>The policy\<close>

record Policy =
  granted :: bool
  writes :: nat
  sent :: nat

definition nothing_granted :: Policy where
  "nothing_granted = \<lparr>granted = False, writes = 0, sent = 0\<rparr>"

fun sends_message :: "SdkWrite \<Rightarrow> bool" where
  "sends_message (SendText r b reply) = True"
| "sends_message (SendReplacement r ev b) = True"
| "sends_message (SendReaction r ev k) = True"
| "sends_message (SendMedia r c) = True"
| "sends_message _ = False"

definition short_reason :: "rstr option \<Rightarrow> bool" where
  "short_reason reason \<longleftrightarrow> (case reason of None \<Rightarrow> True | Some s \<Rightarrow> length s \<le> 64 * 1024)"

text \<open>\<open>setter\<close> is whether the tool is \<open>set_audit_room\<close>.\<close>

fun write_allowed :: "bool \<Rightarrow> SdkWrite \<Rightarrow> bool" where
  "write_allowed setter (SendText r b reply) = (length b \<le> 64 * 1024)"
| "write_allowed setter (SendReplacement r ev b) = (length b \<le> 64 * 1024)"
| "write_allowed setter (SendReaction r ev k) = (length k \<le> 1024)"
| "write_allowed setter (RedactEvent r ev reason) = short_reason reason"
| "write_allowed setter (KickUser r u reason) = short_reason reason"
| "write_allowed setter (BanUser r u reason) = short_reason reason"
| "write_allowed setter (UnbanUser r u reason) = short_reason reason"
| "write_allowed setter (SetDisplayName n) = (case n of None \<Rightarrow> True | Some s \<Rightarrow> length s \<le> 256)"
| "write_allowed setter (SetAccountData t v) =
     (as_object v \<noteq> None \<and> (account_data_event_type_is_reserved t \<longrightarrow> setter \<and> t = ''m.audit_room''))"
| "write_allowed setter _ = True"

fun policy :: "Category \<Rightarrow> bool \<Rightarrow> Policy \<Rightarrow> Effect \<Rightarrow> Policy option" where
  "policy cat setter s (Charged c ok) =
     (if c \<noteq> cat then None else if \<not> ok then Some s
      else Some (s\<lparr>granted := True, writes := (if c = WriteCall then 1 else 0) + writes s\<rparr>))"
| "policy cat setter s (Asked q) = (if granted s then Some s else None)"
| "policy cat setter s (PullSpawned u r) = (if granted s then Some s else None)"
| "policy cat setter s (Requested url) = (if 0 < writes s then Some s else None)"
| "policy cat setter s (Posted url v) = (if 0 < writes s then Some s else None)"
| "policy cat setter s (Did c) =
     (if 0 < writes s \<and> write_allowed setter c \<and> (sends_message c \<longrightarrow> sent s < writes s)
      then Some (s\<lparr>sent := (if sends_message c then 1 else 0) + sent s\<rparr>) else None)"
| "policy cat setter s e = Some s"

lemma policy_tolerant [simp]: "tolerant (policy cat setter)"
  unfolding tolerant_def
proof (intro allI impI)
  fix s e assume "bookkeeping e" then show "policy cat setter s e = Some s" by (cases e) auto
qed

abbreviation obeys :: "Category \<Rightarrow> bool \<Rightarrow> ('b, 'a) tool \<Rightarrow> bool" where
  "obeys cat setter m \<equiv> monitored any_history (policy cat setter) nothing_granted m (\<lambda>_ _. True) (\<lambda>_ _. True)"

text \<open>The checks on parameters, as the policy needs them.\<close>

lemma validated:
  "validate_text_message_body b = Inr u \<longleftrightarrow> length b \<le> 64 * 1024"
  "validate_reaction_key k = Inr u \<longleftrightarrow> length k \<le> 1024"
  "validate_redaction_reason reason = Inr u \<longleftrightarrow> short_reason reason"
  by (auto simp: validate_text_message_body_def MAX_TEXT_MESSAGE_BODY_BYTES_def validate_reaction_key_def
      MAX_REACTION_KEY_BYTES_def validate_redaction_reason_def MAX_REDACTION_REASON_BYTES_def short_reason_def
      split: option.splits if_splits)

lemmas policy_facts = nothing_granted_def validated

section \<open>More rules\<close>

lemma monitored_emit_all:
  assumes "consistent A \<delta>" and "\<And>e. e \<in> set es \<Longrightarrow> \<delta> s e = Some s" and "Q () s"
  shows "monitored A \<delta> s (emit_allT es) Q R"
  using assms(2)
proof (induction es)
  case (Cons e es)
  then show ?case unfolding emit_allT.simps using assms(1) by (intro tool_rules) auto
qed (auto intro: tool_rules assms(3))

lemma monitored_spawn [tool_rules]:
  assumes "consistent A \<delta>" and "\<delta> s (PullSpawned caller room_id) = Some s'" and "Q () s" and "Q () s'"
  shows "monitored A \<delta> s (spawn_key_backup_pull_if_needed E caller room_id events) Q R"
proof (rule monitored_effects [OF assms(1)], goal_cases)
  case (1 w)
  have "\<exists>es. tw_trace (snd (spawn_key_backup_pull_if_needed E caller room_id events w)) = tw_trace w @ es
      \<and> (es = [] \<or> es = [PullSpawned caller room_id])
      \<and> fst (spawn_key_backup_pull_if_needed E caller room_id events w) = Inr ()"
    by (auto simp: spawn_key_backup_pull_if_needed_def split: prod.splits Acquired.splits)
  with assms(2-) show ?case by auto
qed

lemma monitored_acquire [tool_rules]:
  "(\<And>k. snd k = room_id \<Longrightarrow> Q k s) \<Longrightarrow> R Invalid_params s \<Longrightarrow> R Rate_limited s
    \<Longrightarrow> monitored A \<delta> s (acquire_pull E caller room_id) Q R"
  by (rule monitored_silent)
    (auto simp: acquire_pull_def try_acquire_def Let_def split: prod.splits Acquired.splits if_splits)

lemma monitored_pull [tool_rules]:
  "consistent A \<delta> \<Longrightarrow> \<delta> s (Asked (PullRoomKeys (snd k))) = Some s' \<Longrightarrow> (\<And>b. Q b s')
    \<Longrightarrow> monitored A \<delta> s (pull_keys E k) Q R"
  by (rule monitored_effects) (auto simp: pull_keys_def Let_def)

lemma monitored_media [tool_rules]:
  "consistent A \<delta> \<Longrightarrow> \<delta> s (Asked (GetMedia source)) = Some s'
    \<Longrightarrow> (\<And>bytes h. A h s \<Longrightarrow> sd_media (te_sdk E) h source = Media bytes \<Longrightarrow> Q bytes s')
    \<Longrightarrow> (\<And>m. R (Internal_error m) s') \<Longrightarrow> monitored A \<delta> s (fetch_media E source) Q R"
  unfolding fetch_media_def
  by (intro tool_rules, assumption, assumption) (auto split: MediaAnswer.split intro: tool_rules)

lemma monitored_pins [tool_rules]:
  "(\<And>ps. Q ps s) \<Longrightarrow> (\<And>m. R (Internal_error m) s) \<Longrightarrow> monitored A \<delta> s (current_pins answer) Q R"
  unfolding current_pins_def by (auto split: PinnedState.split intro: tool_rules)

lemma monitored_attachment [tool_rules]:
  "(\<And>t b. c = OtherMessage t b \<Longrightarrow> monitored A \<delta> s (g t b) Q R)
    \<Longrightarrow> (\<And>u t n f b. c = MediaMessage u t n f b \<Longrightarrow> monitored A \<delta> s (m u t n f b) Q R)
    \<Longrightarrow> monitored A \<delta> s (case c of MediaMessage u t n f b \<Rightarrow> m u t n f b | OtherMessage t b \<Rightarrow> g t b) Q R"
  by (cases c) simp_all

lemma monitored_transcoded [tool_rules]:
  "(\<And>a. Q a s) \<Longrightarrow> (\<And>e. R e s) \<Longrightarrow> monitored A \<delta> s (transcoded C wav) Q R"
  unfolding transcoded_def by (intro tool_rules) auto

lemma monitored_bool [tool_rules]:
  "(b \<Longrightarrow> monitored A \<delta> s m Q R) \<Longrightarrow> (\<not> b \<Longrightarrow> monitored A \<delta> s n Q R)
    \<Longrightarrow> monitored A \<delta> s (case b of True \<Rightarrow> m | False \<Rightarrow> n) Q R"
  by (cases b) simp_all

lemma monitored_attempt [tool_rules]:
  "(\<And>e. err = PermanentError e \<Longrightarrow> monitored A \<delta> s (f e) Q R)
    \<Longrightarrow> (\<And>e. err = TransientError e \<Longrightarrow> monitored A \<delta> s (g e) Q R)
    \<Longrightarrow> monitored A \<delta> s (case err of TransientError e \<Rightarrow> g e | PermanentError e \<Rightarrow> f e) Q R"
  by (cases err) simp_all

lemma monitored_tts:
  assumes "consistent A \<delta>" and "\<delta> s (Posted url v) = Some s" and "\<And>n. \<delta> s (Slept n) = Some s" and "\<And>b. Q b s" and "\<And>e. R e s"
  shows "monitored A \<delta> s (tts_attempts V url v max_bytes n last_err) Q R"
proof (induction n arbitrary: last_err)
  case 0
  then show ?case using assms by (auto intro: tool_rules)
next
  case (Suc n)
  show ?case unfolding tts_attempts.simps(2)
    using assms Suc.IH by (intro tool_rules) (auto simp del: tts_attempts.simps)
qed

text \<open>The page loop only asks for relations.\<close>

lemma monitored_pages:
  assumes "consistent A \<delta>"
    and "\<And>start. \<delta> s (Asked (GetRelations room_id ev AnnotationRelation MAX_RELATIONS_PAGE start)) = Some s"
    and "\<And>r. Q r s" and "\<And>m. R (Internal_error m) s"
  shows "monitored A \<delta> s (reaction_pages fuel E room_id ev limit start rs bad) Q R"
proof (induction fuel arbitrary: start rs bad)
  case 0
  then show ?case using assms by (auto intro: tool_rules)
next
  case (Suc fuel)
  show ?case unfolding reaction_pages.simps
    using assms Suc.IH by (intro tool_rules) auto
qed

text \<open>For a monitor whose state bookkeeping leaves alone.\<close>

lemmas handler_rules = tool_rules monitored_envelopes monitored_emit_all monitored_tts monitored_pages

section \<open>Handlers\<close>

text \<open>Handlers that read.\<close>

lemma list_joined_rooms_obeys: "obeys ReadCall setter (list_joined_rooms E ctx)"
  unfolding list_joined_rooms_def by (intro handler_rules) (auto simp: policy_facts)

lemma read_recent_messages_obeys: "obeys ReadCall setter (read_recent_messages E ctx p)"
  unfolding read_recent_messages_def by (intro handler_rules) (auto simp: policy_facts)

lemma read_thread_obeys: "obeys ReadCall setter (read_thread E ctx p)"
  unfolding read_thread_def by (intro handler_rules) (auto simp: policy_facts)

lemma read_reactions_obeys: "obeys ReadCall setter (read_reactions n E ctx p)"
  unfolding read_reactions_def by (intro handler_rules) (auto simp: policy_facts)

lemma verify_status_obeys: "obeys ReadCall setter (verify_status E ctx)"
  unfolding verify_status_def user_identity_def cross_signed_device_def by (intro handler_rules) (auto simp: policy_facts)

lemma room_info_obeys: "obeys ReadCall setter (room_info E ctx r)"
  unfolding room_info_def by (intro handler_rules) (auto simp: policy_facts)

lemma room_members_obeys: "obeys ReadCall setter (room_members E ctx r n)"
  unfolding room_members_def by (intro handler_rules) (auto simp: policy_facts)

lemma get_unread_summary_obeys: "obeys ReadCall setter (get_unread_summary E ctx b)"
  unfolding get_unread_summary_def by (intro handler_rules) (auto simp: policy_facts)

lemma list_recent_activity_obeys: "obeys ReadCall setter (list_recent_activity E ctx p)"
  unfolding list_recent_activity_def by (intro handler_rules) (auto simp: policy_facts)

lemma request_room_keys_obeys: "obeys ReadCall setter (request_room_keys E ctx r)"
  unfolding request_room_keys_def by (intro handler_rules) (auto simp: policy_facts)

lemma get_event_receipts_obeys: "obeys ReadCall setter (get_event_receipts E ctx r ev)"
  unfolding get_event_receipts_def by (intro handler_rules) (auto simp: policy_facts)

lemma list_threads_in_room_obeys: "obeys ReadCall setter (list_threads_in_room E ctx p)"
  unfolding list_threads_in_room_def by (intro handler_rules) (auto simp: policy_facts)

lemma get_room_state_obeys: "obeys ReadCall setter (get_room_state E ctx p)"
  unfolding get_room_state_def by (intro handler_rules) (auto simp: policy_facts)

lemma list_ignored_users_obeys: "obeys ReadCall setter (list_ignored_users E ctx)"
  unfolding list_ignored_users_def by (intro handler_rules) (auto simp: policy_facts)

lemma admin_get_power_levels_obeys: "obeys ReadCall setter (admin_get_power_levels E ctx r)"
  unfolding admin_get_power_levels_def by (intro handler_rules) (auto simp: policy_facts)

lemma download_attachment_obeys: "obeys ReadCall setter (download_attachment E b64 ctx r ev)"
  unfolding download_attachment_def by (intro handler_rules) (auto simp: policy_facts)

lemma users_get_profile_obeys: "obeys ReadCall setter (users_get_profile E ctx u)"
  unfolding users_get_profile_def by (intro handler_rules) (auto simp: policy_facts)

lemma search_messages_obeys: "obeys ReadCall setter (search_messages E ctx p)"
  unfolding search_messages_def by (intro handler_rules) (auto simp: policy_facts)

lemma invites_list_obeys: "obeys ReadCall setter (invites_list E ctx)"
  unfolding invites_list_def by (intro handler_rules) (auto simp: policy_facts)

lemma get_account_data_obeys: "obeys ReadCall setter (get_account_data E ctx t)"
  unfolding get_account_data_def by (intro handler_rules) (auto simp: policy_facts)

lemma get_presence_obeys: "obeys ReadCall setter (get_presence E ctx u)"
  unfolding get_presence_def by (intro handler_rules) (auto simp: policy_facts)

lemma get_space_hierarchy_obeys: "obeys ReadCall setter (get_space_hierarchy E ctx p)"
  unfolding get_space_hierarchy_def by (intro handler_rules) (auto simp: policy_facts)

text \<open>Handlers that write.\<close>

lemma send_text_message_obeys: "obeys WriteCall setter (send_text_message E ctx p)"
  unfolding send_text_message_def reply_target_def by (intro handler_rules) (auto simp: policy_facts)

lemma message_edit_obeys: "obeys WriteCall setter (message_edit E ctx p)"
  unfolding message_edit_def by (intro handler_rules) (auto simp: policy_facts)

lemma message_forward_obeys: "obeys WriteCall setter (message_forward E ctx p)"
  unfolding message_forward_def by (intro handler_rules) (auto simp: policy_facts)

lemma send_reaction_obeys: "obeys WriteCall setter (send_reaction E ctx p)"
  unfolding send_reaction_def by (intro handler_rules) (auto simp: policy_facts)

lemma redact_message_obeys: "obeys WriteCall setter (redact_message E ctx p)"
  unfolding redact_message_def by (intro handler_rules) (auto simp: policy_facts)

lemma mark_read_obeys: "obeys WriteCall setter (mark_read E ctx p)"
  unfolding mark_read_def by (intro handler_rules) (auto simp: policy_facts)

lemma bootstrap_cross_signing_obeys: "obeys WriteCall setter (bootstrap_cross_signing E ctx)"
  unfolding bootstrap_cross_signing_def user_identity_def cross_signed_device_def create_identity_def by (intro handler_rules) (auto simp: policy_facts)

lemma set_room_name_obeys: "obeys WriteCall setter (set_room_name E ctx p)"
  unfolding set_room_name_def by (intro handler_rules) (auto simp: policy_facts)

lemma set_room_topic_obeys: "obeys WriteCall setter (set_room_topic E ctx p)"
  unfolding set_room_topic_def by (intro handler_rules) (auto simp: policy_facts)

lemma ignore_user_obeys: "obeys WriteCall setter (ignore_user E ctx u)"
  unfolding ignore_user_def by (intro handler_rules) (auto simp: policy_facts)

lemma unignore_user_obeys: "obeys WriteCall setter (unignore_user E ctx u)"
  unfolding unignore_user_def by (intro handler_rules) (auto simp: policy_facts)

lemma admin_set_power_level_obeys: "obeys WriteCall setter (admin_set_power_level E ctx p)"
  unfolding admin_set_power_level_def by (intro handler_rules) (auto simp: policy_facts)

lemma toggle_pin_obeys: "obeys WriteCall setter (toggle_pin E ctx p add)"
  unfolding toggle_pin_def by (intro handler_rules) (auto simp: policy_facts)

lemma send_image_from_url_obeys: "obeys WriteCall setter (send_image_from_url E ctx p)"
  unfolding send_image_from_url_def upload_for_def by (intro handler_rules) (auto simp: policy_facts)

lemma send_media_from_url_obeys: "obeys WriteCall setter (send_media_from_url E ctx r url c f k)"
  unfolding send_media_from_url_def upload_for_def by (intro handler_rules) (auto simp: policy_facts)

lemma send_voice_message_obeys: "obeys WriteCall setter (send_voice_message E ctx p)"
  unfolding send_voice_message_def upload_for_def by (intro handler_rules) (auto simp: policy_facts)

lemma send_tts_voice_message_obeys: "obeys WriteCall setter (send_tts_voice_message E V ctx p)"
  unfolding send_tts_voice_message_def synthesize_tts_def by (intro handler_rules) (auto simp: policy_facts)

lemma me_set_displayname_obeys: "obeys WriteCall setter (me_set_displayname E ctx d)"
  unfolding me_set_displayname_def by (intro handler_rules) (auto simp: policy_facts split: option.splits)

lemma me_set_avatar_obeys: "obeys WriteCall setter (me_set_avatar E ctx u)"
  unfolding me_set_avatar_def upload_image_from_url_def upload_for_def by (intro handler_rules) (auto simp: policy_facts)

lemma join_room_obeys: "obeys WriteCall setter (join_room E ctx t)"
  unfolding join_room_def by (intro handler_rules) (auto simp: policy_facts)

lemma leave_room_obeys: "obeys WriteCall setter (leave_room E ctx r)"
  unfolding leave_room_def by (intro handler_rules) (auto simp: policy_facts)

lemma invite_user_obeys: "obeys WriteCall setter (invite_user E ctx r u)"
  unfolding invite_user_def by (intro handler_rules) (auto simp: policy_facts)

lemma room_create_dm_obeys: "obeys WriteCall setter (room_create_dm E ctx u)"
  unfolding room_create_dm_def by (intro handler_rules) (auto simp: policy_facts)

lemma invites_accept_obeys: "obeys WriteCall setter (invites_accept E ctx r)"
  unfolding invites_accept_def by (intro handler_rules) (auto simp: policy_facts)

lemma invites_reject_obeys: "obeys WriteCall setter (invites_reject E ctx r)"
  unfolding invites_reject_def by (intro handler_rules) (auto simp: policy_facts)

lemma set_account_data_obeys: "obeys WriteCall setter (set_account_data E J ctx t v)"
  unfolding set_account_data_def by (intro handler_rules) (auto simp: policy_facts)

lemma upload_media_from_url_obeys: "obeys WriteCall setter (upload_media_from_url E ctx url)"
  unfolding upload_media_from_url_def upload_for_def by (intro handler_rules) (auto simp: policy_facts)

lemma set_presence_obeys: "obeys WriteCall setter (set_presence E ctx t m)"
  unfolding set_presence_def by (intro handler_rules) (auto simp: policy_facts)

text \<open>Handlers with loops, several forms, or no envelope.\<close>

lemma get_user_receipts_obeys: "obeys ReadCall setter (get_user_receipts E ctx p)"
  unfolding get_user_receipts_def user_receipt_def
  by (intro handler_rules monitored_for [where I = granted]) (auto simp: policy_facts intro!: tool_rules)

lemma room_create_obeys: "obeys WriteCall setter (room_create E ctx p)"
  unfolding room_create_def
  by (intro handler_rules monitored_for [where I = "\<lambda>s. 0 < writes s"]) (auto simp: policy_facts intro!: tool_rules)

lemma membership_change_obeys: "obeys WriteCall setter (membership_change E ctx p action)"
  unfolding membership_change_def by (cases action; intro handler_rules) (auto simp: policy_facts)

lemma set_audit_room_obeys: "obeys WriteCall True (set_audit_room E ctx r)"
  unfolding set_audit_room_def by (intro handler_rules) (auto simp: policy_facts)

lemma monitored_audited:
  fixes body :: "('b, 'a) tool"
  assumes "consistent A \<delta>" and "\<And>a. stable \<delta> (Q a)" and "\<And>e. stable \<delta> (R e)" and "monitored A \<delta> s body Q R"
  shows "monitored A \<delta> s (\<lambda>w. let (r, w) = body w in (r, add_effects [emit_tool_audit E tool ctx rid n r] w)) Q R"
proof (rule monitored_effects [OF assms(1)], goal_cases)
  case (1 w)
  obtain r w' where b: "body w = (r, w')" by (metis prod.exhaust)
  obtain es s' where es: "tw_trace (snd (body w)) = tw_trace w @ es" "run_monitor \<delta> s es = Some s'"
    "case fst (body w) of Inl e \<Rightarrow> R e s' | Inr a \<Rightarrow> Q a s'"
    using assms(4) 1 by (rule monitoredE)
  have "list_all bookkeeping [emit_tool_audit E tool ctx rid n r]" by (simp add: emit_tool_audit_def)
  moreover have "stable \<delta> (\<lambda>s. case r of Inl e \<Rightarrow> R e s | Inr a \<Rightarrow> Q a s)" using assms(2,3) by (cases r) simp_all
  moreover have "case r of Inl e \<Rightarrow> R e s' | Inr a \<Rightarrow> Q a s'" using es(3) b by simp
  ultimately obtain t where "run_monitor \<delta> s' [emit_tool_audit E tool ctx rid n r] = Some t"
    "case r of Inl e \<Rightarrow> R e t | Inr a \<Rightarrow> Q a t"
    using run_stable [of \<delta> "\<lambda>s. case r of Inl e \<Rightarrow> R e s | Inr a \<Rightarrow> Q a s" s' "[emit_tool_audit E tool ctx rid n r]"]
    by metis
  with es(1,2) b show ?case
    by (intro exI [of _ "es @ [emit_tool_audit E tool ctx rid n r]"] exI [of _ t])
      (simp add: add_effects_def run_monitor_append)
qed

lemma whoami_obeys: "obeys ReadCall setter (whoami E ctx)"
  unfolding whoami_def
  by (rule monitored_audited, simp, (rule tolerant_stable, simp)+, intro tool_rules) (auto simp: policy_facts)

text \<open>One room of a fan-out: a granted write more, then at most one message more.\<close>

lemma charged_send_spares:
  assumes "sent s < writes s" and "length text \<le> 64 * 1024"
  shows "monitored any_history (policy WriteCall setter) s (charged_send E ctx text rid) (\<lambda>_ s. sent s < writes s) R"
proof -
  have "monitored any_history (policy WriteCall setter) \<lparr>granted = g, writes = w, sent = n\<rparr> (charged_send E ctx text rid)
      (\<lambda>_ s. sent s < writes s) R" if "n < w" for g w n
    unfolding charged_send_def send_text_to_room_def using that assms(2) by (intro handler_rules) auto
  then show ?thesis using assms(1) by (cases s) simp
qed

lemma send_bulk_obeys: "obeys WriteCall setter (send_bulk E ctx p)"
  unfolding send_bulk_def
  by (intro handler_rules monitored_for [where I = "\<lambda>s. sent s < writes s"])
    (auto simp: policy_facts intro: charged_send_spares)

lemma send_broadcast_obeys: "obeys WriteCall setter (send_broadcast E ctx p)"
  unfolding send_broadcast_def broadcast_to_def
  by (intro handler_rules monitored_for [where I = "\<lambda>s. sent s < writes s"])
    (auto simp: policy_facts intro: charged_send_spares tool_rules)

section \<open>Every call\<close>

text \<open>The tools annotated \<open>read_only_hint = true\<close>; \<open>request_room_keys\<close> is
  not one of them, though it asks for the quota of reads.\<close>

definition READ_ONLY_TOOLS :: "rstr list" where
  "READ_ONLY_TOOLS = [''whoami'', ''list_joined_rooms'', ''read_recent_messages'', ''read_thread'', ''read_reactions'',
     ''verify_status'', ''room_info'', ''room_members'', ''get_unread_summary'', ''list_recent_activity'',
     ''get_user_receipts'', ''get_event_receipts'', ''list_threads_in_room'', ''get_room_state'',
     ''list_ignored_users'', ''admin_get_power_levels'', ''download_attachment'', ''users_get_profile'',
     ''search_messages'', ''invites_list'', ''get_account_data'', ''get_presence'', ''get_space_hierarchy'']"

definition category_of :: "ToolCall \<Rightarrow> Category" where
  "category_of c =
     (if tool_name c \<in> set READ_ONLY_TOOLS \<or> tool_name c = ''request_room_keys'' then ReadCall else WriteCall)"

lemma effects_of_obeys: "obeys cat setter m \<Longrightarrow> obeys cat setter (effects_of m)"
  unfolding effects_of_def by (intro monitored_bind monitored_return, elim monitored_mono) (auto intro: monitored_return)

lemmas read_obey = whoami_obeys list_joined_rooms_obeys read_recent_messages_obeys read_thread_obeys
  read_reactions_obeys verify_status_obeys room_info_obeys room_members_obeys get_unread_summary_obeys
  list_recent_activity_obeys request_room_keys_obeys get_user_receipts_obeys get_event_receipts_obeys
  list_threads_in_room_obeys get_room_state_obeys list_ignored_users_obeys admin_get_power_levels_obeys
  download_attachment_obeys users_get_profile_obeys search_messages_obeys invites_list_obeys
  get_account_data_obeys get_presence_obeys get_space_hierarchy_obeys

lemmas write_obey = send_text_message_obeys message_edit_obeys message_forward_obeys send_reaction_obeys
  redact_message_obeys mark_read_obeys bootstrap_cross_signing_obeys set_room_name_obeys set_room_topic_obeys
  ignore_user_obeys unignore_user_obeys admin_set_power_level_obeys toggle_pin_obeys send_image_from_url_obeys
  send_media_from_url_obeys send_voice_message_obeys send_tts_voice_message_obeys me_set_displayname_obeys
  me_set_avatar_obeys join_room_obeys leave_room_obeys invite_user_obeys room_create_obeys room_create_dm_obeys
  invites_accept_obeys invites_reject_obeys set_account_data_obeys upload_media_from_url_obeys
  set_presence_obeys membership_change_obeys set_audit_room_obeys send_bulk_obeys send_broadcast_obeys

lemma category_cases:
  "category_of (RoomMembership mp action) = WriteCall" "category_of (RoomPin pp add) = WriteCall"
  by (cases action; simp add: category_of_def READ_ONLY_TOOLS_def) (simp add: category_of_def READ_ONLY_TOOLS_def)

lemma call_tool_obeys:
  "obeys (category_of c) (tool_name c = ''set_audit_room'') (call_tool E L ctx c)"
  by (cases c)
    (simp_all only: call_tool.simps, simp_all add: category_cases,
     simp_all add: category_of_def READ_ONLY_TOOLS_def effects_of_obeys read_obey write_obey
       send_file_def send_video_def send_audio_def)

section \<open>What the policy says of a trace\<close>

text \<open>The effects a computation adds.\<close>

definition new_effects :: "('b, 'a) tool \<Rightarrow> 'b ToolWorld \<Rightarrow> Effect list" where
  "new_effects m w = drop (length (tw_trace w)) (tw_trace (snd (m w)))"

lemma monitored_run:
  assumes "monitored A \<delta> s m Q R" and "A (tw_trace w) s"
  obtains s' where "run_monitor \<delta> s (new_effects m w) = Some s'"
    and "tw_trace (snd (m w)) = tw_trace w @ new_effects m w"
    and "case fst (m w) of Inl e \<Rightarrow> R e s' | Inr a \<Rightarrow> Q a s'"
proof -
  obtain es s' where "tw_trace (snd (m w)) = tw_trace w @ es" "run_monitor \<delta> s es = Some s'"
    "case fst (m w) of Inl e \<Rightarrow> R e s' | Inr a \<Rightarrow> Q a s'" using assms by (rule monitoredE)
  then show thesis by (intro that [of s']) (simp_all add: new_effects_def)
qed

lemma any_history [simp]: "any_history h s"
  by (simp add: any_history_def)

text \<open>Effects that reach somebody else, and those that may change something there.\<close>

fun changes :: "Effect \<Rightarrow> bool" where
  "changes (Did c) = True"
| "changes (Requested url) = True"
| "changes (Posted url v) = True"
| "changes _ = False"

fun contacts :: "Effect \<Rightarrow> bool" where
  "contacts (Asked q) = True"
| "contacts (PullSpawned u r) = True"
| "contacts e = changes e"

fun is_message :: "Effect \<Rightarrow> bool" where
  "is_message (Did c) = sends_message c"
| "is_message _ = False"

lemma policy_step:
  assumes "policy cat setter s e = Some s'"
  shows "writes s' = writes s + (if e = Charged WriteCall True then 1 else 0)"
    and "sent s' = sent s + (if is_message e then 1 else 0)"
    and "is_message e \<Longrightarrow> sent s < writes s"
    and "changes e \<Longrightarrow> 0 < writes s"
    and "contacts e \<Longrightarrow> granted s \<or> 0 < writes s"
    and "granted s' \<longleftrightarrow> granted s \<or> (\<exists>c. e = Charged c True)"
    and "cat = ReadCall \<Longrightarrow> e \<noteq> Charged WriteCall True"
    and "e = Did c \<Longrightarrow> write_allowed setter c"
  using assms by (cases e; auto split: if_splits)+

lemma run_policy:
  assumes "run_monitor (policy cat setter) s es = Some s'"
  shows "writes s' = writes s + length (filter (\<lambda>e. e = Charged WriteCall True) es)"
    and "sent s' = sent s + length (filter is_message es)"
    and "sent s \<le> writes s \<Longrightarrow> sent s' \<le> writes s'"
    and "Did c \<in> set es \<Longrightarrow> write_allowed setter c"
    and "cat = ReadCall \<Longrightarrow> writes s = 0 \<Longrightarrow> e \<in> set es \<Longrightarrow> \<not> changes e"
  using assms
proof (induction es arbitrary: s)
  case (Cons x es)
  {
    case 1 with Cons.IH(1) show ?case by (auto split: option.splits simp: policy_step(1))
  next
    case 2 with Cons.IH(2) show ?case by (auto split: option.splits simp: policy_step(2))
  next
    case 3
    then obtain t where t: "policy cat setter s x = Some t" "run_monitor (policy cat setter) t es = Some s'"
      by (auto split: option.splits)
    from policy_step(1-3) [OF t(1)] 3(1) have "sent t \<le> writes t" by (auto split: if_splits)
    with Cons.IH(3) [of t] t(2) show ?case by blast
  next
    case 4
    then obtain t where t: "policy cat setter s x = Some t" "run_monitor (policy cat setter) t es = Some s'"
      by (auto split: option.splits)
    from policy_step(8) [OF t(1)] Cons.IH(4) [of t] 4 t(2) show ?case by auto
  next
    case 5
    then obtain t where t: "policy cat setter s x = Some t" "run_monitor (policy cat setter) t es = Some s'"
      by (auto split: option.splits)
    from policy_step(1,4,7) [OF t(1)] 5(1,2) have "writes t = 0" "\<not> changes x" by auto
    with Cons.IH(5) [of t] 5 t(2) show ?case by auto
  }
qed simp_all

lemma run_policy_grant_first:
  assumes "run_monitor (policy cat setter) s es = Some s'" and "es = before @ e # after" and "contacts e"
    and "\<not> granted s" and "writes s = 0"
  shows "\<exists>c. Charged c True \<in> set before"
proof (rule ccontr)
  assume none: "\<not> ?thesis"
  have "\<not> granted t \<and> writes t = 0" if "run_monitor (policy cat setter) u xs = Some t" "\<not> granted u" "writes u = 0"
    "\<not> (\<exists>c. Charged c True \<in> set xs)" for xs u t
    using that
  proof (induction xs arbitrary: u)
    case (Cons x xs)
    then obtain v where v: "policy cat setter u x = Some v" "run_monitor (policy cat setter) v xs = Some t"
      by (auto split: option.splits)
    from policy_step(1,6) [OF v(1)] Cons.prems have "\<not> granted v" "writes v = 0" by auto
    with Cons v(2) show ?case by auto
  qed simp
  with assms none show False
    by (auto simp: run_monitor_append bind_eq_Some_conv split: option.splits) (metis policy_step(5) less_irrefl)
qed

lemma call_run:
  obtains s' where "run_monitor (policy (category_of c) (tool_name c = ''set_audit_room'')) nothing_granted
      (new_effects (call_tool E L ctx c) w) = Some s'"
  using call_tool_obeys any_history by (rule monitored_run)

text \<open>C5: A tool that is annotated as read-only changes nothing: it makes no request that writes, fetches no URL and posts
  nothing, whatever its parameters and whatever the homeserver answers.\<close>

theorem read_only_tools_change_nothing:
  assumes "tool_name c \<in> set READ_ONLY_TOOLS" and "e \<in> set (new_effects (call_tool E L ctx c) w)"
  shows "\<not> changes e"
proof -
  obtain s' where "run_monitor (policy (category_of c) (tool_name c = ''set_audit_room'')) nothing_granted
      (new_effects (call_tool E L ctx c) w) = Some s'" by (rule call_run)
  from run_policy(5) [OF this _ _ assms(2)] assms(1) show ?thesis by (simp add: category_of_def nothing_granted_def)
qed

theorem read_only_tools_change_nothing_witness:
  "\<forall>L :: nat ToolLibs. \<exists>e. e \<in> set (new_effects (call_tool kind_env L kind_ctx (GetPresenceTool None)) kind_world)
     \<and> e = Asked (GetPresence ''@a:x'') \<and> \<not> changes e"
proof
  fix L :: "nat ToolLibs"
  have "Asked (GetPresence ''@a:x'') \<in> set (new_effects (call_tool kind_env L kind_ctx (GetPresenceTool None)) kind_world)"
    by (simp add: new_effects_def kind_presence del: call_tool.simps)
  from this read_only_tools_change_nothing [OF _ this]
  show "\<exists>e. e \<in> set (new_effects (call_tool kind_env L kind_ctx (GetPresenceTool None)) kind_world)
     \<and> e = Asked (GetPresence ''@a:x'') \<and> \<not> changes e" by (auto simp: READ_ONLY_TOOLS_def)
qed



text \<open>A call sends no more messages (texts, edits, reactions and media messages) than the limiter has granted it
  writes: also a fan-out to many rooms pays for each message.\<close>

theorem messages_within_granted_writes:
  "length (filter is_message (new_effects (call_tool E L ctx c) w))
     \<le> length (filter (\<lambda>e. e = Charged WriteCall True) (new_effects (call_tool E L ctx c) w))"
proof -
  obtain s' where "run_monitor (policy (category_of c) (tool_name c = ''set_audit_room'')) nothing_granted
      (new_effects (call_tool E L ctx c) w) = Some s'" by (rule call_run)
  from run_policy(1-3) [OF this] show ?thesis by (simp add: nothing_granted_def)
qed

text \<open>C8: What a call writes has been checked: text bodies are at most 64 KiB, reaction keys 1 KiB, reasons 64 KiB, display
  names 256 bytes; account data is a JSON object, and of a reserved type only as the audit room, by its own tool.\<close>

theorem writes_are_checked:
  assumes "Did command \<in> set (new_effects (call_tool E L ctx c) w)"
  shows "write_allowed (tool_name c = ''set_audit_room'') command"
proof -
  obtain s' where "run_monitor (policy (category_of c) (tool_name c = ''set_audit_room'')) nothing_granted
      (new_effects (call_tool E L ctx c) w) = Some s'" by (rule call_run)
  from run_policy(4) [OF this assms] show ?thesis .
qed

theorem writes_are_checked_witness:
  "\<forall>L :: nat ToolLibs. \<exists>command.
     Did command \<in> set (new_effects (call_tool kind_env L kind_ctx (SetAuditRoom ''!r:x'')) kind_world)
     \<and> write_allowed True command \<and> \<not> write_allowed False command"
proof
  fix L :: "nat ToolLibs"
  let ?command = "SetAccountData ''m.audit_room'' (JObj [(''room_id'', JStr ''!r:x'')])"
  have e: "Did ?command \<in> set (new_effects (call_tool kind_env L kind_ctx (SetAuditRoom ''!r:x'')) kind_world)"
    by (simp add: new_effects_def kind_audit_room del: call_tool.simps)
  from writes_are_checked [OF e] have "write_allowed True ?command" by simp
  moreover have "\<not> write_allowed False ?command" by (simp add: account_data_event_type_is_reserved_def)
  ultimately show "\<exists>command. Did command \<in> set (new_effects (call_tool kind_env L kind_ctx (SetAuditRoom ''!r:x'')) kind_world)
      \<and> write_allowed True command \<and> \<not> write_allowed False command" using e by blast
qed

section \<open>The channel mount\<close>

text \<open>What a channel session may change: it answers, reacts and acknowledges.\<close>

fun channel_write :: "Effect \<Rightarrow> bool" where
  "channel_write (Did (SendText r b reply)) = True"
| "channel_write (Did (SendReaction r ev k)) = True"
| "channel_write (Did (SendReceipt r ev)) = True"
| "channel_write e = False"

definition channel_monitor :: "unit \<Rightarrow> Effect \<Rightarrow> unit option" where
  "channel_monitor s e = (if changes e \<longrightarrow> channel_write e then Some () else None)"

lemma channel_tolerant [simp]: "tolerant channel_monitor"
  unfolding tolerant_def
proof (intro allI impI)
  fix s :: unit and e assume "bookkeeping e" then show "channel_monitor s e = Some s"
    by (cases e) (auto simp: channel_monitor_def)
qed

abbreviation confined :: "('b, 'a) tool \<Rightarrow> bool" where
  "confined m \<equiv> monitored any_history channel_monitor () m (\<lambda>_ _. True) (\<lambda>_ _. True)"

lemma channel_tools_confined:
  "confined (whoami E ctx)" "confined (list_joined_rooms E ctx)" "confined (read_recent_messages E ctx rp)"
  "confined (read_thread E ctx tp)" "confined (send_text_message E ctx sp)" "confined (send_reaction E ctx cp)"
  "confined (mark_read E ctx mp)" "confined (download_attachment E b64 ctx r ev)"
proof -
  show "confined (whoami E ctx)" unfolding whoami_def
    by (rule monitored_audited, simp, (rule tolerant_stable, simp)+, intro tool_rules) (auto simp: channel_monitor_def)
  show "confined (list_joined_rooms E ctx)" "confined (read_recent_messages E ctx rp)" "confined (read_thread E ctx tp)"
    unfolding list_joined_rooms_def read_recent_messages_def read_thread_def
    by (intro handler_rules; auto simp: channel_monitor_def)+
  show "confined (send_text_message E ctx sp)" "confined (send_reaction E ctx cp)" "confined (mark_read E ctx mp)"
    unfolding send_text_message_def reply_target_def send_reaction_def mark_read_def
    by (intro handler_rules; auto simp: channel_monitor_def)+
  show "confined (download_attachment E b64 ctx r ev)"
    unfolding download_attachment_def by (intro handler_rules) (auto simp: channel_monitor_def)
qed

lemma run_channel: "run_monitor channel_monitor s es = Some s' \<Longrightarrow> e \<in> set es \<Longrightarrow> changes e \<Longrightarrow> channel_write e"
  by (induction es) (auto simp: channel_monitor_def split: option.splits if_splits)

lemma effects_of_confined: "confined m \<Longrightarrow> confined (effects_of m)"
  unfolding effects_of_def by (intro monitored_bind monitored_return, elim monitored_mono) (auto intro: monitored_return)

lemma dispatch_confined: "confined (dispatch E L (into_channel_mode routes) ctx c)"
proof (cases "tool_name c \<in> set CHANNEL_TOOLS")
  case False
  then show ?thesis by (auto simp: dispatch_def into_channel_mode_def intro: tool_rules)
next
  case True
  then have "confined (call_tool E L ctx c)"
  proof (cases c)
    case (RoomMembership mp action)
    with True show ?thesis by (cases action) (simp_all add: CHANNEL_TOOLS_def)
  qed (simp_all add: CHANNEL_TOOLS_def effects_of_confined channel_tools_confined split: if_splits)
  then show ?thesis by (auto simp: dispatch_def intro: tool_rules)
qed

text \<open>A session on the channel mount, whatever call it makes and whatever tools the server has, changes nothing but by
  sending a text message, a reaction or a read receipt: it cannot redact, invite, administer, write account data,
  fetch a URL or speak.\<close>

theorem channel_session_confined:
  assumes "e \<in> set (new_effects (dispatch E L (into_channel_mode routes) ctx c) w)" and "changes e"
  shows "channel_write e"
proof -
  obtain s' where "run_monitor channel_monitor () (new_effects (dispatch E L (into_channel_mode routes) ctx c) w) = Some s'"
    using dispatch_confined any_history by (rule monitored_run)
  from run_channel [OF this assms] show ?thesis .
qed

theorem channel_session_confined_witness:
  "\<forall>L :: nat ToolLibs. \<exists>e.
     e \<in> set (new_effects (dispatch kind_env L (into_channel_mode [''mark_read'', ''leave_room'']) kind_ctx
       (MarkRead kind_mark)) kind_world) \<and> changes e \<and> channel_write e"
proof
  fix L :: "nat ToolLibs"
  let ?run = "dispatch kind_env L (into_channel_mode [''mark_read'', ''leave_room'']) kind_ctx (MarkRead kind_mark)"
  have e: "Did (SendReceipt ''!r:x'' ''$1'') \<in> set (new_effects ?run kind_world)"
    by (simp add: new_effects_def kind_mark_read del: call_tool.simps)
  from channel_session_confined [OF e] e
  show "\<exists>e. e \<in> set (new_effects ?run kind_world) \<and> changes e \<and> channel_write e" by auto
qed

end
