(* ===== verification/ToolAudit.thy ===== *)
theory ToolAudit
  imports ToolPolicy
begin

text \<open>
  What every tool call leaves behind for the operator and the user: one audit record that says how
  the call ended, the notice of a write, and the evictions of an expired session. The bodies of the
  handlers are quiet: all of this is the work of the envelopes.
\<close>

fun is_log :: "Effect \<Rightarrow> bool" where
  "is_log (Logged t m r ou c k) = True"
| "is_log _ = False"

fun is_notice :: "Effect \<Rightarrow> bool" where
  "is_notice (NoticeSpawned t r ou) = True"
| "is_notice _ = False"

fun is_eviction :: "Effect \<Rightarrow> bool" where
  "is_eviction (EvictedClient m) = True"
| "is_eviction (DroppedToken t) = True"
| "is_eviction _ = False"

definition unreported :: "ErrorData + 'a \<Rightarrow> bool" where
  "unreported r \<longleftrightarrow> r = Inl Rate_limited \<or> r = Inl Auth_expired"

text \<open>\<open>noticing\<close> is whether the tool announces its calls in the audit room.\<close>

definition accounted :: "'b ToolEnv \<Rightarrow> RequestContext \<Rightarrow> rstr \<Rightarrow> bool \<Rightarrow> ('b, 'a) tool \<Rightarrow> bool" where
  "accounted E ctx tool noticing m \<longleftrightarrow> (\<forall>w. let r = fst (m w); es = new_effects m w in
     (\<exists>rid cnt. filter is_log es = [emit_tool_audit E tool ctx rid cnt r])
     \<and> (\<forall>e\<in>set es. is_eviction e \<longrightarrow> r = Inl Auth_expired \<and> e \<in> set (evictions ctx))
     \<and> (\<exists>rid. filter is_notice es \<in> {[], [NoticeSpawned tool rid (if isl r then ''error'' else ''ok'')]})
     \<and> (filter is_notice es \<noteq> [] \<longrightarrow> noticing \<and> \<not> unreported r)
     \<and> (noticing \<and> \<not> unreported r \<and> (\<exists>i t. ctx_identity ctx = Some i \<and> ctx_token ctx = Some t
            \<and> (\<forall>h. sd_for_user (te_sdk E) h (mxid i) t = None)) \<longrightarrow> filter is_notice es \<noteq> []))"

definition quiet_monitor :: "unit \<Rightarrow> Effect \<Rightarrow> unit option" where
  "quiet_monitor s e = (if is_log e \<or> is_notice e \<or> is_eviction e then None else Some ())"

definition quiet_body :: "('b, 'a) tool \<Rightarrow> bool" where
  "quiet_body m \<longleftrightarrow> monitored any_history quiet_monitor () m (\<lambda>_ _. True) (\<lambda>_ _. True)"

lemma quiet_bodyI: "monitored any_history quiet_monitor () m (\<lambda>_ _. True) (\<lambda>_ _. True) \<Longrightarrow> quiet_body m"
  by (simp add: quiet_body_def)

lemma run_quiet: "run_monitor quiet_monitor s es = Some s' \<Longrightarrow> e \<in> set es \<Longrightarrow> \<not> (is_log e \<or> is_notice e \<or> is_eviction e)"
  by (induction es) (auto simp: quiet_monitor_def split: option.splits if_splits)

lemma quiet_effects:
  assumes "quiet_body m"
  obtains es where "tw_trace (snd (m w)) = tw_trace w @ es" and "filter is_log es = []" and "filter is_notice es = []"
    and "\<forall>e\<in>set es. \<not> is_eviction e"
proof -
  obtain es s' where es: "tw_trace (snd (m w)) = tw_trace w @ es" "run_monitor quiet_monitor () es = Some s'"
    using assms any_history unfolding quiet_body_def by (rule monitoredE)
  from run_quiet [OF es(2)] es(1) show thesis by (intro that [of es]) (auto simp: filter_empty_conv)
qed

text \<open>The reaction to an expired session: evictions only when the result becomes the expiry.\<close>

lemma react_effects:
  fixes p :: "(ErrorData + 'a) \<times> 'b ToolWorld"
  obtains ev where "tw_trace (snd (react_to_auth_expiry ctx p)) = tw_trace (snd p) @ ev"
    and "ev = [] \<or> ev = evictions ctx \<and> fst (react_to_auth_expiry ctx p) = Inl Auth_expired"
proof (cases "\<exists>msg. fst p = Inl (Internal_error msg) \<and> is_auth_expiry_signature msg")
  case True
  then have "react_to_auth_expiry ctx p = (Inl Auth_expired, add_effects (evictions ctx) (snd p))"
    by (cases p) (auto simp: react_to_auth_expiry_def)
  then show thesis by (intro that [of "evictions ctx"]) (simp_all add: add_effects_def)
next
  case False
  then have "react_to_auth_expiry ctx p = p"
    by (cases p) (auto simp: react_to_auth_expiry_def split: sum.splits ErrorData.splits)
  then show thesis by (intro that [of "[]"]) simp_all
qed

lemma evictions_only: "e \<in> set (evictions ctx) \<Longrightarrow> is_eviction e \<and> \<not> is_log e \<and> \<not> is_notice e"
  by (auto simp: evictions_def split: option.splits)

lemma notice_effects:
  "filter is_log (emit_write_notice E ctx tool rid r h) = []"
  "\<forall>e\<in>set (emit_write_notice E ctx tool rid r h). \<not> is_eviction e"
  "filter is_notice (emit_write_notice E ctx tool rid r h)
     \<in> {[], [NoticeSpawned tool rid (if isl r then ''error'' else ''ok'')]}"
  "filter is_notice (emit_write_notice E ctx tool rid r h) \<noteq> [] \<Longrightarrow> \<not> unreported r"
  "\<not> unreported r \<Longrightarrow> ctx_identity ctx = Some i \<Longrightarrow> ctx_token ctx = Some t
     \<Longrightarrow> \<forall>h. sd_for_user (te_sdk E) h (mxid i) t = None \<Longrightarrow> filter is_notice (emit_write_notice E ctx tool rid r h) \<noteq> []"
  by (auto simp: emit_write_notice_def unreported_def split: option.splits)

lemma accountedI:
  assumes "\<And>w. \<exists>rid cnt es ev nt. tw_trace (snd (m w)) = tw_trace w @ es
     \<and> filter is_log es = [emit_tool_audit E tool ctx rid cnt (fst (m w))]
     \<and> (\<forall>e\<in>set es. is_eviction e \<longrightarrow> fst (m w) = Inl Auth_expired \<and> e \<in> set (evictions ctx))
     \<and> filter is_notice es = filter is_notice nt
     \<and> nt = (if noticing then emit_write_notice E ctx tool rid (fst (m w)) ev else [])"
  shows "accounted E ctx tool noticing m"
  unfolding accounted_def Let_def
proof (intro allI conjI)
  fix w
  obtain rid cnt es ev nt where a: "tw_trace (snd (m w)) = tw_trace w @ es"
    "filter is_log es = [emit_tool_audit E tool ctx rid cnt (fst (m w))]"
    "\<forall>e\<in>set es. is_eviction e \<longrightarrow> fst (m w) = Inl Auth_expired \<and> e \<in> set (evictions ctx)"
    "filter is_notice es = filter is_notice nt"
    "nt = (if noticing then emit_write_notice E ctx tool rid (fst (m w)) ev else [])" using assms by blast
  have n: "new_effects m w = es" using a(1) by (simp add: new_effects_def)
  show "\<exists>rid cnt. filter is_log (new_effects m w) = [emit_tool_audit E tool ctx rid cnt (fst (m w))]"
    using a(2) n by blast
  show "\<forall>e\<in>set (new_effects m w). is_eviction e \<longrightarrow> fst (m w) = Inl Auth_expired \<and> e \<in> set (evictions ctx)"
    using a(3) n by blast
  show "\<exists>rid. filter is_notice (new_effects m w)
      \<in> {[], [NoticeSpawned tool rid (if isl (fst (m w)) then ''error'' else ''ok'')]}"
    unfolding n a(4,5) using notice_effects(3) [of E ctx tool rid "fst (m w)" ev] by (cases noticing) auto
  show "filter is_notice (new_effects m w) \<noteq> [] \<longrightarrow> noticing \<and> \<not> unreported (fst (m w))"
    unfolding n a(4,5) using notice_effects(4) [of E ctx tool rid "fst (m w)" ev] by (cases noticing) auto
  show "noticing \<and> \<not> unreported (fst (m w)) \<and> (\<exists>i t. ctx_identity ctx = Some i \<and> ctx_token ctx = Some t
      \<and> (\<forall>h. sd_for_user (te_sdk E) h (mxid i) t = None)) \<longrightarrow> filter is_notice (new_effects m w) \<noteq> []"
    unfolding n a(4,5) using notice_effects(5) [of "fst (m w)" ctx _ _ E tool rid ev] by auto
qed

lemma accounted_tail:
  assumes "quiet_body body"
    and tail: "\<And>r w w'. react_to_auth_expiry ctx (body w) = (r, w') \<Longrightarrow>
      \<exists>es rid cnt h. m w = (r, add_effects es w') \<and> filter is_log es = [emit_tool_audit E tool ctx rid cnt r]
        \<and> (\<forall>e\<in>set es. \<not> is_eviction e)
        \<and> filter is_notice es = filter is_notice (if noticing then emit_write_notice E ctx tool rid r h else [])"
  shows "accounted E ctx tool noticing m"
proof (rule accountedI)
  fix w
  obtain es where es: "tw_trace (snd (body w)) = tw_trace w @ es" "filter is_log es = []" "filter is_notice es = []"
    "\<forall>e\<in>set es. \<not> is_eviction e" using assms(1) by (rule quiet_effects)
  obtain ev where ev: "tw_trace (snd (react_to_auth_expiry ctx (body w))) = tw_trace (snd (body w)) @ ev"
    "ev = [] \<or> ev = evictions ctx \<and> fst (react_to_auth_expiry ctx (body w)) = Inl Auth_expired" by (rule react_effects)
  obtain r w' where p: "react_to_auth_expiry ctx (body w) = (r, w')" by (metis prod.exhaust)
  obtain fs rid cnt h where t: "m w = (r, add_effects fs w')" "filter is_log fs = [emit_tool_audit E tool ctx rid cnt r]"
    "\<forall>e\<in>set fs. \<not> is_eviction e"
    "filter is_notice fs = filter is_notice (if noticing then emit_write_notice E ctx tool rid r h else [])"
    using tail [OF p] by blast
  have e: "tw_trace w' = tw_trace w @ es @ ev" "ev = [] \<or> ev = evictions ctx \<and> r = Inl Auth_expired"
    using es(1) ev p by simp_all
  have "filter is_log ev = []" "filter is_notice ev = []" using e(2) evictions_only by (auto simp: filter_empty_conv)
  moreover have "\<forall>x\<in>set (es @ ev @ fs). is_eviction x \<longrightarrow> r = Inl Auth_expired \<and> x \<in> set (evictions ctx)"
    using es(4) e(2) t(3) by auto
  ultimately show "\<exists>rid cnt es ev nt. tw_trace (snd (m w)) = tw_trace w @ es
     \<and> filter is_log es = [emit_tool_audit E tool ctx rid cnt (fst (m w))]
     \<and> (\<forall>e\<in>set es. is_eviction e \<longrightarrow> fst (m w) = Inl Auth_expired \<and> e \<in> set (evictions ctx))
     \<and> filter is_notice es = filter is_notice nt
     \<and> nt = (if noticing then emit_write_notice E ctx tool rid (fst (m w)) ev else [])"
    using es(2,3) t e(1)
    by (intro exI [of _ rid] exI [of _ cnt] exI [of _ "es @ ev @ fs"] exI [of _ h]
        exI [of _ "if noticing then emit_write_notice E ctx tool rid r h else []"]) (simp add: add_effects_def)
qed

lemma accounted_envelope:
  fixes body :: "('b, 'a) tool"
  assumes "quiet_body body"
  shows "accounted E ctx tool False (read_tool E ctx tool rid cnt body)"
    and "accounted E ctx tool True (write_tool E ctx tool rid body)"
    and "accounted E ctx tool True (notice_first_tool E ctx tool rid body)"
proof -
  have log: "is_log (emit_tool_audit E tool ctx rid n r)" "\<not> is_notice (emit_tool_audit E tool ctx rid n r)"
    "\<not> is_eviction (emit_tool_audit E tool ctx rid n r)" for n and r :: "ErrorData + 'a"
    by (simp_all add: emit_tool_audit_def)
  show "accounted E ctx tool False (read_tool E ctx tool rid cnt body)"
  proof (rule accounted_tail [OF assms])
    fix r w w' assume p: "react_to_auth_expiry ctx (body w) = (r, w')"
    show "\<exists>es rid' cnt' h. read_tool E ctx tool rid cnt body w = (r, add_effects es w')
        \<and> filter is_log es = [emit_tool_audit E tool ctx rid' cnt' r] \<and> (\<forall>e\<in>set es. \<not> is_eviction e)
        \<and> filter is_notice es = filter is_notice (if False then emit_write_notice E ctx tool rid' r h else [])"
      by (intro exI [of _ "[emit_tool_audit E tool ctx rid (cnt r) r]"] exI [of _ rid] exI [of _ "cnt r"] exI)
        (simp add: read_tool_def p log)
  qed
  show "accounted E ctx tool True (write_tool E ctx tool rid body)"
  proof (rule accounted_tail [OF assms])
    fix r w w' assume p: "react_to_auth_expiry ctx (body w) = (r, w')"
    define l where "l = emit_tool_audit E tool ctx rid None r"
    define es where "es = l # emit_write_notice E ctx tool rid r (tw_trace w' @ [l])"
    show "\<exists>es rid' cnt' h. write_tool E ctx tool rid body w = (r, add_effects es w')
        \<and> filter is_log es = [emit_tool_audit E tool ctx rid' cnt' r] \<and> (\<forall>e\<in>set es. \<not> is_eviction e)
        \<and> filter is_notice es = filter is_notice (if True then emit_write_notice E ctx tool rid' r h else [])"
      by (intro exI [of _ es] exI [of _ rid] exI [of _ None] exI [of _ "tw_trace w' @ [l]"])
        (simp add: es_def l_def write_tool_def p log notice_effects(1,2) add_effects_def Let_def)
  qed
  show "accounted E ctx tool True (notice_first_tool E ctx tool rid body)"
  proof (rule accounted_tail [OF assms])
    fix r w w' assume p: "react_to_auth_expiry ctx (body w) = (r, w')"
    define es where "es = emit_write_notice E ctx tool rid r (tw_trace w') @ [emit_tool_audit E tool ctx rid None r]"
    show "\<exists>es rid' cnt' h. notice_first_tool E ctx tool rid body w = (r, add_effects es w')
        \<and> filter is_log es = [emit_tool_audit E tool ctx rid' cnt' r] \<and> (\<forall>e\<in>set es. \<not> is_eviction e)
        \<and> filter is_notice es = filter is_notice (if True then emit_write_notice E ctx tool rid' r h else [])"
      by (intro exI [of _ es] exI [of _ rid] exI [of _ None] exI [of _ "tw_trace w'"])
        (auto simp: es_def notice_first_tool_def p log notice_effects(1,2) add_effects_def Let_def)
  qed
qed

section \<open>Handlers\<close>

lemma list_joined_rooms_accounted: "accounted E ctx ''list_joined_rooms'' False (list_joined_rooms E ctx)"
  unfolding list_joined_rooms_def
  by (intro accounted_envelope quiet_bodyI handler_rules) (auto simp: quiet_monitor_def)

lemma read_recent_messages_accounted: "accounted E ctx ''read_recent_messages'' False (read_recent_messages E ctx p)"
  unfolding read_recent_messages_def
  by (intro accounted_envelope quiet_bodyI handler_rules) (auto simp: quiet_monitor_def)

lemma read_thread_accounted: "accounted E ctx ''read_thread'' False (read_thread E ctx p)"
  unfolding read_thread_def
  by (intro accounted_envelope quiet_bodyI handler_rules) (auto simp: quiet_monitor_def)

lemma read_reactions_accounted: "accounted E ctx ''read_reactions'' False (read_reactions n E ctx p)"
  unfolding read_reactions_def
  by (intro accounted_envelope quiet_bodyI handler_rules) (auto simp: quiet_monitor_def)

lemma verify_status_accounted: "accounted E ctx ''verify_status'' False (verify_status E ctx)"
  unfolding verify_status_def user_identity_def cross_signed_device_def
  by (intro accounted_envelope quiet_bodyI handler_rules) (auto simp: quiet_monitor_def)

lemma room_info_accounted: "accounted E ctx ''room_info'' False (room_info E ctx r)"
  unfolding room_info_def
  by (intro accounted_envelope quiet_bodyI handler_rules) (auto simp: quiet_monitor_def)

lemma room_members_accounted: "accounted E ctx ''room_members'' False (room_members E ctx r n)"
  unfolding room_members_def
  by (intro accounted_envelope quiet_bodyI handler_rules) (auto simp: quiet_monitor_def)

lemma get_unread_summary_accounted: "accounted E ctx ''get_unread_summary'' False (get_unread_summary E ctx b)"
  unfolding get_unread_summary_def
  by (intro accounted_envelope quiet_bodyI handler_rules) (auto simp: quiet_monitor_def)

lemma list_recent_activity_accounted: "accounted E ctx ''list_recent_activity'' False (list_recent_activity E ctx p)"
  unfolding list_recent_activity_def
  by (intro accounted_envelope quiet_bodyI handler_rules) (auto simp: quiet_monitor_def)

lemma get_user_receipts_accounted: "accounted E ctx ''get_user_receipts'' False (get_user_receipts E ctx p)"
  unfolding get_user_receipts_def user_receipt_def
  by (intro accounted_envelope quiet_bodyI handler_rules monitored_for [where I = "\<lambda>_. True"]) (auto simp: quiet_monitor_def intro!: tool_rules)

lemma get_event_receipts_accounted: "accounted E ctx ''get_event_receipts'' False (get_event_receipts E ctx r ev)"
  unfolding get_event_receipts_def
  by (intro accounted_envelope quiet_bodyI handler_rules) (auto simp: quiet_monitor_def)

lemma list_threads_in_room_accounted: "accounted E ctx ''list_threads_in_room'' False (list_threads_in_room E ctx p)"
  unfolding list_threads_in_room_def
  by (intro accounted_envelope quiet_bodyI handler_rules) (auto simp: quiet_monitor_def)

lemma get_room_state_accounted: "accounted E ctx ''get_room_state'' False (get_room_state E ctx p)"
  unfolding get_room_state_def
  by (intro accounted_envelope quiet_bodyI handler_rules) (auto simp: quiet_monitor_def)

lemma list_ignored_users_accounted: "accounted E ctx ''list_ignored_users'' False (list_ignored_users E ctx)"
  unfolding list_ignored_users_def
  by (intro accounted_envelope quiet_bodyI handler_rules) (auto simp: quiet_monitor_def)

lemma admin_get_power_levels_accounted: "accounted E ctx ''admin_get_power_levels'' False (admin_get_power_levels E ctx r)"
  unfolding admin_get_power_levels_def
  by (intro accounted_envelope quiet_bodyI handler_rules) (auto simp: quiet_monitor_def)

lemma download_attachment_accounted: "accounted E ctx ''download_attachment'' False (download_attachment E b64 ctx r ev)"
  unfolding download_attachment_def
  by (intro accounted_envelope quiet_bodyI handler_rules) (auto simp: quiet_monitor_def)

lemma users_get_profile_accounted: "accounted E ctx ''users_get_profile'' False (users_get_profile E ctx u)"
  unfolding users_get_profile_def
  by (intro accounted_envelope quiet_bodyI handler_rules) (auto simp: quiet_monitor_def)

lemma search_messages_accounted: "accounted E ctx ''search_messages'' False (search_messages E ctx p)"
  unfolding search_messages_def
  by (intro accounted_envelope quiet_bodyI handler_rules) (auto simp: quiet_monitor_def)

lemma invites_list_accounted: "accounted E ctx ''invites_list'' False (invites_list E ctx)"
  unfolding invites_list_def
  by (intro accounted_envelope quiet_bodyI handler_rules) (auto simp: quiet_monitor_def)

lemma get_account_data_accounted: "accounted E ctx ''get_account_data'' False (get_account_data E ctx t)"
  unfolding get_account_data_def
  by (intro accounted_envelope quiet_bodyI handler_rules) (auto simp: quiet_monitor_def)

lemma get_presence_accounted: "accounted E ctx ''get_presence'' False (get_presence E ctx u)"
  unfolding get_presence_def
  by (intro accounted_envelope quiet_bodyI handler_rules) (auto simp: quiet_monitor_def)

lemma get_space_hierarchy_accounted: "accounted E ctx ''get_space_hierarchy'' False (get_space_hierarchy E ctx p)"
  unfolding get_space_hierarchy_def
  by (intro accounted_envelope quiet_bodyI handler_rules) (auto simp: quiet_monitor_def)

lemma bootstrap_cross_signing_accounted: "accounted E ctx ''bootstrap_cross_signing'' False (bootstrap_cross_signing E ctx)"
  unfolding bootstrap_cross_signing_def user_identity_def cross_signed_device_def create_identity_def
  by (intro accounted_envelope quiet_bodyI handler_rules) (auto simp: quiet_monitor_def)

lemma request_room_keys_accounted: "accounted E ctx ''request_room_keys'' True (request_room_keys E ctx r)"
  unfolding request_room_keys_def
  by (intro accounted_envelope quiet_bodyI handler_rules) (auto simp: quiet_monitor_def)

lemma send_text_message_accounted: "accounted E ctx ''send_text_message'' True (send_text_message E ctx p)"
  unfolding send_text_message_def reply_target_def
  by (intro accounted_envelope quiet_bodyI handler_rules) (auto simp: quiet_monitor_def)

lemma message_edit_accounted: "accounted E ctx ''message_edit'' True (message_edit E ctx p)"
  unfolding message_edit_def
  by (intro accounted_envelope quiet_bodyI handler_rules) (auto simp: quiet_monitor_def)

lemma message_forward_accounted: "accounted E ctx ''message_forward'' True (message_forward E ctx p)"
  unfolding message_forward_def
  by (intro accounted_envelope quiet_bodyI handler_rules) (auto simp: quiet_monitor_def)

lemma send_reaction_accounted: "accounted E ctx ''send_reaction'' True (send_reaction E ctx p)"
  unfolding send_reaction_def
  by (intro accounted_envelope quiet_bodyI handler_rules) (auto simp: quiet_monitor_def)

lemma redact_message_accounted: "accounted E ctx ''redact_message'' True (redact_message E ctx p)"
  unfolding redact_message_def
  by (intro accounted_envelope quiet_bodyI handler_rules) (auto simp: quiet_monitor_def)

lemma mark_read_accounted: "accounted E ctx ''mark_read'' True (mark_read E ctx p)"
  unfolding mark_read_def
  by (intro accounted_envelope quiet_bodyI handler_rules) (auto simp: quiet_monitor_def)

lemma set_room_name_accounted: "accounted E ctx ''set_room_name'' True (set_room_name E ctx p)"
  unfolding set_room_name_def
  by (intro accounted_envelope quiet_bodyI handler_rules) (auto simp: quiet_monitor_def)

lemma set_room_topic_accounted: "accounted E ctx ''set_room_topic'' True (set_room_topic E ctx p)"
  unfolding set_room_topic_def
  by (intro accounted_envelope quiet_bodyI handler_rules) (auto simp: quiet_monitor_def)

lemma ignore_user_accounted: "accounted E ctx ''ignore_user'' True (ignore_user E ctx u)"
  unfolding ignore_user_def
  by (intro accounted_envelope quiet_bodyI handler_rules) (auto simp: quiet_monitor_def)

lemma unignore_user_accounted: "accounted E ctx ''unignore_user'' True (unignore_user E ctx u)"
  unfolding unignore_user_def
  by (intro accounted_envelope quiet_bodyI handler_rules) (auto simp: quiet_monitor_def)

lemma admin_set_power_level_accounted: "accounted E ctx ''admin_set_power_level'' True (admin_set_power_level E ctx p)"
  unfolding admin_set_power_level_def
  by (intro accounted_envelope quiet_bodyI handler_rules) (auto simp: quiet_monitor_def)

lemma toggle_pin_accounted: "accounted E ctx (if add then ''room_pin_message'' else ''room_unpin_message'') True (toggle_pin E ctx p add)"
  unfolding toggle_pin_def
  by (intro accounted_envelope quiet_bodyI handler_rules) (auto simp: quiet_monitor_def)

lemma send_image_from_url_accounted: "accounted E ctx ''send_image_from_url'' True (send_image_from_url E ctx p)"
  unfolding send_image_from_url_def upload_for_def
  by (intro accounted_envelope quiet_bodyI handler_rules) (auto simp: quiet_monitor_def)

lemma send_media_from_url_accounted: "accounted E ctx (media_tool_name k) True (send_media_from_url E ctx r url c f k)"
  unfolding send_media_from_url_def upload_for_def
  by (intro accounted_envelope quiet_bodyI handler_rules) (auto simp: quiet_monitor_def)

lemma send_voice_message_accounted: "accounted E ctx ''send_voice_message'' True (send_voice_message E ctx p)"
  unfolding send_voice_message_def upload_for_def
  by (intro accounted_envelope quiet_bodyI handler_rules) (auto simp: quiet_monitor_def)

lemma send_tts_voice_message_accounted: "accounted E ctx ''send_tts_voice_message'' True (send_tts_voice_message E V ctx p)"
  unfolding send_tts_voice_message_def synthesize_tts_def
  by (intro accounted_envelope quiet_bodyI handler_rules) (auto simp: quiet_monitor_def)

lemma me_set_displayname_accounted: "accounted E ctx ''me_set_displayname'' True (me_set_displayname E ctx d)"
  unfolding me_set_displayname_def
  by (intro accounted_envelope quiet_bodyI handler_rules) (auto simp: quiet_monitor_def)

lemma me_set_avatar_accounted: "accounted E ctx ''me_set_avatar'' True (me_set_avatar E ctx u)"
  unfolding me_set_avatar_def upload_image_from_url_def upload_for_def
  by (intro accounted_envelope quiet_bodyI handler_rules) (auto simp: quiet_monitor_def)

lemma join_room_accounted: "accounted E ctx ''join_room'' True (join_room E ctx t)"
  unfolding join_room_def
  by (intro accounted_envelope quiet_bodyI handler_rules) (auto simp: quiet_monitor_def)

lemma leave_room_accounted: "accounted E ctx ''leave_room'' True (leave_room E ctx r)"
  unfolding leave_room_def
  by (intro accounted_envelope quiet_bodyI handler_rules) (auto simp: quiet_monitor_def)

lemma invite_user_accounted: "accounted E ctx ''invite_user'' True (invite_user E ctx r u)"
  unfolding invite_user_def
  by (intro accounted_envelope quiet_bodyI handler_rules) (auto simp: quiet_monitor_def)

lemma room_create_accounted: "accounted E ctx ''room_create'' True (room_create E ctx p)"
  unfolding room_create_def
  by (intro accounted_envelope quiet_bodyI handler_rules monitored_for [where I = "\<lambda>_. True"]) (auto simp: quiet_monitor_def intro!: tool_rules)

lemma room_create_dm_accounted: "accounted E ctx ''room_create_dm'' True (room_create_dm E ctx u)"
  unfolding room_create_dm_def
  by (intro accounted_envelope quiet_bodyI handler_rules) (auto simp: quiet_monitor_def)

lemma invites_accept_accounted: "accounted E ctx ''invites_accept'' True (invites_accept E ctx r)"
  unfolding invites_accept_def
  by (intro accounted_envelope quiet_bodyI handler_rules) (auto simp: quiet_monitor_def)

lemma invites_reject_accounted: "accounted E ctx ''invites_reject'' True (invites_reject E ctx r)"
  unfolding invites_reject_def
  by (intro accounted_envelope quiet_bodyI handler_rules) (auto simp: quiet_monitor_def)

lemma set_account_data_accounted: "accounted E ctx ''set_account_data'' True (set_account_data E J ctx t v)"
  unfolding set_account_data_def
  by (intro accounted_envelope quiet_bodyI handler_rules) (auto simp: quiet_monitor_def)

lemma upload_media_from_url_accounted: "accounted E ctx ''upload_media_from_url'' True (upload_media_from_url E ctx url)"
  unfolding upload_media_from_url_def upload_for_def
  by (intro accounted_envelope quiet_bodyI handler_rules) (auto simp: quiet_monitor_def)

lemma set_presence_accounted: "accounted E ctx ''set_presence'' True (set_presence E ctx t m)"
  unfolding set_presence_def
  by (intro accounted_envelope quiet_bodyI handler_rules) (auto simp: quiet_monitor_def)

lemma membership_change_accounted: "accounted E ctx (membership_tool_name action) True (membership_change E ctx p action)"
  unfolding membership_change_def
  by (cases action; intro accounted_envelope quiet_bodyI handler_rules) (auto simp: quiet_monitor_def)

lemma set_audit_room_accounted: "accounted E ctx ''set_audit_room'' True (set_audit_room E ctx r)"
  unfolding set_audit_room_def
  by (intro accounted_envelope quiet_bodyI handler_rules) (auto simp: quiet_monitor_def)

lemma quiet_charged_send: "monitored any_history quiet_monitor () (charged_send E ctx text rid) (\<lambda>_ _. True) R"
  unfolding charged_send_def send_text_to_room_def by (intro tool_rules) (auto simp: quiet_monitor_def)

lemma send_bulk_accounted: "accounted E ctx ''send_bulk'' True (send_bulk E ctx p)"
  unfolding send_bulk_def
  by (intro accounted_envelope quiet_bodyI handler_rules monitored_for [where I = "\<lambda>_. True"]) (auto simp: quiet_monitor_def intro: quiet_charged_send tool_rules)

lemma send_broadcast_accounted: "accounted E ctx ''send_broadcast'' True (send_broadcast E ctx p)"
  unfolding send_broadcast_def broadcast_to_def
  by (intro accounted_envelope quiet_bodyI handler_rules monitored_for [where I = "\<lambda>_. True"]) (auto simp: quiet_monitor_def intro: quiet_charged_send tool_rules)

section \<open>Every call\<close>

text \<open>The result of a call does not matter to its record.\<close>

lemma accounted_effects_of:
  assumes "accounted E ctx tool noticing m"
  shows "accounted E ctx tool noticing (effects_of m)"
proof -
  have run: "new_effects (effects_of m) w = new_effects m w"
    "isl (fst (effects_of m w)) = isl (fst (m w))"
    "fst (effects_of m w) = Inl e \<longleftrightarrow> fst (m w) = Inl e"
    "emit_tool_audit E tool ctx rid cnt (fst (effects_of m w)) = emit_tool_audit E tool ctx rid cnt (fst (m w))" for w e rid cnt
    by (auto simp: effects_of_def bindT_def returnT_def new_effects_def emit_tool_audit_def outcome_of_def
        split: prod.splits sum.splits)
  show ?thesis using assms unfolding accounted_def unreported_def Let_def run .
qed

lemma whoami_accounted: "accounted E ctx ''whoami'' False (whoami E ctx)"
proof (rule accountedI)
  fix w
  define body where "body = bindT (rate_limit_check E ctx ReadCall) (\<lambda>_.
    bindT (someT (ctx_identity ctx) missing_identity_err) (\<lambda>ident. returnT (mxid ident, id_device ident)))"
  have "quiet_body body" unfolding body_def by (intro quiet_bodyI handler_rules) (auto simp: quiet_monitor_def)
  then obtain es where es: "tw_trace (snd (body w)) = tw_trace w @ es" "filter is_log es = []" "filter is_notice es = []"
    "\<forall>e\<in>set es. \<not> is_eviction e" by (rule quiet_effects)
  obtain r w' where p: "body w = (r, w')" by (metis prod.exhaust)
  define l where "l = emit_tool_audit E ''whoami'' ctx None None r"
  have "whoami E ctx w = (r, add_effects [l] w')" by (simp add: whoami_def p [unfolded body_def] l_def)
  moreover have "is_log l" "\<not> is_notice l" "\<not> is_eviction l" by (simp_all add: l_def emit_tool_audit_def)
  ultimately show "\<exists>rid cnt es ev nt. tw_trace (snd (whoami E ctx w)) = tw_trace w @ es
     \<and> filter is_log es = [emit_tool_audit E ''whoami'' ctx rid cnt (fst (whoami E ctx w))]
     \<and> (\<forall>e\<in>set es. is_eviction e \<longrightarrow> fst (whoami E ctx w) = Inl Auth_expired \<and> e \<in> set (evictions ctx))
     \<and> filter is_notice es = filter is_notice nt
     \<and> nt = (if False then emit_write_notice E ctx ''whoami'' rid (fst (whoami E ctx w)) ev else [])"
    using es p by (intro exI [of _ None] exI [of _ "None :: nat option"] exI [of _ "es @ [l]"] exI [of _ "[]"]
        exI [of _ "[]"]) (simp add: add_effects_def l_def)
qed

text \<open>The tools that announce their calls; \<open>bootstrap_cross_signing\<close> writes and does not.\<close>

definition announces :: "ToolCall \<Rightarrow> bool" where
  "announces c \<longleftrightarrow> tool_name c \<notin> set READ_ONLY_TOOLS \<and> tool_name c \<noteq> ''bootstrap_cross_signing''"

lemma announces_forms [simp]:
  "announces (RoomMembership mp action)" "announces (RoomPin pp add)"
  by (cases action; simp add: announces_def READ_ONLY_TOOLS_def) (simp add: announces_def READ_ONLY_TOOLS_def)

lemma media_accounted:
  "accounted E ctx ''send_file'' True (send_file E ctx fp)" "accounted E ctx ''send_video'' True (send_video E ctx mp)"
  "accounted E ctx ''send_audio'' True (send_audio E ctx mp)"
  unfolding send_file_def send_video_def send_audio_def
  using send_media_from_url_accounted [where k = FileMedia] send_media_from_url_accounted [where k = VideoMedia]
    send_media_from_url_accounted [where k = AudioMedia] by simp_all

lemmas all_accounted = whoami_accounted media_accounted list_joined_rooms_accounted read_recent_messages_accounted read_thread_accounted read_reactions_accounted verify_status_accounted room_info_accounted room_members_accounted get_unread_summary_accounted list_recent_activity_accounted get_user_receipts_accounted get_event_receipts_accounted list_threads_in_room_accounted get_room_state_accounted list_ignored_users_accounted admin_get_power_levels_accounted download_attachment_accounted users_get_profile_accounted search_messages_accounted invites_list_accounted get_account_data_accounted get_presence_accounted get_space_hierarchy_accounted bootstrap_cross_signing_accounted request_room_keys_accounted send_text_message_accounted message_edit_accounted message_forward_accounted send_reaction_accounted redact_message_accounted mark_read_accounted set_room_name_accounted set_room_topic_accounted ignore_user_accounted unignore_user_accounted admin_set_power_level_accounted toggle_pin_accounted send_image_from_url_accounted send_media_from_url_accounted send_voice_message_accounted send_tts_voice_message_accounted me_set_displayname_accounted me_set_avatar_accounted join_room_accounted leave_room_accounted invite_user_accounted room_create_accounted room_create_dm_accounted invites_accept_accounted invites_reject_accounted set_account_data_accounted upload_media_from_url_accounted set_presence_accounted membership_change_accounted set_audit_room_accounted send_bulk_accounted send_broadcast_accounted

text \<open>C9: Every tool call leaves exactly one audit record, which names the tool and the caller and says how the call ended;
  clients and tokens are evicted only when the call ends as an expired session, and only the caller's; a tool that
  announces its calls sends one notice, with the outcome, unless the limiter refused the call or the session expired,
  and no other tool sends any.\<close>

theorem every_call_accounted: "accounted E ctx (tool_name c) (announces c) (call_tool E L ctx c)"
proof (cases c)
  case (RoomMembership mp action)
  then show ?thesis by (simp add: accounted_effects_of all_accounted)
next
  case (RoomPin pp add)
  then show ?thesis using toggle_pin_accounted [of E ctx add pp] by (simp add: accounted_effects_of)
qed (simp_all add: accounted_effects_of all_accounted, simp_all add: announces_def READ_ONLY_TOOLS_def
    accounted_effects_of all_accounted)

end
