(* ===== verification/ToolQuota.thy ===== *)
theory ToolQuota
  imports ToolPolicy
begin

text \<open>
  The tools over the rate limiter. A call is a sequence of elementary steps: an effect that is no
  charge, or one consultation of the limiter for the caller. Only the second kind touches the buckets,
  so what the bucket of a user grants bounds what all calls of that user send, in any order and with
  any tokens.
\<close>

section \<open>Elementary steps\<close>

fun is_charge :: "Effect \<Rightarrow> bool" where
  "is_charge (Charged c ok) = True"
| "is_charge _ = False"

text \<open>An effect that names an identity or a token names those of the call.\<close>

fun acts_as :: "RequestContext \<Rightarrow> Effect \<Rightarrow> bool" where
  "acts_as ctx (ClientFor m t) \<longleftrightarrow> map_option mxid (ctx_identity ctx) = Some m \<and> ctx_token ctx = Some t"
| "acts_as ctx (EvictedClient m) \<longleftrightarrow> map_option mxid (ctx_identity ctx) = Some m"
| "acts_as ctx (DroppedToken t) \<longleftrightarrow> ctx_token ctx = Some t"
| "acts_as ctx (Logged tool m room outcome n k) \<longleftrightarrow> m = caller_mxid ctx"
| "acts_as ctx (PullSpawned sub room) \<longleftrightarrow> sub = caller_subject ctx"
| "acts_as ctx e \<longleftrightarrow> True"

inductive tool_step :: "'b ToolEnv \<Rightarrow> RequestContext \<Rightarrow> 'b ToolWorld \<Rightarrow> 'b ToolWorld \<Rightarrow> bool" for E ctx where
  step_other: "tw_limiter w' = tw_limiter w \<Longrightarrow> tw_trace w' = tw_trace w @ es \<Longrightarrow> \<forall>e\<in>set es. \<not> is_charge e \<and> acts_as ctx e
    \<Longrightarrow> tool_step E ctx w w'"
| step_charge: "ctx_identity ctx = Some ident \<Longrightarrow> ctx_token ctx = Some token
    \<Longrightarrow> tool_step E ctx w (snd (limiter_verdict E token (mas_subject ident) category w))"

definition in_steps :: "'b ToolEnv \<Rightarrow> RequestContext \<Rightarrow> ('b, 'a) tool \<Rightarrow> bool" where
  "in_steps E ctx m \<longleftrightarrow> (\<forall>w. (tool_step E ctx)\<^sup>*\<^sup>* w (snd (m w)))"

named_theorems step_rules \<open>computations made of elementary steps\<close>

lemma in_steps_other:
  assumes "\<And>w. tw_limiter (snd (m w)) = tw_limiter w"
    and "\<And>w. \<exists>es. tw_trace (snd (m w)) = tw_trace w @ es \<and> (\<forall>e\<in>set es. \<not> is_charge e \<and> acts_as ctx e)"
  shows "in_steps E ctx m"
  unfolding in_steps_def using assms by (metis (no_types, lifting) step_other r_into_rtranclp)

lemma in_steps_same:
  assumes "\<And>w. snd (m w) = w"
  shows "in_steps E ctx m"
  by (rule in_steps_other) (simp_all add: assms)

lemma in_steps_basic [step_rules]:
  "in_steps E ctx (returnT a)" "in_steps E ctx (failT e)" "in_steps E ctx (liftT r)" "in_steps E ctx (seeT f)"
  "in_steps E ctx (ensureT c e)" "in_steps E ctx (someT x e)"
  by (rule in_steps_same; simp add: returnT_def failT_def liftT_def seeT_def ensureT_def someT_def split: option.split)+

lemma in_steps_emit [step_rules]: "\<not> is_charge e \<Longrightarrow> acts_as ctx e \<Longrightarrow> in_steps E ctx (emitT e)"
  by (rule in_steps_other) (simp_all add: emitT_def)

lemma in_steps_bind [step_rules]:
  assumes "in_steps E ctx m" and "\<And>a. in_steps E ctx (k a)"
  shows "in_steps E ctx (bindT m k)"
  unfolding in_steps_def
proof
  fix w
  obtain r w' where m: "m w = (r, w')" by (metis prod.exhaust)
  have "(tool_step E ctx)\<^sup>*\<^sup>* w w'" using assms(1) m unfolding in_steps_def by (metis snd_conv)
  moreover have "(tool_step E ctx)\<^sup>*\<^sup>* w' (snd (k a w'))" for a using assms(2) by (simp add: in_steps_def)
  ultimately show "(tool_step E ctx)\<^sup>*\<^sup>* w (snd (bindT m k w))"
    by (auto simp: bindT_def m split: sum.split intro: rtranclp_trans)
qed

lemma in_steps_try [step_rules]: "in_steps E ctx m \<Longrightarrow> in_steps E ctx (tryT m)"
  by (simp add: in_steps_def tryT_def split: prod.split) (metis snd_conv)

lemma in_steps_cases [step_rules]:
  "in_steps E ctx m \<Longrightarrow> in_steps E ctx n \<Longrightarrow> in_steps E ctx (if c then m else n)"
  "in_steps E ctx m \<Longrightarrow> (\<And>a. in_steps E ctx (f a)) \<Longrightarrow> in_steps E ctx (case x of None \<Rightarrow> m | Some a \<Rightarrow> f a)"
  "(\<And>a. in_steps E ctx (g a)) \<Longrightarrow> (\<And>b. in_steps E ctx (h b)) \<Longrightarrow> in_steps E ctx (case y of Inl a \<Rightarrow> g a | Inr b \<Rightarrow> h b)"
  "in_steps E ctx m \<Longrightarrow> in_steps E ctx n \<Longrightarrow> in_steps E ctx (case b of True \<Rightarrow> m | False \<Rightarrow> n)"
  by (simp_all split: option.split sum.split bool.split)

lemma in_steps_more_cases [step_rules]:
  "(\<And>a b. in_steps E ctx (p a b)) \<Longrightarrow> in_steps E ctx (case z of (a, b) \<Rightarrow> p a b)"
  "in_steps E ctx (q x) \<Longrightarrow> in_steps E ctx (let a = x in q a)"
  "(\<And>t b. in_steps E ctx (g t b)) \<Longrightarrow> (\<And>u t n f b. in_steps E ctx (m u t n f b))
     \<Longrightarrow> in_steps E ctx (case c of MediaMessage u t n f b \<Rightarrow> m u t n f b | OtherMessage t b \<Rightarrow> g t b)"
  "(\<And>e. in_steps E ctx (d e)) \<Longrightarrow> (\<And>e. in_steps E ctx (k e))
     \<Longrightarrow> in_steps E ctx (case err of TransientError e \<Rightarrow> d e | PermanentError e \<Rightarrow> k e)"
  by (simp_all split: prod.split AttachmentContent.split TtsAttemptError.split)

lemma in_steps_for [step_rules]: "(\<And>x. in_steps E ctx (f x)) \<Longrightarrow> in_steps E ctx (forT f xs)"
  by (induction xs) (auto intro: step_rules)

lemma in_steps_requests [step_rules]:
  "in_steps E ctx (tryAskT q answer)" "in_steps E ctx (labelled label r)" "in_steps E ctx (askT label q answer)"
  "in_steps E ctx (tryDoT E' c)" "in_steps E ctx (doT E' label c)" "in_steps E ctx (parse_id err s)"
  "in_steps E ctx (get_room E' s)" "in_steps E ctx (open_room E' s)" "in_steps E ctx (require_joined room)"
  unfolding tryAskT_def labelled_def askT_def tryDoT_def doT_def parse_id_def get_room_def open_room_def
    require_joined_def
  by (intro step_rules; simp)+

lemma in_steps_client [step_rules]: "in_steps E ctx (client_for E' ctx)"
  by (rule in_steps_other)
    (auto simp: client_for_def for_user_of_def bindT_def someT_def seeT_def emitT_def returnT_def failT_def
      split: option.split)

lemma in_steps_rate_limit [step_rules]: "in_steps E ctx (rate_limit_check E ctx category)"
  unfolding in_steps_def
  by (auto simp: rate_limit_check_def bindT_def someT_def returnT_def failT_def split: option.split
      intro: step_charge r_into_rtranclp)

lemma in_steps_gate [step_rules]:
  "in_steps E ctx (spawn_key_backup_pull_if_needed E' (caller_subject ctx) room_id events)"
  "in_steps E ctx (acquire_pull E' caller room_id)" "in_steps E ctx (pull_keys E' k)"
  by (rule in_steps_other; auto simp: spawn_key_backup_pull_if_needed_def acquire_pull_def pull_keys_def Let_def
      split: prod.split Acquired.split)+

lemma in_steps_media [step_rules]: "in_steps E ctx (fetch_media E' source)"
  by (rule in_steps_other) (auto simp: fetch_media_def bindT_def seeT_def emitT_def failT_def returnT_def split: MediaAnswer.split)

lemma in_steps_small [step_rules]:
  "in_steps E ctx (current_pins answer)" "in_steps E ctx (transcoded C wav)"
  by (rule in_steps_same, simp add: current_pins_def failT_def returnT_def split: PinnedState.split)
    (rule in_steps_same, auto simp: transcoded_def failT_def returnT_def split: option.split sum.split)

lemma in_steps_emit_all [step_rules]: "\<forall>e\<in>set es. \<not> is_charge e \<and> acts_as ctx e \<Longrightarrow> in_steps E ctx (emit_allT es)"
  by (induction es) (auto intro: step_rules)

lemma in_steps_tts [step_rules]: "in_steps E ctx (tts_attempts V url v n left last_err)"
  by (induction left arbitrary: last_err) (auto intro!: step_rules simp del: tts_attempts.simps simp: tts_attempts.simps)

lemma in_steps_pages [step_rules]: "in_steps E ctx (reaction_pages fuel E' room_id ev limit start rs bad)"
  by (induction fuel arbitrary: start rs bad) (simp_all, (intro step_rules | assumption)+)

lemma envelope_acts:
  fixes body :: "('b, 'a) tool"
  assumes "env \<in> {read_tool E ctx tool rid cnt, write_tool E ctx tool rid, notice_first_tool E ctx tool rid}"
  shows "\<exists>es. tw_trace (snd (env body w)) = tw_trace (snd (body w)) @ es \<and> (\<forall>e\<in>set es. \<not> is_charge e \<and> acts_as ctx e)"
    and "tw_limiter (snd (env body w)) = tw_limiter (snd (body w))"
proof -
  have evict: "\<forall>e\<in>set (evictions ctx). \<not> is_charge e \<and> acts_as ctx e"
    by (cases "ctx_identity ctx"; cases "ctx_token ctx") (simp_all add: evictions_def)
  have react: "\<exists>es. tw_trace (snd (react_to_auth_expiry ctx p)) = tw_trace (snd p) @ es
      \<and> (\<forall>e\<in>set es. \<not> is_charge e \<and> acts_as ctx e)"
    and lim: "tw_limiter (snd (react_to_auth_expiry ctx p)) = tw_limiter (snd p)"
    for p :: "(ErrorData + 'a) \<times> 'b ToolWorld"
    using evict by (cases p; auto simp: react_to_auth_expiry_def add_effects_def split: sum.splits ErrorData.splits)+
  have notice: "\<forall>e\<in>set (emit_write_notice E ctx tool rid r h). \<not> is_charge e \<and> acts_as ctx e" for r :: "ErrorData + 'a" and h
    by (cases "ctx_identity ctx"; cases "ctx_token ctx") (simp_all add: emit_write_notice_def)
  have audit: "\<not> is_charge (emit_tool_audit E tool ctx rid n r) \<and> acts_as ctx (emit_tool_audit E tool ctx rid n r)"
    for n and r :: "ErrorData + 'a" by (simp add: emit_tool_audit_def)
  obtain r w' where p: "react_to_auth_expiry ctx (body w) = (r, w')" by (metis prod.exhaust)
  from react [of "body w"] p obtain es where
    "tw_trace w' = tw_trace (snd (body w)) @ es" "\<forall>e\<in>set es. \<not> is_charge e \<and> acts_as ctx e" by auto
  with assms p notice audit
  show "\<exists>es. tw_trace (snd (env body w)) = tw_trace (snd (body w)) @ es \<and> (\<forall>e\<in>set es. \<not> is_charge e \<and> acts_as ctx e)"
    by (auto simp: read_tool_def write_tool_def notice_first_tool_def add_effects_def Let_def ball_Un)
  from lim [of "body w"] p assms show "tw_limiter (snd (env body w)) = tw_limiter (snd (body w))"
    by (auto simp: read_tool_def write_tool_def notice_first_tool_def add_effects_def Let_def)
qed

lemma in_steps_envelope [step_rules]:
  fixes body :: "('b, 'a) tool"
  assumes "in_steps E ctx body"
  shows "in_steps E ctx (read_tool E' ctx tool rid cnt body)" and "in_steps E ctx (write_tool E' ctx tool rid body)"
    and "in_steps E ctx (notice_first_tool E' ctx tool rid body)"
proof -
  have "in_steps E ctx (env body)"
    if env: "env \<in> {read_tool E' ctx tool rid cnt, write_tool E' ctx tool rid, notice_first_tool E' ctx tool rid}" for env
    unfolding in_steps_def
  proof
    fix w
    obtain es where "tw_trace (snd (env body w)) = tw_trace (snd (body w)) @ es"
      "\<forall>e\<in>set es. \<not> is_charge e \<and> acts_as ctx e" using envelope_acts(1) [OF env] by blast
    then have "tool_step E ctx (snd (body w)) (snd (env body w))" by (rule step_other [OF envelope_acts(2) [OF env]])
    with assms show "(tool_step E ctx)\<^sup>*\<^sup>* w (snd (env body w))"
      unfolding in_steps_def by (metis rtranclp.rtrancl_into_rtrancl)
  qed
  then show "in_steps E ctx (read_tool E' ctx tool rid cnt body)" and "in_steps E ctx (write_tool E' ctx tool rid body)"
    and "in_steps E ctx (notice_first_tool E' ctx tool rid body)" by simp_all
qed

section \<open>Handlers\<close>

lemma list_joined_rooms_steps: "in_steps E ctx (list_joined_rooms E ctx)"
  unfolding list_joined_rooms_def by (intro step_rules; simp)

lemma read_recent_messages_steps: "in_steps E ctx (read_recent_messages E ctx p)"
  unfolding read_recent_messages_def by (intro step_rules; simp)

lemma read_thread_steps: "in_steps E ctx (read_thread E ctx p)"
  unfolding read_thread_def by (intro step_rules; simp)

lemma read_reactions_steps: "in_steps E ctx (read_reactions n E ctx p)"
  unfolding read_reactions_def by (intro step_rules; simp)

lemma verify_status_steps: "in_steps E ctx (verify_status E ctx)"
  unfolding verify_status_def user_identity_def cross_signed_device_def by (intro step_rules; simp)

lemma room_info_steps: "in_steps E ctx (room_info E ctx r)"
  unfolding room_info_def by (intro step_rules; simp)

lemma room_members_steps: "in_steps E ctx (room_members E ctx r n)"
  unfolding room_members_def by (intro step_rules; simp)

lemma get_unread_summary_steps: "in_steps E ctx (get_unread_summary E ctx b)"
  unfolding get_unread_summary_def by (intro step_rules; simp)

lemma list_recent_activity_steps: "in_steps E ctx (list_recent_activity E ctx p)"
  unfolding list_recent_activity_def by (intro step_rules; simp)

lemma get_user_receipts_steps: "in_steps E ctx (get_user_receipts E ctx p)"
  unfolding get_user_receipts_def user_receipt_def by (intro step_rules; simp)

lemma get_event_receipts_steps: "in_steps E ctx (get_event_receipts E ctx r ev)"
  unfolding get_event_receipts_def by (intro step_rules; simp)

lemma list_threads_in_room_steps: "in_steps E ctx (list_threads_in_room E ctx p)"
  unfolding list_threads_in_room_def by (intro step_rules; simp)

lemma get_room_state_steps: "in_steps E ctx (get_room_state E ctx p)"
  unfolding get_room_state_def by (intro step_rules; simp)

lemma list_ignored_users_steps: "in_steps E ctx (list_ignored_users E ctx)"
  unfolding list_ignored_users_def by (intro step_rules; simp)

lemma admin_get_power_levels_steps: "in_steps E ctx (admin_get_power_levels E ctx r)"
  unfolding admin_get_power_levels_def by (intro step_rules; simp)

lemma download_attachment_steps: "in_steps E ctx (download_attachment E b64 ctx r ev)"
  unfolding download_attachment_def by (intro step_rules; simp)

lemma users_get_profile_steps: "in_steps E ctx (users_get_profile E ctx u)"
  unfolding users_get_profile_def by (intro step_rules; simp)

lemma search_messages_steps: "in_steps E ctx (search_messages E ctx p)"
  unfolding search_messages_def by (intro step_rules; simp)

lemma invites_list_steps: "in_steps E ctx (invites_list E ctx)"
  unfolding invites_list_def by (intro step_rules; simp)

lemma get_account_data_steps: "in_steps E ctx (get_account_data E ctx t)"
  unfolding get_account_data_def by (intro step_rules; simp)

lemma get_presence_steps: "in_steps E ctx (get_presence E ctx u)"
  unfolding get_presence_def by (intro step_rules; simp)

lemma get_space_hierarchy_steps: "in_steps E ctx (get_space_hierarchy E ctx p)"
  unfolding get_space_hierarchy_def by (intro step_rules; simp)

lemma bootstrap_cross_signing_steps: "in_steps E ctx (bootstrap_cross_signing E ctx)"
  unfolding bootstrap_cross_signing_def user_identity_def cross_signed_device_def create_identity_def by (intro step_rules; simp)

lemma request_room_keys_steps: "in_steps E ctx (request_room_keys E ctx r)"
  unfolding request_room_keys_def by (intro step_rules; simp)

lemma send_text_message_steps: "in_steps E ctx (send_text_message E ctx p)"
  unfolding send_text_message_def reply_target_def by (intro step_rules; simp)

lemma message_edit_steps: "in_steps E ctx (message_edit E ctx p)"
  unfolding message_edit_def by (intro step_rules; simp)

lemma message_forward_steps: "in_steps E ctx (message_forward E ctx p)"
  unfolding message_forward_def by (intro step_rules; simp)

lemma send_reaction_steps: "in_steps E ctx (send_reaction E ctx p)"
  unfolding send_reaction_def by (intro step_rules; simp)

lemma redact_message_steps: "in_steps E ctx (redact_message E ctx p)"
  unfolding redact_message_def by (intro step_rules; simp)

lemma mark_read_steps: "in_steps E ctx (mark_read E ctx p)"
  unfolding mark_read_def by (intro step_rules; simp)

lemma set_room_name_steps: "in_steps E ctx (set_room_name E ctx p)"
  unfolding set_room_name_def by (intro step_rules; simp)

lemma set_room_topic_steps: "in_steps E ctx (set_room_topic E ctx p)"
  unfolding set_room_topic_def by (intro step_rules; simp)

lemma ignore_user_steps: "in_steps E ctx (ignore_user E ctx u)"
  unfolding ignore_user_def by (intro step_rules; simp)

lemma unignore_user_steps: "in_steps E ctx (unignore_user E ctx u)"
  unfolding unignore_user_def by (intro step_rules; simp)

lemma admin_set_power_level_steps: "in_steps E ctx (admin_set_power_level E ctx p)"
  unfolding admin_set_power_level_def by (intro step_rules; simp)

lemma toggle_pin_steps: "in_steps E ctx (toggle_pin E ctx p add)"
  unfolding toggle_pin_def by (intro step_rules; simp)

lemma send_image_from_url_steps: "in_steps E ctx (send_image_from_url E ctx p)"
  unfolding send_image_from_url_def upload_for_def by (intro step_rules; simp)

lemma send_media_from_url_steps: "in_steps E ctx (send_media_from_url E ctx r url c f k)"
  unfolding send_media_from_url_def upload_for_def by (intro step_rules; simp)

lemma send_voice_message_steps: "in_steps E ctx (send_voice_message E ctx p)"
  unfolding send_voice_message_def upload_for_def by (intro step_rules; simp)

lemma send_tts_voice_message_steps: "in_steps E ctx (send_tts_voice_message E V ctx p)"
  unfolding send_tts_voice_message_def synthesize_tts_def by (intro step_rules; simp)

lemma me_set_displayname_steps: "in_steps E ctx (me_set_displayname E ctx d)"
  unfolding me_set_displayname_def by (intro step_rules; simp)

lemma me_set_avatar_steps: "in_steps E ctx (me_set_avatar E ctx u)"
  unfolding me_set_avatar_def upload_image_from_url_def upload_for_def by (intro step_rules; simp)

lemma join_room_steps: "in_steps E ctx (join_room E ctx t)"
  unfolding join_room_def by (intro step_rules; simp)

lemma leave_room_steps: "in_steps E ctx (leave_room E ctx r)"
  unfolding leave_room_def by (intro step_rules; simp)

lemma invite_user_steps: "in_steps E ctx (invite_user E ctx r u)"
  unfolding invite_user_def by (intro step_rules; simp)

lemma room_create_steps: "in_steps E ctx (room_create E ctx p)"
  unfolding room_create_def by (intro step_rules; simp)

lemma room_create_dm_steps: "in_steps E ctx (room_create_dm E ctx u)"
  unfolding room_create_dm_def by (intro step_rules; simp)

lemma invites_accept_steps: "in_steps E ctx (invites_accept E ctx r)"
  unfolding invites_accept_def by (intro step_rules; simp)

lemma invites_reject_steps: "in_steps E ctx (invites_reject E ctx r)"
  unfolding invites_reject_def by (intro step_rules; simp)

lemma set_account_data_steps: "in_steps E ctx (set_account_data E J ctx t v)"
  unfolding set_account_data_def by (intro step_rules; simp)

lemma upload_media_from_url_steps: "in_steps E ctx (upload_media_from_url E ctx url)"
  unfolding upload_media_from_url_def upload_for_def by (intro step_rules; simp)

lemma set_presence_steps: "in_steps E ctx (set_presence E ctx t m)"
  unfolding set_presence_def by (intro step_rules; simp)

lemma membership_change_steps: "in_steps E ctx (membership_change E ctx p action)"
  unfolding membership_change_def by (intro step_rules; simp)

lemma set_audit_room_steps: "in_steps E ctx (set_audit_room E ctx r)"
  unfolding set_audit_room_def by (intro step_rules; simp)

lemma send_bulk_steps: "in_steps E ctx (send_bulk E ctx p)"
  unfolding send_bulk_def charged_send_def send_text_to_room_def by (intro step_rules; simp)

lemma send_broadcast_steps: "in_steps E ctx (send_broadcast E ctx p)"
  unfolding send_broadcast_def broadcast_to_def charged_send_def send_text_to_room_def by (intro step_rules; simp)

section \<open>Every call\<close>

lemma whoami_steps: "in_steps E ctx (whoami E ctx)"
proof -
  let ?body = "bindT (rate_limit_check E ctx ReadCall) (\<lambda>_.
    bindT (someT (ctx_identity ctx) missing_identity_err) (\<lambda>ident. returnT (mxid ident, id_device ident)))"
  have "in_steps E ctx ?body" by (intro step_rules)
  moreover have "tool_step E ctx (snd (?body w)) (snd (whoami E ctx w))" for w
    by (rule step_other [where es = "[emit_tool_audit E ''whoami'' ctx None None (fst (?body w))]"])
      (simp_all add: whoami_def add_effects_def emit_tool_audit_def split: prod.split)
  ultimately show ?thesis unfolding in_steps_def by (auto intro: rtranclp.rtrancl_into_rtrancl)
qed

lemmas all_steps = whoami_steps list_joined_rooms_steps read_recent_messages_steps read_thread_steps read_reactions_steps verify_status_steps room_info_steps room_members_steps get_unread_summary_steps list_recent_activity_steps get_user_receipts_steps get_event_receipts_steps list_threads_in_room_steps get_room_state_steps list_ignored_users_steps admin_get_power_levels_steps download_attachment_steps users_get_profile_steps search_messages_steps invites_list_steps get_account_data_steps get_presence_steps get_space_hierarchy_steps bootstrap_cross_signing_steps request_room_keys_steps send_text_message_steps message_edit_steps message_forward_steps send_reaction_steps redact_message_steps mark_read_steps set_room_name_steps set_room_topic_steps ignore_user_steps unignore_user_steps admin_set_power_level_steps toggle_pin_steps send_image_from_url_steps send_media_from_url_steps send_voice_message_steps send_tts_voice_message_steps me_set_displayname_steps me_set_avatar_steps join_room_steps leave_room_steps invite_user_steps room_create_steps room_create_dm_steps invites_accept_steps invites_reject_steps set_account_data_steps upload_media_from_url_steps set_presence_steps membership_change_steps set_audit_room_steps send_bulk_steps send_broadcast_steps

lemma call_tool_steps: "in_steps E ctx (call_tool E L ctx c)"
  by (cases c) (simp_all add: effects_of_def send_file_def send_video_def send_audio_def all_steps step_rules)

section \<open>The budget of a user\<close>

text \<open>The bucket of a subject for writes, and how many more grants it has within a period.\<close>

definition write_bucket :: "'b ToolEnv \<Rightarrow> rstr \<Rightarrow> 'b ToolWorld \<Rightarrow> 'b" where
  "write_bucket E u w = bucket_at (te_fresh E) (writes_per_min (tw_limiter w)) (sub_write (tw_limiter w)) u"

definition within_budget :: "(instant \<Rightarrow> 'b \<Rightarrow> bool \<times> 'b) \<Rightarrow> instant set \<Rightarrow> 'b \<Rightarrow> nat \<Rightarrow> bool" where
  "within_budget tk W b n \<longleftrightarrow> (\<forall>ts. set ts \<subseteq> W \<longrightarrow> length (bucket_allows tk b ts) \<le> n)"

lemma budget_step:
  assumes "within_budget tk W b n" and "t \<in> W"
  shows "fst (tk t b) \<Longrightarrow> 0 < n \<and> within_budget tk W (snd (tk t b)) (n - 1)"
    and "\<not> fst (tk t b) \<Longrightarrow> within_budget tk W (snd (tk t b)) n"
proof -
  have "length (bucket_allows tk b (t # ts)) \<le> n" if "set ts \<subseteq> W" for ts
    using assms that unfolding within_budget_def by (metis insert_subset list.simps(15))
  then have b: "(if fst (tk t b) then 1 else 0) + length (bucket_allows tk (snd (tk t b)) ts) \<le> n" if "set ts \<subseteq> W" for ts
    using that by (cases "fst (tk t b)") force+
  from b [of "[]"] b show "fst (tk t b) \<Longrightarrow> 0 < n \<and> within_budget tk W (snd (tk t b)) (n - 1)"
    by (auto simp: within_budget_def) (metis One_nat_def Suc_leD le_diff_conv2 plus_1_eq_Suc add.commute)
  from b show "\<not> fst (tk t b) \<Longrightarrow> within_budget tk W (snd (tk t b)) n" by (auto simp: within_budget_def)
qed

text \<open>A consultation of the limiter for a subject draws on that subject's bucket alone, and only for a write.\<close>

lemma verdict_read: "write_bucket E u (snd (limiter_verdict E token sub ReadCall w)) = write_bucket E u w"
  by (simp add: limiter_verdict_def limiter_check_def write_bucket_def Let_def split: prod.split)

lemma verdict_write:
  "\<exists>asked. (fst (limiter_verdict E token sub WriteCall w) = Inr ()
         \<longleftrightarrow> asked \<and> fst (te_take E (te_now E (tw_trace w)) (write_bucket E sub w)))
     \<and> (\<forall>u. write_bucket E u (snd (limiter_verdict E token sub WriteCall w)) =
         (if asked \<and> u = sub then snd (te_take E (te_now E (tw_trace w)) (write_bucket E u w)) else write_bucket E u w))"
proof -
  obtain ok bs ss where r: "check_both (te_fresh E) (te_take E) (te_now E (tw_trace w)) (writes_per_min (tw_limiter w))
      (te_token_hash E token) (Some sub) (bearer_write (tw_limiter w)) (sub_write (tw_limiter w)) = (ok, bs, ss)"
    by (metis prod_cases3)
  note eq = check_both_eq [where fresh = "te_fresh E" and tk = "te_take E" and now = "te_now E (tw_trace w)"
      and quota = "writes_per_min (tw_limiter w)" and bh = "te_token_hash E token" and sub = "Some sub"
      and bs = "bearer_write (tw_limiter w)" and ss = "sub_write (tw_limiter w)", unfolded r fst_conv snd_conv]
  have "limiter_verdict E token sub WriteCall w = (if ok then Inr () else Inl Rate_limited,
      w\<lparr>tw_limiter := tw_limiter w\<lparr>bearer_write := bs, sub_write := ss\<rparr>,
        tw_trace := tw_trace w @ [Charged WriteCall ok]\<rparr>)"
    by (simp add: limiter_verdict_def limiter_check_def r)
  with eq show ?thesis
    by (intro exI [of _ "fst (te_take E (te_now E (tw_trace w))
        (bucket_at (te_fresh E) (writes_per_min (tw_limiter w)) (bearer_write (tw_limiter w)) (te_token_hash E token)))"])
      (auto simp: write_bucket_def)
qed

text \<open>Granted writes of a user are taken out of the budget, whatever steps of whichever calls they are.\<close>

definition granted_writes :: "Effect list \<Rightarrow> nat" where
  "granted_writes es = length (filter (\<lambda>e. e = Charged WriteCall True) es)"

definition subject_of :: "RequestContext \<Rightarrow> rstr option" where
  "subject_of ctx = map_option mas_subject (ctx_identity ctx)"

lemma step_budget:
  assumes "tool_step E ctx w w'" and "\<And>h. te_now E h \<in> W" and "within_budget (te_take E) W (write_bucket E u w) n"
  shows "\<exists>es k. tw_trace w' = tw_trace w @ es \<and> k = (if subject_of ctx = Some u then granted_writes es else 0) \<and> k \<le> n
    \<and> within_budget (te_take E) W (write_bucket E u w') (n - k)"
  using assms(1)
proof cases
  case (step_other es)
  then have "granted_writes es = 0" by (auto simp: granted_writes_def filter_empty_conv)
  moreover have "write_bucket E u w' = write_bucket E u w" using step_other by (simp add: write_bucket_def)
  ultimately show ?thesis using step_other assms(3) by (intro exI [of _ es] exI [of _ 0]) simp
next
  case (step_charge ident token category)
  note budget = budget_step [OF assms(3) assms(2) [of "tw_trace w"]]
  let ?p = "limiter_verdict E token (mas_subject ident) category w"
  have tr: "tw_trace (snd ?p) = tw_trace w @ [Charged category (fst ?p = Inr ())]"
    by (auto simp: limiter_verdict_def Let_def split: prod.splits)
  have sub: "subject_of ctx = Some u \<longleftrightarrow> u = mas_subject ident" using step_charge by (auto simp: subject_of_def)
  show ?thesis
  proof (cases category)
    case ReadCall
    with step_charge tr assms(3) verdict_read [of E u token "mas_subject ident" w] show ?thesis
      by (intro exI [of _ "[Charged category (fst ?p = Inr ())]"] exI [of _ 0]) (simp add: granted_writes_def)
  next
    case WriteCall
    obtain asked where v: "fst ?p = Inr () \<longleftrightarrow> asked \<and> fst (te_take E (te_now E (tw_trace w)) (write_bucket E (mas_subject ident) w))"
      "\<And>u. write_bucket E u (snd ?p) =
         (if asked \<and> u = mas_subject ident then snd (te_take E (te_now E (tw_trace w)) (write_bucket E u w)) else write_bucket E u w)"
      using verdict_write [of E token "mas_subject ident" w] unfolding WriteCall by blast
    define k where "k = (if u = mas_subject ident \<and> fst ?p = Inr () then 1 else 0 :: nat)"
    have "k \<le> n \<and> within_budget (te_take E) W (write_bucket E u w') (n - k)"
      using v budget assms(3) step_charge(1) by (auto simp: k_def)
    with tr step_charge(1) WriteCall sub show ?thesis
      by (intro exI [of _ "[Charged category (fst ?p = Inr ())]"] exI [of _ k]) (auto simp: granted_writes_def k_def)
  qed
qed

lemma steps_budget:
  assumes "(tool_step E ctx)\<^sup>*\<^sup>* w w'" and "\<And>h. te_now E h \<in> W" and "within_budget (te_take E) W (write_bucket E u w) n"
  shows "\<exists>es k. tw_trace w' = tw_trace w @ es \<and> k = (if subject_of ctx = Some u then granted_writes es else 0) \<and> k \<le> n
    \<and> within_budget (te_take E) W (write_bucket E u w') (n - k)"
  using assms(1)
proof (induction rule: rtranclp_induct)
  case base
  show ?case using assms(3) by (intro exI [of _ "[]"] exI [of _ 0]) (simp add: granted_writes_def)
next
  case (step v v')
  then obtain es k where a: "tw_trace v = tw_trace w @ es" "k = (if subject_of ctx = Some u then granted_writes es else 0)"
    "k \<le> n" "within_budget (te_take E) W (write_bucket E u v) (n - k)" by blast
  from step_budget [OF step(2) assms(2) a(4)] obtain fs j where b: "tw_trace v' = tw_trace v @ fs"
    "j = (if subject_of ctx = Some u then granted_writes fs else 0)" "j \<le> n - k"
    "within_budget (te_take E) W (write_bucket E u v') (n - k - j)" by blast
  with a show ?case by (intro exI [of _ "es @ fs"] exI [of _ "k + j"]) (auto simp: granted_writes_def diff_diff_left)
qed

section \<open>Whose call\<close>

lemma steps_act:
  assumes "(tool_step E ctx)\<^sup>*\<^sup>* w w'"
  shows "\<exists>es. tw_trace w' = tw_trace w @ es \<and> (\<forall>e\<in>set es. acts_as ctx e)"
  using assms
proof (induction rule: rtranclp_induct)
  case (step v v')
  from step(2) have "\<exists>fs. tw_trace v' = tw_trace v @ fs \<and> (\<forall>e\<in>set fs. acts_as ctx e)"
    by cases (auto simp: limiter_verdict_def Let_def split: prod.split)
  with step.IH show ?case by (metis Un_iff append.assoc set_append)
qed simp

lemma call_acts: "e \<in> set (new_effects (call_tool E L ctx c) w) \<Longrightarrow> acts_as ctx e"
proof -
  have "(tool_step E ctx)\<^sup>*\<^sup>* w (snd (call_tool E L ctx c w))" using call_tool_steps [of E ctx L c] by (simp add: in_steps_def)
  from steps_act [OF this] show "e \<in> set (new_effects (call_tool E L ctx c) w) \<Longrightarrow> acts_as ctx e"
    by (auto simp: new_effects_def)
qed

section \<open>Many calls\<close>

text \<open>The messages that the calls of a user send, out of a sequence of calls of anybody.\<close>

fun messages_of ::
  "'b ToolEnv \<Rightarrow> 'e ToolLibs \<Rightarrow> rstr \<Rightarrow> (RequestContext \<times> ToolCall) list \<Rightarrow> 'b ToolWorld \<Rightarrow> nat" where
  "messages_of E L u [] w = 0"
| "messages_of E L u ((ctx, c) # calls) w =
     (if subject_of ctx = Some u then length (filter is_message (new_effects (call_tool E L ctx c) w)) else 0)
     + messages_of E L u calls (snd (call_tool E L ctx c w))"

lemma call_messages:
  "length (filter is_message (new_effects (call_tool E L ctx c) w)) \<le> granted_writes (new_effects (call_tool E L ctx c) w)"
proof -
  obtain s' where "run_monitor (policy (category_of c) (tool_name c = ''set_audit_room'')) nothing_granted
      (new_effects (call_tool E L ctx c) w) = Some s'" by (rule call_run)
  from run_policy(1-3) [OF this] show ?thesis by (simp add: nothing_granted_def granted_writes_def)
qed

lemma messages_within_budget:
  assumes "\<And>h. te_now E h \<in> W" and "within_budget (te_take E) W (write_bucket E u w) n"
  shows "messages_of E L u calls w \<le> n"
  using assms(2)
proof (induction calls arbitrary: w n)
  case (Cons x calls)
  obtain ctx c where x: "x = (ctx, c)" by (cases x)
  have "(tool_step E ctx)\<^sup>*\<^sup>* w (snd (call_tool E L ctx c w))" using call_tool_steps [of E ctx L c] by (simp add: in_steps_def)
  from steps_budget [OF this assms(1) Cons.prems] obtain es k where
    k: "tw_trace (snd (call_tool E L ctx c w)) = tw_trace w @ es"
      "k = (if subject_of ctx = Some u then granted_writes es else 0)" "k \<le> n"
      "within_budget (te_take E) W (write_bucket E u (snd (call_tool E L ctx c w))) (n - k)" by blast
  have "new_effects (call_tool E L ctx c) w = es" using k(1) by (simp add: new_effects_def)
  with call_messages [of E L ctx c w] k(2)
  have "(if subject_of ctx = Some u then length (filter is_message (new_effects (call_tool E L ctx c) w)) else 0) \<le> k" by simp
  with Cons.IH [OF k(4)] k(3) show ?case by (simp add: x)
qed simp

text \<open>C4: A user cannot send more messages in a period than one bucket grants, whatever tools the user's sessions call, how
  often, in which order, with how many tokens, and whatever other users do in between.\<close>

theorem user_messages_bounded:
  assumes "\<And>ts. set ts \<subseteq> W \<Longrightarrow> length (bucket_allows (te_take E) (te_fresh E quota) ts) \<le> N"
    and "\<And>h. te_now E h \<in> W" and "new_limiter reads quota = Some (tw_limiter w)"
  shows "messages_of E L u calls w \<le> N"
proof (rule messages_within_budget [OF assms(2)])
  have "write_bucket E u w = te_fresh E quota"
    using assms(3) by (auto simp: write_bucket_def new_limiter_def bucket_at_def split: if_splits)
      (metis Limiter.select_convs(2,6) map_of.simps(1) option.simps(4))+
  with assms(1) show "within_budget (te_take E) W (write_bucket E u w) N" by (simp add: within_budget_def)
qed

theorem user_messages_bounded_witness:
  "\<forall>(L :: nat ToolLibs) calls. messages_of kind_env L ''sub'' calls kind_world \<le> 5"
proof (intro allI)
  fix L :: "nat ToolLibs" and calls
  show "messages_of kind_env L ''sub'' calls kind_world \<le> 5"
  proof (rule user_messages_bounded [where W = UNIV and quota = 5 and reads = 5])
    show "length (bucket_allows (te_take kind_env) (te_fresh kind_env 5) ts) \<le> 5" for ts
      using take_once_allows by (simp add: kind_env_def)
  qed (simp_all add: kind_world_def new_limiter_def)
qed

end
