(* ===== verification/ToolAuthority.thy ===== *)
theory ToolAuthority
  imports ToolPolicy
begin

text \<open>
  Effects that need an answer of the homeserver first: an edit replaces an event of the caller, an
  invitation is accepted in a room the caller is invited to, a cross-signing identity is created only
  where the homeserver and the cache know of none, keys are pulled for a joined encrypted room,
  relations are read in a joined room, and a file is fetched only for an event of a joined room whose
  declared size is within the cap. The monitor's state is the history itself, so each answer is the one
  given at a moment before the effect.
\<close>

section \<open>Authorised effects\<close>

text \<open>\<open>earlier h P\<close>: something was so at a moment of the history.\<close>

definition earlier :: "Effect list \<Rightarrow> (Effect list \<Rightarrow> bool) \<Rightarrow> bool" where
  "earlier h P \<longleftrightarrow> (\<exists>g. prefix g h \<and> P g)"

definition in_state :: "Sdk \<Rightarrow> rstr \<Rightarrow> RoomState \<Rightarrow> Effect list \<Rightarrow> bool" where
  "in_state S r st g \<longleftrightarrow> (\<exists>room. sd_get_room S g r = Some room \<and> rm_state room = st)"

definition own_event :: "Sdk \<Rightarrow> rstr \<Rightarrow> rstr \<Rightarrow> Effect list \<Rightarrow> bool" where
  "own_event S r ev g \<longleftrightarrow> (\<exists>tle u. sd_event S g (GetEvent r ev) = Inr tle \<and> sd_original_sender S tle = Inr u
     \<and> sd_user_id S = Some u)"

definition has_attachment :: "'b ToolEnv \<Rightarrow> rstr \<Rightarrow> rstr \<Rightarrow> Effect list \<Rightarrow> bool" where
  "has_attachment E source r g \<longleftrightarrow> (\<exists>ev tle v mime declared fname b. sd_event (te_sdk E) g (GetEvent r ev) = Inr tle
     \<and> jget (tle_value tle) ''content'' = Some v
     \<and> sd_message_content (te_sdk E) v = Some (MediaMessage source mime declared fname b)
     \<and> (\<forall>n. declared = Some n \<longrightarrow> n \<le> te_download_max E))"

fun authorised :: "'b ToolEnv \<Rightarrow> Effect list \<Rightarrow> Effect \<Rightarrow> bool" where
  "authorised E h (Did (SendReplacement r ev b)) = earlier h (own_event (te_sdk E) r ev)"
| "authorised E h (Did (JoinById r)) = earlier h (in_state (te_sdk E) r Invited)"
| "authorised E h (Did BootstrapIdentity) = (\<exists>me. sd_user_id (te_sdk E) = Some me
     \<and> earlier h (\<lambda>g. sd_identity (te_sdk E) g (QueryIdentity me) = Inr False)
     \<and> earlier h (\<lambda>g. sd_identity (te_sdk E) g (CachedIdentity me) = Inr False))"
| "authorised E h (Asked (PullRoomKeys r)) =
     (earlier h (in_state (te_sdk E) r Joined)
      \<and> earlier h (\<lambda>g. \<exists>room. sd_get_room (te_sdk E) g r = Some room \<and> rm_encrypted room))"
| "authorised E h (Asked (GetRelations r ev t n start)) = earlier h (in_state (te_sdk E) r Joined)"
| "authorised E h (Asked (GetMedia source)) =
     (\<exists>r. earlier h (in_state (te_sdk E) r Joined) \<and> earlier h (has_attachment E source r))"
| "authorised E h e = True"

definition authority :: "'b ToolEnv \<Rightarrow> Effect list \<Rightarrow> Effect \<Rightarrow> Effect list option" where
  "authority E h e = (if authorised E h e then Some (h @ [e]) else None)"

lemma authority_step [simp]: "authority E h e = Some h' \<longleftrightarrow> authorised E h e \<and> h' = h @ [e]"
  by (auto simp: authority_def)

definition at_history :: "Effect list \<Rightarrow> Effect list \<Rightarrow> bool" where
  "at_history h s \<longleftrightarrow> h = s"

lemma consistent_authority [simp]: "consistent at_history (authority E)"
  by (simp add: consistent_def at_history_def)

lemma bookkeeping_authorised: "bookkeeping e \<Longrightarrow> authorised E h e"
  by (cases e) auto

lemma stable_authority [simp]: "stable (authority E) (\<lambda>_. True)"
  by (simp add: stable_def bookkeeping_authorised)

lemma earlier_snoc [simp]: "earlier h P \<Longrightarrow> earlier (h @ es) P"
  by (auto simp: earlier_def prefix_append intro: prefix_order.trans)

lemma earlier_at: "at_history g s \<Longrightarrow> P g \<Longrightarrow> prefix s h \<Longrightarrow> earlier h P"
  by (auto simp: earlier_def at_history_def)

abbreviation guarded :: "'b ToolEnv \<Rightarrow> ('b, 'a) tool \<Rightarrow> bool" where
  "guarded E m \<equiv> \<forall>h. monitored at_history (authority E) h m (\<lambda>_ _. True) (\<lambda>_ _. True)"

section \<open>Loops\<close>

lemma guarded_emit_all:
  assumes "\<And>e h. e \<in> set es \<Longrightarrow> authorised E h e" and "\<And>h. Q () h"
  shows "monitored at_history (authority E) h (emit_allT es) Q R"
  using assms(1)
proof (induction es arbitrary: h)
  case (Cons e es)
  then show ?case unfolding emit_allT.simps by (intro tool_rules) auto
qed (auto intro: tool_rules assms(2))

lemma guarded_tts:
  assumes "\<And>b h. Q b h" and "\<And>e h. R e h"
  shows "monitored at_history (authority E) h (tts_attempts V url v max_bytes n last_err) Q R"
proof (induction n arbitrary: h last_err)
  case 0
  then show ?case using assms by (auto intro: tool_rules)
next
  case (Suc n)
  show ?case unfolding tts_attempts.simps(2)
    using assms Suc.IH by (intro tool_rules) (auto simp del: tts_attempts.simps)
qed

lemma guarded_pages:
  assumes "earlier h (in_state (te_sdk E) room_id Joined)"
  shows "monitored at_history (authority E) h (reaction_pages fuel E room_id ev limit start rs bad) (\<lambda>_ _. True) (\<lambda>_ _. True)"
  using assms
proof (induction fuel arbitrary: h start rs bad)
  case 0
  then show ?case by (auto intro: tool_rules)
next
  case (Suc fuel)
  then show ?case unfolding reaction_pages.simps by (intro tool_rules) auto
qed

lemma fetch_authorised:
  assumes "at_history g s" "sd_get_room (te_sdk E) g r = Some room" "rm_state room = Joined" "prefix s h"
    and "at_history g' s'" "sd_event (te_sdk E) g' (GetEvent r ev) = Inr tle" "prefix s' h"
    and "Option.bind (jget (tle_value tle) ''content'') (sd_message_content (te_sdk E)) =
      Some (MediaMessage source mime declared fname b)"
    and "\<not> (case declared of None \<Rightarrow> False | Some n \<Rightarrow> te_download_max E < n)"
  shows "authorised E h (Asked (GetMedia source))"
proof -
  have "in_state (te_sdk E) r Joined g" using assms(2,3) by (simp add: in_state_def)
  moreover have "has_attachment E source r g'"
    using assms(6,8,9) unfolding has_attachment_def by (fastforce simp: bind_eq_Some_conv)
  ultimately show ?thesis using assms(1,4,5,7) by (auto intro: earlier_at)
qed

lemma guarded_charged_send:
  "monitored at_history (authority E) h (charged_send E ctx text rid) (\<lambda>_ _. True) (\<lambda>_ _. True)"
  unfolding charged_send_def send_text_to_room_def by (intro tool_rules) auto

lemmas auth_rules = tool_rules monitored_envelopes_end guarded_emit_all guarded_tts guarded_pages
  monitored_for [where I = "\<lambda>_. True"]

lemmas auth_facts = in_state_def own_event_def has_attachment_def

section \<open>Handlers\<close>

lemma list_joined_rooms_guarded: "guarded E (list_joined_rooms E ctx)"
  unfolding list_joined_rooms_def
  by (intro allI auth_rules) (auto simp: auth_facts intro: earlier_at)

lemma read_recent_messages_guarded: "guarded E (read_recent_messages E ctx p)"
  unfolding read_recent_messages_def
  by (intro allI auth_rules) (auto simp: auth_facts intro: earlier_at)

lemma read_thread_guarded: "guarded E (read_thread E ctx p)"
  unfolding read_thread_def
  by (intro allI auth_rules) (auto simp: auth_facts intro: earlier_at)

lemma read_reactions_guarded: "guarded E (read_reactions n E ctx p)"
  unfolding read_reactions_def
  by (intro allI auth_rules) (auto simp: auth_facts intro: earlier_at)

lemma verify_status_guarded: "guarded E (verify_status E ctx)"
  unfolding verify_status_def user_identity_def cross_signed_device_def
  by (intro allI auth_rules) (auto simp: auth_facts intro: earlier_at)

lemma room_info_guarded: "guarded E (room_info E ctx r)"
  unfolding room_info_def
  by (intro allI auth_rules) (auto simp: auth_facts intro: earlier_at)

lemma room_members_guarded: "guarded E (room_members E ctx r n)"
  unfolding room_members_def
  by (intro allI auth_rules) (auto simp: auth_facts intro: earlier_at)

lemma get_unread_summary_guarded: "guarded E (get_unread_summary E ctx b)"
  unfolding get_unread_summary_def
  by (intro allI auth_rules) (auto simp: auth_facts intro: earlier_at)

lemma list_recent_activity_guarded: "guarded E (list_recent_activity E ctx p)"
  unfolding list_recent_activity_def
  by (intro allI auth_rules) (auto simp: auth_facts intro: earlier_at)

lemma get_user_receipts_guarded: "guarded E (get_user_receipts E ctx p)"
  unfolding get_user_receipts_def user_receipt_def
  by (intro allI auth_rules) (auto simp: auth_facts intro: earlier_at)

lemma get_event_receipts_guarded: "guarded E (get_event_receipts E ctx r ev)"
  unfolding get_event_receipts_def
  by (intro allI auth_rules) (auto simp: auth_facts intro: earlier_at)

lemma list_threads_in_room_guarded: "guarded E (list_threads_in_room E ctx p)"
  unfolding list_threads_in_room_def
  by (intro allI auth_rules) (auto simp: auth_facts intro: earlier_at)

lemma get_room_state_guarded: "guarded E (get_room_state E ctx p)"
  unfolding get_room_state_def
  by (intro allI auth_rules) (auto simp: auth_facts intro: earlier_at)

lemma list_ignored_users_guarded: "guarded E (list_ignored_users E ctx)"
  unfolding list_ignored_users_def
  by (intro allI auth_rules) (auto simp: auth_facts intro: earlier_at)

lemma admin_get_power_levels_guarded: "guarded E (admin_get_power_levels E ctx r)"
  unfolding admin_get_power_levels_def
  by (intro allI auth_rules) (auto simp: auth_facts intro: earlier_at)

lemma download_attachment_guarded: "guarded E (download_attachment E b64 ctx r ev)"
  unfolding download_attachment_def
  by (intro allI auth_rules) (auto simp del: authorised.simps(6) intro: fetch_authorised)

lemma users_get_profile_guarded: "guarded E (users_get_profile E ctx u)"
  unfolding users_get_profile_def
  by (intro allI auth_rules) (auto simp: auth_facts intro: earlier_at)

lemma search_messages_guarded: "guarded E (search_messages E ctx p)"
  unfolding search_messages_def
  by (intro allI auth_rules) (auto simp: auth_facts intro: earlier_at)

lemma invites_list_guarded: "guarded E (invites_list E ctx)"
  unfolding invites_list_def
  by (intro allI auth_rules) (auto simp: auth_facts intro: earlier_at)

lemma get_account_data_guarded: "guarded E (get_account_data E ctx t)"
  unfolding get_account_data_def
  by (intro allI auth_rules) (auto simp: auth_facts intro: earlier_at)

lemma get_presence_guarded: "guarded E (get_presence E ctx u)"
  unfolding get_presence_def
  by (intro allI auth_rules) (auto simp: auth_facts intro: earlier_at)

lemma get_space_hierarchy_guarded: "guarded E (get_space_hierarchy E ctx p)"
  unfolding get_space_hierarchy_def
  by (intro allI auth_rules) (auto simp: auth_facts intro: earlier_at)

lemma bootstrap_cross_signing_guarded: "guarded E (bootstrap_cross_signing E ctx)"
  unfolding bootstrap_cross_signing_def user_identity_def cross_signed_device_def create_identity_def
  by (intro allI auth_rules) (auto simp: auth_facts intro: earlier_at)

lemma request_room_keys_guarded: "guarded E (request_room_keys E ctx r)"
  unfolding request_room_keys_def
  by (intro allI auth_rules) (auto simp: auth_facts intro: earlier_at)

lemma send_text_message_guarded: "guarded E (send_text_message E ctx p)"
  unfolding send_text_message_def reply_target_def
  by (intro allI auth_rules) (auto simp: auth_facts intro: earlier_at)

lemma message_edit_guarded: "guarded E (message_edit E ctx p)"
  unfolding message_edit_def
  by (intro allI auth_rules) (auto simp: auth_facts intro: earlier_at)

lemma message_forward_guarded: "guarded E (message_forward E ctx p)"
  unfolding message_forward_def
  by (intro allI auth_rules) (auto simp: auth_facts intro: earlier_at)

lemma send_reaction_guarded: "guarded E (send_reaction E ctx p)"
  unfolding send_reaction_def
  by (intro allI auth_rules) (auto simp: auth_facts intro: earlier_at)

lemma redact_message_guarded: "guarded E (redact_message E ctx p)"
  unfolding redact_message_def
  by (intro allI auth_rules) (auto simp: auth_facts intro: earlier_at)

lemma mark_read_guarded: "guarded E (mark_read E ctx p)"
  unfolding mark_read_def
  by (intro allI auth_rules) (auto simp: auth_facts intro: earlier_at)

lemma set_room_name_guarded: "guarded E (set_room_name E ctx p)"
  unfolding set_room_name_def
  by (intro allI auth_rules) (auto simp: auth_facts intro: earlier_at)

lemma set_room_topic_guarded: "guarded E (set_room_topic E ctx p)"
  unfolding set_room_topic_def
  by (intro allI auth_rules) (auto simp: auth_facts intro: earlier_at)

lemma ignore_user_guarded: "guarded E (ignore_user E ctx u)"
  unfolding ignore_user_def
  by (intro allI auth_rules) (auto simp: auth_facts intro: earlier_at)

lemma unignore_user_guarded: "guarded E (unignore_user E ctx u)"
  unfolding unignore_user_def
  by (intro allI auth_rules) (auto simp: auth_facts intro: earlier_at)

lemma admin_set_power_level_guarded: "guarded E (admin_set_power_level E ctx p)"
  unfolding admin_set_power_level_def
  by (intro allI auth_rules) (auto simp: auth_facts intro: earlier_at)

lemma toggle_pin_guarded: "guarded E (toggle_pin E ctx p add)"
  unfolding toggle_pin_def
  by (intro allI auth_rules) (auto simp: auth_facts intro: earlier_at)

lemma send_image_from_url_guarded: "guarded E (send_image_from_url E ctx p)"
  unfolding send_image_from_url_def upload_for_def
  by (intro allI auth_rules) (auto simp: auth_facts intro: earlier_at)

lemma send_media_from_url_guarded: "guarded E (send_media_from_url E ctx r url c f k)"
  unfolding send_media_from_url_def upload_for_def
  by (intro allI auth_rules) (auto simp: auth_facts intro: earlier_at)

lemma send_voice_message_guarded: "guarded E (send_voice_message E ctx p)"
  unfolding send_voice_message_def upload_for_def
  by (intro allI auth_rules) (auto simp: auth_facts intro: earlier_at)

lemma send_tts_voice_message_guarded: "guarded E (send_tts_voice_message E V ctx p)"
  unfolding send_tts_voice_message_def synthesize_tts_def
  by (intro allI auth_rules) (auto simp: auth_facts intro: earlier_at)

lemma me_set_displayname_guarded: "guarded E (me_set_displayname E ctx d)"
  unfolding me_set_displayname_def
  by (intro allI auth_rules) (auto simp: auth_facts intro: earlier_at)

lemma me_set_avatar_guarded: "guarded E (me_set_avatar E ctx u)"
  unfolding me_set_avatar_def upload_image_from_url_def upload_for_def
  by (intro allI auth_rules) (auto simp: auth_facts intro: earlier_at)

lemma join_room_guarded: "guarded E (join_room E ctx t)"
  unfolding join_room_def
  by (intro allI auth_rules) (auto simp: auth_facts intro: earlier_at)

lemma leave_room_guarded: "guarded E (leave_room E ctx r)"
  unfolding leave_room_def
  by (intro allI auth_rules) (auto simp: auth_facts intro: earlier_at)

lemma invite_user_guarded: "guarded E (invite_user E ctx r u)"
  unfolding invite_user_def
  by (intro allI auth_rules) (auto simp: auth_facts intro: earlier_at)

lemma room_create_guarded: "guarded E (room_create E ctx p)"
  unfolding room_create_def
  by (intro allI auth_rules) (auto simp: auth_facts intro: earlier_at)

lemma room_create_dm_guarded: "guarded E (room_create_dm E ctx u)"
  unfolding room_create_dm_def
  by (intro allI auth_rules) (auto simp: auth_facts intro: earlier_at)

lemma invites_accept_guarded: "guarded E (invites_accept E ctx r)"
  unfolding invites_accept_def
  by (intro allI auth_rules) (auto simp: auth_facts intro: earlier_at)

lemma invites_reject_guarded: "guarded E (invites_reject E ctx r)"
  unfolding invites_reject_def
  by (intro allI auth_rules) (auto simp: auth_facts intro: earlier_at)

lemma set_account_data_guarded: "guarded E (set_account_data E J ctx t v)"
  unfolding set_account_data_def
  by (intro allI auth_rules) (auto simp: auth_facts intro: earlier_at)

lemma upload_media_from_url_guarded: "guarded E (upload_media_from_url E ctx url)"
  unfolding upload_media_from_url_def upload_for_def
  by (intro allI auth_rules) (auto simp: auth_facts intro: earlier_at)

lemma set_presence_guarded: "guarded E (set_presence E ctx t m)"
  unfolding set_presence_def
  by (intro allI auth_rules) (auto simp: auth_facts intro: earlier_at)

lemma membership_change_guarded: "guarded E (membership_change E ctx p action)"
  unfolding membership_change_def
  by (cases action; intro allI auth_rules) (auto simp: auth_facts intro: earlier_at)

lemma set_audit_room_guarded: "guarded E (set_audit_room E ctx r)"
  unfolding set_audit_room_def
  by (intro allI auth_rules) (auto simp: auth_facts intro: earlier_at)

lemma send_bulk_guarded: "guarded E (send_bulk E ctx p)"
  unfolding send_bulk_def
  by (intro allI auth_rules) (auto intro: guarded_charged_send tool_rules)

lemma send_broadcast_guarded: "guarded E (send_broadcast E ctx p)"
  unfolding send_broadcast_def broadcast_to_def
  by (intro allI auth_rules) (auto intro: guarded_charged_send tool_rules)

section \<open>Every call\<close>

lemma whoami_guarded: "guarded E (whoami E ctx)"
  unfolding whoami_def
  by (intro allI, rule monitored_audited, simp, simp, simp, intro tool_rules) auto

lemma effects_of_guarded: "guarded E m \<Longrightarrow> guarded E (effects_of m)"
  unfolding effects_of_def
  by (intro allI monitored_bind monitored_return, erule allE, erule monitored_mono) (auto intro: monitored_return)

lemmas all_guarded = whoami_guarded list_joined_rooms_guarded read_recent_messages_guarded read_thread_guarded read_reactions_guarded verify_status_guarded room_info_guarded room_members_guarded get_unread_summary_guarded list_recent_activity_guarded get_user_receipts_guarded get_event_receipts_guarded list_threads_in_room_guarded get_room_state_guarded list_ignored_users_guarded admin_get_power_levels_guarded download_attachment_guarded users_get_profile_guarded search_messages_guarded invites_list_guarded get_account_data_guarded get_presence_guarded get_space_hierarchy_guarded bootstrap_cross_signing_guarded request_room_keys_guarded send_text_message_guarded message_edit_guarded message_forward_guarded send_reaction_guarded redact_message_guarded mark_read_guarded set_room_name_guarded set_room_topic_guarded ignore_user_guarded unignore_user_guarded admin_set_power_level_guarded toggle_pin_guarded send_image_from_url_guarded send_media_from_url_guarded send_voice_message_guarded send_tts_voice_message_guarded me_set_displayname_guarded me_set_avatar_guarded join_room_guarded leave_room_guarded invite_user_guarded room_create_guarded room_create_dm_guarded invites_accept_guarded invites_reject_guarded set_account_data_guarded upload_media_from_url_guarded set_presence_guarded membership_change_guarded set_audit_room_guarded send_bulk_guarded send_broadcast_guarded

lemma call_tool_guarded: "guarded E (call_tool E L ctx c)"
  by (cases c; simp only: call_tool.simps send_file_def send_video_def send_audio_def;
      rule effects_of_guarded; rule all_guarded)

lemma run_authority:
  "run_monitor (authority E) h (before @ e # after) = Some s' \<Longrightarrow> authorised E (h @ before) e"
proof (induction before arbitrary: h)
  case Nil
  then show ?case by (auto split: option.splits)
next
  case (Cons x before)
  then show ?case by (fastforce split: option.splits)
qed



end
