(* ===== verification/ToolSpecs.thy ===== *)
theory ToolSpecs
  imports ToolAuthority "HOL-Library.Multiset"
begin

text \<open>
  What single tools return: the pages of \<open>read_reactions\<close>, the order of the activity lists, the
  outcomes of a fan-out, the bound on a download, the attempts at speech.
\<close>

section \<open>Results\<close>

lemma bindT_Inr: "fst (bindT m k w) = Inr b \<longleftrightarrow> (\<exists>a. fst (m w) = Inr a \<and> fst (k a (snd (m w))) = Inr b)"
  by (auto simp: bindT_def split: prod.splits sum.splits)

lemma react_Inr: "fst (react_to_auth_expiry ctx q) = Inr a \<longleftrightarrow> fst q = Inr a"
  by (cases q) (auto simp: react_to_auth_expiry_def split: sum.splits ErrorData.splits)

lemma envelope_Inr [simp]:
  "fst (read_tool E ctx tool rid cnt body w) = Inr a \<longleftrightarrow> fst (body w) = Inr a"
  "fst (write_tool E ctx tool rid body w) = Inr a \<longleftrightarrow> fst (body w) = Inr a"
  "fst (notice_first_tool E ctx tool rid body w) = Inr a \<longleftrightarrow> fst (body w) = Inr a"
proof -
  obtain r w' where p: "react_to_auth_expiry ctx (body w) = (r, w')" by (metis prod.exhaust)
  have "fst (body w) = Inr a \<longleftrightarrow> r = Inr a" using react_Inr [of ctx "body w" a] p by simp
  then show "fst (read_tool E ctx tool rid cnt body w) = Inr a \<longleftrightarrow> fst (body w) = Inr a"
    "fst (write_tool E ctx tool rid body w) = Inr a \<longleftrightarrow> fst (body w) = Inr a"
    "fst (notice_first_tool E ctx tool rid body w) = Inr a \<longleftrightarrow> fst (body w) = Inr a"
    by (simp_all add: read_tool_def write_tool_def notice_first_tool_def p Let_def)
qed

lemma parse_id_Inr: "fst (parse_id err s w) = Inr t \<longleftrightarrow> t = s \<and> err s = None"
  by (auto simp: parse_id_def returnT_def failT_def split: option.splits)

section \<open>Reactions\<close>

text \<open>A server whose pages depend only on the token, and all its pages from one on.\<close>

definition serves_pages :: "Sdk \<Rightarrow> rstr \<Rightarrow> rstr \<Rightarrow> (rstr option \<Rightarrow> RelationsPage) \<Rightarrow> bool" where
  "serves_pages S room_id ev serve \<longleftrightarrow>
     (\<forall>h start. sd_relations S h (GetRelations room_id ev AnnotationRelation MAX_RELATIONS_PAGE start) = Inr (serve start))"

fun all_pages :: "(rstr option \<Rightarrow> RelationsPage) \<Rightarrow> rstr option \<Rightarrow> RelationsPage list \<Rightarrow> bool" where
  "all_pages serve start [] = False"
| "all_pages serve start (p # ps) =
     (p = serve start \<and> (case rp_next p of None \<Rightarrow> ps = [] | Some t \<Rightarrow> all_pages serve (Some t) ps))"

definition page_reactions :: "rstr \<Rightarrow> RelationsPage \<Rightarrow> Reaction list" where
  "page_reactions ev page = fst (reactions_from_chunk (read_events_from_chunk (rp_chunk page)) ev)"

definition page_unreadable :: "rstr \<Rightarrow> RelationsPage \<Rightarrow> nat" where
  "page_unreadable ev page = snd (reactions_from_chunk (read_events_from_chunk (rp_chunk page)) ev)"

text \<open>What a result says of all pages: a truncated one is full, any other is complete.\<close>

definition reports :: "nat \<Rightarrow> Reaction list \<Rightarrow> nat \<Rightarrow> ReadReactionsResult \<Rightarrow> bool" where
  "reports limit rs bad res \<longleftrightarrow> rx_reactions res = take limit rs
     \<and> (if rx_truncated res then length (rx_reactions res) = limit \<and> rx_unreadable res \<le> bad
        else rx_reactions res = rs \<and> rx_unreadable res = bad)"

lemma reaction_pages_step:
  assumes "serves_pages (te_sdk E) room_id ev serve"
  shows "reaction_pages (Suc fuel) E room_id ev limit start reactions bad w =
    (let w = w\<lparr>tw_trace := tw_trace w @ [Asked (GetRelations room_id ev AnnotationRelation MAX_RELATIONS_PAGE start)]\<rparr>;
         page = serve start; reactions = reactions @ page_reactions ev page; bad = bad + page_unreadable ev page
     in if limit \<le> length reactions
        then (Inr (Some \<lparr>rx_reactions = take limit reactions, rx_unreadable = bad,
               rx_truncated = (rp_next page \<noteq> None \<or> limit < length reactions)\<rparr>), w)
        else (case rp_next page of
            Some token \<Rightarrow> reaction_pages fuel E room_id ev limit (Some token) reactions bad w
          | None \<Rightarrow> (Inr (Some \<lparr>rx_reactions = reactions, rx_unreadable = bad, rx_truncated = False\<rparr>), w)))"
  using assms
  by (simp add: serves_pages_def askT_def tryAskT_def bindT_def seeT_def emitT_def labelled_def returnT_def
      page_reactions_def page_unreadable_def Let_def split: prod.split option.split)

declare reaction_pages.simps(2) [simp del]

lemma reaction_pages_reports:
  assumes "serves_pages (te_sdk E) room_id ev serve" and "all_pages serve start ps" and "length ps \<le> fuel"
    and "length reactions < limit"
  shows "\<exists>res. fst (reaction_pages fuel E room_id ev limit start reactions bad w) = Inr (Some res)
     \<and> reports limit (reactions @ concat (map (page_reactions ev) ps)) (bad + sum_list (map (page_unreadable ev) ps)) res"
  using assms(2-)
proof (induction ps arbitrary: start fuel reactions bad w)
  case (Cons p ps)
  then obtain f where f: "fuel = Suc f" by (cases fuel) auto
  from Cons.prems(1) have p: "p = serve start" by simp
  let ?rs = "reactions @ page_reactions ev p"
  show ?case
  proof (cases "limit \<le> length ?rs")
    case True
    have "ps = []" if "rp_next p = None" using Cons.prems(1) that by simp
    with True show ?thesis
      by (auto simp: f reaction_pages_step [OF assms(1)] p [symmetric] Let_def reports_def)
  next
    case False
    show ?thesis
    proof (cases "rp_next p")
      case None
      with Cons.prems(1) have "ps = []" by simp
      with None False show ?thesis
        by (simp add: f reaction_pages_step [OF assms(1)] p [symmetric] Let_def reports_def)
    next
      case (Some token)
      with Cons.prems have "all_pages serve (Some token) ps" "length ps \<le> f" by (simp_all add: f)
      from Cons.IH [OF this, of ?rs "bad + page_unreadable ev p"] False Some show ?thesis
        by (simp add: f reaction_pages_step [OF assms(1)] p [symmetric] Let_def add.assoc)
    qed
  qed
qed simp

lemma read_reactions_loop:
  assumes "fst (read_reactions fuel E ctx p w) = Inr answer"
  obtains v where "fst (reaction_pages fuel E (rx_room_id p) (rx_event_id p)
     (clamp_limit (rx_limit p) MAX_THREAD_LIMIT) None [] 0 v) = Inr answer"
  using assms by (auto simp: read_reactions_def bindT_Inr parse_id_Inr)


definition kind_ask :: ReadReactionsParams where
  "kind_ask = \<lparr>rx_room_id = ''!r:x'', rx_event_id = ''$1'', rx_limit = 50\<rparr>"

lemma kind_reactions:
  "serves_pages (te_sdk kind_env) r ev kind_pages"
  "all_pages kind_pages None [kind_pages None, kind_pages (Some ''t'')]"
  "page_reactions ''$1'' (kind_pages None) = [\<lparr>rn_event_id = Some ''$9'', rn_annotates = ''$1'', rn_sender = Some ''@b:x'',
     rn_key = ''+1'', rn_origin_server_ts = None\<rparr>]"
  "page_unreadable ''$1'' (kind_pages None) = 0"
  "page_reactions ev (kind_pages (Some t)) = []" "page_unreadable ev (kind_pages (Some t)) = 0"
  by (simp add: serves_pages_def kind_env_def kind_sdk_def, simp add: kind_pages_def)
    (simp_all add: page_reactions_def page_unreadable_def kind_pages_def kind_reaction_def read_events_from_chunk_map
      read_event_def status_and_body_def tle_value_def jstr_at_def reaction_of_def Let_def)

lemma kind_loop:
  "fst (reaction_pages 2 kind_env ''!r:x'' ''$1'' 50 None [] 0 v) = Inr (Some
     \<lparr>rx_reactions = page_reactions ''$1'' (kind_pages None), rx_unreadable = 0, rx_truncated = False\<rparr>)"
proof -
  have "rp_next (kind_pages None) = Some ''t''" "rp_next (kind_pages (Some ''t'')) = None" by (simp_all add: kind_pages_def)
  then show ?thesis
    by (simp add: numeral_2_eq_2 reaction_pages_step [OF kind_reactions(1)] kind_reactions Let_def)
qed


text \<open>A server that gives a next page for ever is followed for ever: no fuel is enough.\<close>

lemma reaction_pages_unending:
  assumes "serves_pages (te_sdk E) room_id ev (\<lambda>_. \<lparr>rp_chunk = [], rp_next = Some t\<rparr>)" and "length reactions < limit"
  shows "fst (reaction_pages fuel E room_id ev limit start reactions bad w) = Inr None"
  using assms(2)
proof (induction fuel arbitrary: start bad w)
  case 0
  then show ?case by (simp add: returnT_def)
next
  case (Suc fuel)
  have "page_reactions ev \<lparr>rp_chunk = [], rp_next = Some t\<rparr> = []"
    by (simp add: page_reactions_def read_events_from_chunk_map)
  with Suc show ?case by (simp add: reaction_pages_step [OF assms(1)] Let_def)
qed

section \<open>Activity lists\<close>

lemma latest_first_perm: "mset (latest_first ts xs) = mset xs"
  by (simp add: latest_first_def)

lemma latest_first_set: "set (latest_first ts xs) = set xs"
  by (simp add: latest_first_def)

lemma latest_first_sorted: "sorted_wrt (\<lambda>x y. ts_or_zero (ts y) \<le> ts_or_zero (ts x)) (latest_first ts xs)"
proof -
  have "sorted (map (\<lambda>r. - int (ts_or_zero (ts r))) (latest_first ts xs))" by (simp add: latest_first_def)
  then show ?thesis by (simp add: sorted_map)
qed

text \<open>Rooms of the same time keep the order of the SDK's list.\<close>

lemma latest_first_stable:
  "filter (\<lambda>r. ts_or_zero (ts r) = t) (latest_first ts xs) = filter (\<lambda>r. ts_or_zero (ts r) = t) xs"
  using sort_key_stable [of "\<lambda>r. - int (ts_or_zero (ts r))" "- int t" xs] by (simp add: latest_first_def)

lemma recent_activity_result:
  assumes "fst (list_recent_activity E ctx p w) = Inr (rooms, joined)"
  obtains h where "rooms = take (min (la_limit p) MAX_RECENT_ACTIVITY_LIMIT)
      (latest_first ra_latest_ts (List.map_filter (recent_activity_of p) (sd_joined_rooms (te_sdk E) h)))"
    and "joined = length (sd_joined_rooms (te_sdk E) h)"
  using assms by (auto simp: list_recent_activity_def bindT_Inr seeT_def returnT_def)

text \<open>C25: The activity list has the newest of the joined rooms that pass the filters: it is in the order of their latest
  events, at most 200 and at most what was asked for, no room left out is newer than one listed, and a list shorter
  than the limit leaves none out.\<close>

theorem recent_activity_newest:
  assumes "fst (list_recent_activity E ctx p w) = Inr (rooms, joined)"
  shows "\<exists>h candidates. candidates = List.map_filter (recent_activity_of p) (sd_joined_rooms (te_sdk E) h)
     \<and> joined = length (sd_joined_rooms (te_sdk E) h)
     \<and> length rooms = min (min (la_limit p) 200) (length candidates)
     \<and> mset rooms \<subseteq># mset candidates
     \<and> sorted_wrt (\<lambda>x y. ts_or_zero (ra_latest_ts y) \<le> ts_or_zero (ra_latest_ts x)) rooms
     \<and> (\<forall>x\<in>set rooms. \<forall>y\<in>#mset candidates - mset rooms. ts_or_zero (ra_latest_ts y) \<le> ts_or_zero (ra_latest_ts x))"
proof -
  obtain h where h: "rooms = take (min (la_limit p) MAX_RECENT_ACTIVITY_LIMIT)
      (latest_first ra_latest_ts (List.map_filter (recent_activity_of p) (sd_joined_rooms (te_sdk E) h)))"
    "joined = length (sd_joined_rooms (te_sdk E) h)" using assms by (rule recent_activity_result)
  define cs where "cs = List.map_filter (recent_activity_of p) (sd_joined_rooms (te_sdk E) h)"
  define n where "n = min (la_limit p) MAX_RECENT_ACTIVITY_LIMIT"
  let ?l = "latest_first ra_latest_ts cs"
  have split: "mset cs = mset (take n ?l) + mset (drop n ?l)"
    by (metis append_take_drop_id latest_first_perm mset_append)
  then have rest: "mset cs - mset rooms = mset (drop n ?l)" "mset rooms \<subseteq># mset cs" by (simp_all add: h(1) cs_def n_def)
  have "sorted_wrt (\<lambda>x y. ts_or_zero (ra_latest_ts y) \<le> ts_or_zero (ra_latest_ts x)) (take n ?l @ drop n ?l)"
    using latest_first_sorted by (simp only: append_take_drop_id)
  then have sorted: "sorted_wrt (\<lambda>x y. ts_or_zero (ra_latest_ts y) \<le> ts_or_zero (ra_latest_ts x)) (take n ?l)"
    "\<forall>x\<in>set (take n ?l). \<forall>y\<in>set (drop n ?l). ts_or_zero (ra_latest_ts y) \<le> ts_or_zero (ra_latest_ts x)"
    unfolding sorted_wrt_append by blast+
  have "length ?l = length cs" by (metis latest_first_perm size_mset)
  with h rest sorted show ?thesis
    by (intro exI [of _ h] exI [of _ cs]) (simp add: cs_def n_def MAX_RECENT_ACTIVITY_LIMIT_def)
qed

definition kind_recent :: ListRecentActivityParams where
  "kind_recent = \<lparr>la_limit = 3, la_since = None, la_encrypted_only = True, la_message_events_only = False\<rparr>"

theorem recent_activity_newest_witness:
  "\<exists>rooms joined. fst (list_recent_activity kind_env kind_ctx kind_recent kind_world) = Inr (rooms, joined)
     \<and> joined = 1 \<and> length rooms = 1"
proof -
  have "\<exists>rooms joined. fst (list_recent_activity kind_env kind_ctx kind_recent kind_world) = Inr (rooms, joined)"
    by (simp add: list_recent_activity_def kind_recent_def kind_defs tool_eval)
  then obtain rooms joined where
    r: "fst (list_recent_activity kind_env kind_ctx kind_recent kind_world) = Inr (rooms, joined)" by blast
  have "sd_joined_rooms (te_sdk kind_env) h = [kind_room ''!r:x'']" for h by (simp add: kind_env_def kind_sdk_def)
  moreover have "recent_activity_of kind_recent (kind_room ''!r:x'') \<noteq> None"
    by (simp add: recent_activity_of_def kind_recent_def kind_room_def dropped_as_noise_def)
  ultimately have "joined = 1 \<and> length rooms = 1"
    using recent_activity_newest [OF r] by (auto simp: List.map_filter_def kind_recent_def)
  with r show ?thesis by blast
qed

section \<open>Fan-out\<close>

lemma forT_Inr:
  "fst (forT f xs w) = Inr ys \<Longrightarrow> length ys = length xs \<and> (\<forall>i<length xs. \<exists>v. fst (f (xs ! i) v) = Inr (ys ! i))"
proof (induction xs arbitrary: ys w)
  case (Cons x xs)
  then obtain y zs v where f: "fst (f x w) = Inr y" "fst (forT f xs v) = Inr zs" "ys = y # zs"
    by (auto simp: bindT_Inr returnT_def)
  with Cons.IH [OF f(2)] show ?case by (auto simp: nth_Cons split: nat.split)
qed (simp add: returnT_def)

definition one_outcome :: "rstr \<Rightarrow> SendBulkOutcome \<Rightarrow> bool" where
  "one_outcome rid out \<longleftrightarrow> so_room_id out = rid \<and> (so_event_id out = None \<longleftrightarrow> so_error out \<noteq> None)"

lemma one_outcome_for: "one_outcome rid (outcome_for rid r)"
  by (simp add: one_outcome_def outcome_for_def split: sum.split)

lemma charged_send_outcome: "fst (charged_send E ctx text rid w) = Inr out \<Longrightarrow> one_outcome rid out"
  unfolding charged_send_def bindT_Inr
  by (erule exE conjE)+ (auto simp: bindT_Inr returnT_def one_outcome_for split: sum.splits)

text \<open>C26: A fan-out answers for every room it was given, in that order, with the event sent or with an error, also when
  some of the sends fail or the quota runs out in between; it was given 1 to 20 rooms.\<close>

theorem bulk_answers_every_room:
  assumes "fst (send_bulk E ctx p w) = Inr outs"
  shows "map so_room_id outs = sb_room_ids p \<and> (\<forall>out\<in>set outs. so_event_id out = None \<longleftrightarrow> so_error out \<noteq> None)
    \<and> 1 \<le> length outs \<and> length outs \<le> 20"
proof -
  obtain v where f: "fst (forT (charged_send E ctx (sb_body p)) (sb_room_ids p) v) = Inr outs"
    and n: "sb_room_ids p \<noteq> []" "length (sb_room_ids p) \<le> 20"
    using assms by (auto simp: send_bulk_def bindT_Inr ensureT_def returnT_def failT_def MAX_ROOMS_PER_CALL_def
        split: if_splits)
  note out = forT_Inr [OF f]
  have "one_outcome (sb_room_ids p ! i) (outs ! i)" if "i < length outs" for i
    using out that charged_send_outcome by metis
  then have "so_room_id (outs ! i) = sb_room_ids p ! i \<and> (so_event_id (outs ! i) = None \<longleftrightarrow> so_error (outs ! i) \<noteq> None)"
    if "i < length outs" for i using that unfolding one_outcome_def by blast
  then have "map so_room_id outs = sb_room_ids p" "\<forall>out\<in>set outs. so_event_id out = None \<longleftrightarrow> so_error out \<noteq> None"
    using out by (auto intro: nth_equalityI simp: in_set_conv_nth simp del: not_None_eq)
  with n out show ?thesis by (cases "sb_room_ids p") auto
qed

definition kind_bulk :: SendBulkParams where
  "kind_bulk = \<lparr>sb_room_ids = [''!r:x'', ''!s:x''], sb_body = ''hello''\<rparr>"

theorem bulk_answers_every_room_witness:
  "\<exists>outs. fst (send_bulk kind_env kind_ctx kind_bulk kind_world) = Inr outs \<and> map so_room_id outs = [''!r:x'', ''!s:x'']"
proof -
  have "\<exists>outs. fst (send_bulk kind_env kind_ctx kind_bulk kind_world) = Inr outs"
    by (simp add: send_bulk_def kind_bulk_def charged_send_def send_text_to_room_def outcome_for_def
        validate_text_message_body_def MAX_TEXT_MESSAGE_BODY_BYTES_def MAX_ROOMS_PER_CALL_def kind_defs tool_eval)
  then obtain outs where outs: "fst (send_bulk kind_env kind_ctx kind_bulk kind_world) = Inr outs" ..
  from bulk_answers_every_room [OF this] have "map so_room_id outs = sb_room_ids kind_bulk" by blast
  with outs show ?thesis by (simp add: kind_bulk_def)
qed

section \<open>Downloads\<close>

text \<open>A downloaded file is within the cap, whatever size its event declared, and what is returned describes one and the
  same buffer.\<close>

theorem download_bounded:
  assumes "fst (download_attachment E base64 ctx room_id event_id w) = Inr res"
  shows "\<exists>bytes. da_body_base64 res = base64 bytes \<and> da_size_bytes res = length bytes \<and> length bytes \<le> te_download_max E
     \<and> (\<exists>h source. sd_media (te_sdk E) h source = Media bytes)"
proof -
  have "monitored any_history (\<lambda>_ e. Some ()) () (download_attachment E base64 ctx room_id event_id)
      (\<lambda>res _. \<exists>bytes. da_body_base64 res = base64 bytes \<and> da_size_bytes res = length bytes
         \<and> length bytes \<le> te_download_max E \<and> (\<exists>h source. sd_media (te_sdk E) h source = Media bytes)) (\<lambda>_ _. True)"
    unfolding download_attachment_def
    by (intro tool_rules monitored_envelopes) (auto simp: tolerant_def attachment_result_def)
  then show ?thesis by (rule monitoredE [where w = w]) (use assms in auto)
qed

definition kind_file_env :: "nat ToolEnv" where
  "kind_file_env = kind_env\<lparr>te_sdk := kind_sdk\<lparr>sd_message_content :=
     \<lambda>_. Some (MediaMessage ''mxc://x/1'' None (Some 4) ''f.txt'' ''f.txt'')\<rparr>\<rparr>"

theorem download_bounded_witness:
  "\<exists>res. fst (download_attachment kind_file_env (\<lambda>b. b) kind_ctx ''!r:x'' ''$1'' kind_world) = Inr res
     \<and> da_size_bytes res \<le> 10"
proof -
  have "\<exists>res. fst (download_attachment kind_file_env (\<lambda>b. b) kind_ctx ''!r:x'' ''$1'' kind_world) = Inr res"
    by (simp add: download_attachment_def fetch_media_def tle_value_def kind_file_env_def kind_defs tool_eval)
  then obtain res where res: "fst (download_attachment kind_file_env (\<lambda>b. b) kind_ctx ''!r:x'' ''$1'' kind_world) = Inr res" ..
  have "te_download_max kind_file_env = 10" by (simp add: kind_file_env_def kind_env_def)
  with download_bounded [OF res] have "da_size_bytes res \<le> 10" by auto
  with res show ?thesis by blast
qed

end
