(* ===== verification/Routing.thy ===== *)
theory Routing
  imports Auth Setup ClientCache ToolQuota
begin

text \<open>
  \<open>src/main.rs\<close>: what is built of the configuration, the router, and a request from its
  path to the effects of the tool it calls. The transport of rmcp, which reads the call out of the
  request, is an argument; what axum does with paths and methods is its documented behaviour (a route
  is an exact path, a nested service also owns the paths below its own, \<open>get\<close> answers
  \<open>HEAD\<close> too).
\<close>

section \<open>What is built of the configuration\<close>

text \<open>The text before and after the first occurrence of a separator.\<close>

fun find_str :: "rstr \<Rightarrow> rstr \<Rightarrow> (rstr \<times> rstr) option" where
  "find_str sep [] = (if sep = [] then Some ([], []) else None)"
| "find_str sep (c # s) =
     (if prefix sep (c # s) then Some ([], drop (length sep) (c # s))
      else map_option (\<lambda>(a, b). (c # a, b)) (find_str sep s))"

definition parse_host :: "rstr \<Rightarrow> rstr option" where
  "parse_host url = (case find_str ''://'' url of
      None \<Rightarrow> None
    | Some (_, rest) \<Rightarrow>
        (let after_scheme = (case find_str ''://'' rest of None \<Rightarrow> rest | Some (s, _) \<Rightarrow> s);
             authority = takeWhile (\<lambda>c. c \<notin> set ''/?#'') after_scheme
         in if authority = [] then None else Some authority))"

definition allowed_hosts :: "Config \<Rightarrow> rstr list" where
  "allowed_hosts cfg = [''localhost'', ''127.0.0.1'', ''::1'']
     @ (case parse_host (cfg_resource_url cfg) of None \<Rightarrow> [] | Some h \<Rightarrow> [h])"

definition setup_url :: "Config \<Rightarrow> rstr" where
  "setup_url cfg =
     (let url = cfg_resource_url cfg;
          base = (if suffix ''/mcp'' url then take (length url - 4) url else url)
      in strip_trailing_slash base @ ''/setup'')"

record HttpConfig =
  hc_hosts :: "rstr list"
  hc_origins :: "rstr list option"
  hc_durable :: bool

definition make_http_config :: "Config \<Rightarrow> bool \<Rightarrow> HttpConfig" where
  "make_http_config cfg durable =
     \<lparr>hc_hosts = allowed_hosts cfg,
      hc_origins = (if allowed_origins cfg = [] then None else Some (allowed_origins cfg)), hc_durable = durable\<rparr>"

text \<open>The introspection client as \<open>build_app\<close> makes it of the configuration.\<close>

definition build_mas_client :: "Config \<Rightarrow> 'h MasIntrospectionClient" where
  "build_mas_client cfg = new_mas_client (authorization_server_base cfg) (cfg_resource_url cfg) (cfg_server_name cfg)"

datatype StartError = NoCredentials | NoHttpClient | NoStore | ZeroQuota

text \<open>What the router is made of. The source shares the introspection client and the client cache by reference;
  at the start all copies are equal.\<close>

record ('h, 'ip, 'b, 'p) App =
  app_auth :: "('h, 'ip) AuthState"
  app_setup :: "'h SetupState"
  app_clients :: "'h MatrixClientCache"
  app_registry :: "'p Registry"
  app_gate :: KeyBackupGate
  app_limiter :: "'b Limiter"
  app_initializes :: "'b InitializeLimiter"
  app_http :: HttpConfig
  app_setup_url :: rstr
  app_download_max :: nat
  app_upload_max :: nat
  app_tts :: "TtsConfig option"

text \<open>\<open>http_ok\<close> is whether an HTTP client could be built, and \<open>durable\<close> whether the session
  directory could be opened; the server starts without it.\<close>

definition build_app :: "bool \<Rightarrow> bool \<Rightarrow> Config \<Rightarrow> StartError + ('h, 'ip, 'b, 'p) App" where
  "build_app http_ok durable cfg = (case introspection cfg of
      None \<Rightarrow> Inl NoCredentials
    | Some creds \<Rightarrow>
        if \<not> http_ok then Inl NoHttpClient
        else (case store_config cfg of
          None \<Rightarrow> Inl NoStore
        | Some store \<Rightarrow> (case new_limiter (rate_limit_reads_per_min cfg) (rate_limit_writes_per_min cfg) of
            None \<Rightarrow> Inl ZeroQuota
          | Some limiter \<Rightarrow> Inr \<lparr>
              app_auth = \<lparr>au_config = cfg, au_mas = build_mas_client cfg, au_last_used = [], au_chain = 0\<rparr>,
              app_setup = \<lparr>su_config = cfg, su_mas = build_mas_client cfg, pkce_states = [], sessions = []\<rparr>,
              app_clients = new_client_cache (store_pepper store), app_registry = new_registry,
              app_gate = new_gate, app_limiter = limiter,
              app_initializes = new_initialize_limiter INITIALIZE_REFILL_INTERVAL MAX_INITIALIZES_PER_IDENTITY,
              app_http = make_http_config cfg durable, app_setup_url = setup_url cfg,
              app_download_max = download_max_bytes cfg, app_upload_max = upload_max_bytes cfg,
              app_tts = tts cfg\<rparr>)))"

section \<open>Routes\<close>

datatype Route = HealthRoute | MetadataRoute | SetupIndex | SetupLogin | SetupCallback | SetupForm
  | SetupRecover | IntrospectRoute | McpMount | ChannelMount

definition exact_routes :: "(rstr \<times> Route) list" where
  "exact_routes =
     [(''/health'', HealthRoute),
      (''/.well-known/oauth-protected-resource'', MetadataRoute),
      (''/.well-known/oauth-protected-resource/mcp'', MetadataRoute),
      (''/setup'', SetupIndex), (''/setup/login'', SetupLogin), (''/setup/callback'', SetupCallback),
      (''/setup/form'', SetupForm), (''/setup/recover'', SetupRecover),
      (''/token/introspect'', IntrospectRoute)]"

definition nested :: "rstr \<Rightarrow> rstr \<Rightarrow> bool" where
  "nested p path \<longleftrightarrow> path = p \<or> prefix (p @ ''/'') path"

definition route_of :: "rstr \<Rightarrow> Route option" where
  "route_of path = (case map_of exact_routes path of
      Some r \<Rightarrow> Some r
    | None \<Rightarrow> if nested ''/mcp'' path then Some McpMount
              else if nested ''/channel'' path then Some ChannelMount else None)"

definition protected :: "Route \<Rightarrow> bool" where
  "protected r \<longleftrightarrow> r \<in> {IntrospectRoute, McpMount, ChannelMount}"

definition method_ok :: "Route \<Rightarrow> rstr \<Rightarrow> bool" where
  "method_ok r meth \<longleftrightarrow> (if r = SetupRecover then meth = ''POST'' else meth \<in> {''GET'', ''HEAD''})"

datatype 'ip Answer = NotFound | WrongMethod | Page Route | Guarded Route "'ip Response"

definition build_router ::
  "(Quota \<Rightarrow> 'b) \<Rightarrow> (instant \<Rightarrow> 'b \<Rightarrow> bool \<times> 'b) \<Rightarrow> ('h, 'ip) AuthEnv \<Rightarrow> Request
     \<Rightarrow> ('h, 'ip) AuthState \<times> 'b InitializeLimiter
     \<Rightarrow> 'ip Answer \<times> ('h, 'ip) AuthState \<times> 'b InitializeLimiter" where
  "build_router fresh tk env req sl = (case route_of (req_path req) of
      None \<Rightarrow> (NotFound, sl)
    | Some r \<Rightarrow>
        if protected r then (let (resp, sl) = serve fresh tk env req sl in (Guarded r resp, sl))
        else if method_ok r (req_method req) then (Page r, sl)
        else (WrongMethod, sl))"

section \<open>From a request to a tool\<close>

definition TOOL_ROUTER :: "rstr list" where
  "TOOL_ROUTER =
     [''whoami'', ''list_joined_rooms'', ''read_recent_messages'', ''read_thread'', ''read_reactions'',
     ''send_text_message'', ''message_edit'', ''message_forward'', ''verify_status'',
     ''bootstrap_cross_signing'', ''room_info'', ''room_members'', ''get_unread_summary'',
     ''list_recent_activity'', ''request_room_keys'', ''get_user_receipts'', ''get_event_receipts'',
     ''list_threads_in_room'', ''get_room_state'', ''set_room_name'', ''set_room_topic'', ''ignore_user'',
     ''unignore_user'', ''list_ignored_users'', ''mark_read'', ''send_reaction'', ''redact_message'',
     ''room_kick'', ''room_ban'', ''room_unban'', ''admin_get_power_levels'', ''admin_set_power_level'',
     ''room_pin_message'', ''room_unpin_message'', ''download_attachment'', ''send_image_from_url'',
     ''send_file'', ''send_video'', ''send_audio'', ''send_voice_message'', ''send_tts_voice_message'',
     ''send_bulk'', ''send_broadcast'', ''me_set_displayname'', ''me_set_avatar'', ''users_get_profile'',
     ''search_messages'', ''join_room'', ''leave_room'', ''invite_user'', ''room_create'',
     ''room_create_dm'', ''invites_list'', ''invites_accept'', ''invites_reject'', ''get_account_data'',
     ''set_account_data'', ''upload_media_from_url'', ''get_presence'', ''set_presence'',
     ''get_space_hierarchy'', ''set_audit_room'']"

definition service_factory :: "ServiceMode \<Rightarrow> rstr list" where
  "service_factory mode = (case mode of Full \<Rightarrow> TOOL_ROUTER | Channel \<Rightarrow> into_channel_mode TOOL_ROUTER)"

definition mount_mode :: "Route \<Rightarrow> ServiceMode" where
  "mount_mode r = (if r = ChannelMount then Channel else Full)"

text \<open>\<open>identity_from_ctx\<close> and \<open>token_from_ctx\<close> read the extensions of the request.\<close>

definition context_of :: "Request \<Rightarrow> RequestContext" where
  "context_of req = \<lparr>ctx_identity = ext_identity req, ctx_token = ext_token req\<rparr>"

text \<open>\<open>transport\<close> is the call in a request, if there is one.\<close>

definition serve_tool_request ::
  "(Quota \<Rightarrow> 'b) \<Rightarrow> (instant \<Rightarrow> 'b \<Rightarrow> bool \<times> 'b) \<Rightarrow> ('h, 'ip) AuthEnv \<Rightarrow> 'c ToolEnv \<Rightarrow> 'e ToolLibs
     \<Rightarrow> (Request \<Rightarrow> ToolCall option) \<Rightarrow> Request \<Rightarrow> (('h, 'ip) AuthState \<times> 'b InitializeLimiter) \<times> 'c ToolWorld
     \<Rightarrow> (('h, 'ip) AuthState \<times> 'b InitializeLimiter) \<times> 'c ToolWorld" where
  "serve_tool_request fresh tk env E L transport req slw =
     (case build_router fresh tk env req (fst slw) of
        (Guarded r (Service req'), sl) \<Rightarrow> (case transport req' of
            None \<Rightarrow> (sl, snd slw)
          | Some call \<Rightarrow> (sl, snd (dispatch E L (service_factory (mount_mode r)) (context_of req') call (snd slw))))
      | (_, sl) \<Rightarrow> (sl, snd slw))"

section \<open>The router\<close>

lemma tool_router_complete: "tool_name c \<in> set TOOL_ROUTER"
proof (cases c)
  case (RoomMembership p q)
  then show ?thesis by (cases q) (simp_all add: TOOL_ROUTER_def)
qed (simp_all add: TOOL_ROUTER_def)

lemma introspect_route: "route_of path = Some IntrospectRoute \<Longrightarrow> path = ''/token/introspect''"
  by (auto simp: route_of_def exact_routes_def split: if_splits option.splits)

text \<open>A request reaches a service only with a token that the authorization server has accepted.\<close>

lemma serve_service:
  assumes "fst (serve fresh tk env req sl) = Service req'"
  shows "\<exists>token ident. extract_bearer (h_authorization req) = Some token \<and> verdict_of env token (fst sl) = Inr (Some ident)
    \<and> req' = req\<lparr>ext_identity := Some ident, ext_token := Some token\<rparr> \<and> req_path req \<noteq> ''/token/introspect''"
proof (cases rule: serve_cases [of env req sl fresh tk])
  case (1 resp)
  with assms bearer_auth_rejects [OF 1(1)] show ?thesis by (auto simp: unauthorized_def)
next
  case (2 token ident req'')
  have "ext_token req'' = Some token" "ext_identity req'' = Some ident" by (simp_all add: 2(3))
  then have "token_introspect_handler env req'' st \<noteq> Service r" for st r
    by (simp add: token_introspect_handler_def Let_def)
  with assms have "req' = req''" "req_path req \<noteq> ''/token/introspect''" by (auto simp: 2(5) split: if_splits)
  with 2(1-3) show ?thesis by blast
qed

lemma build_router_service:
  assumes "build_router fresh tk env req sl = (Guarded r (Service req'), sl')"
  shows "route_of (req_path req) = Some r \<and> r \<in> {McpMount, ChannelMount}
    \<and> fst (serve fresh tk env req sl) = Service req'"
proof -
  from assms have r: "route_of (req_path req) = Some r" "protected r" "fst (serve fresh tk env req sl) = Service req'"
    by (auto simp: build_router_def case_prod_unfold Let_def split: option.splits if_splits)
  from serve_service [OF r(3)] introspect_route r(1) have "r \<noteq> IntrospectRoute" by blast
  with r show ?thesis by (auto simp: protected_def)
qed

text \<open>The pages of the router are open to everybody, and an answer of theirs touches neither the authentication
  state nor the limiter of new sessions.\<close>

lemma pages_leave_state: "fst (build_router fresh tk env req sl) \<in> {NotFound, WrongMethod, Page r}
    \<Longrightarrow> snd (build_router fresh tk env req sl) = sl"
  by (auto simp: build_router_def case_prod_unfold Let_def split: option.splits if_splits)

section \<open>Who a tool acts for\<close>

lemma dispatch_acts: "e \<in> set (new_effects (dispatch E L routes ctx call) w) \<Longrightarrow> acts_as ctx e"
  by (auto simp: dispatch_def new_effects_def failT_def call_acts [unfolded new_effects_def] split: if_splits)

text \<open>C12: Whatever a request makes a tool do, it came to a tool mount with a bearer token that the authorization server
  vouches for, and every client, eviction, audit record and key pull is that of the user it names and of that very
  token; on the channel mount, nothing is changed but by a text message, a reaction or a read receipt.\<close>

theorem tools_act_for_the_token_owner:
  assumes "tw_trace (snd (serve_tool_request fresh tk env E L transport req (sl, w))) = tw_trace w @ es" and "e \<in> set es"
  shows "\<exists>token ident. extract_bearer (h_authorization req) = Some token
    \<and> verdict_of env token (fst sl) = Inr (Some ident)
    \<and> acts_as \<lparr>ctx_identity = Some ident, ctx_token = Some token\<rparr> e
    \<and> (route_of (req_path req) = Some McpMount
       \<or> route_of (req_path req) = Some ChannelMount \<and> (changes e \<longrightarrow> channel_write e))"
proof -
  obtain answer sl' where b: "build_router fresh tk env req sl = (answer, sl')" by (metis prod.exhaust)
  show ?thesis
  proof (cases "\<exists>r req' call. answer = Guarded r (Service req') \<and> transport req' = Some call")
    case True
    then obtain r req' call where a: "answer = Guarded r (Service req')" "transport req' = Some call" by blast
    from build_router_service [OF b [unfolded a(1)]]
    have r: "route_of (req_path req) = Some r" "r \<in> {McpMount, ChannelMount}" "fst (serve fresh tk env req sl) = Service req'"
      by simp_all
    from serve_service [OF r(3)] obtain token ident where t: "extract_bearer (h_authorization req) = Some token"
      "verdict_of env token (fst sl) = Inr (Some ident)" "req' = req\<lparr>ext_identity := Some ident, ext_token := Some token\<rparr>"
      by blast
    let ?run = "dispatch E L (service_factory (mount_mode r)) (context_of req') call"
    have "tw_trace (snd (?run w)) = tw_trace w @ es" using assms(1) by (simp add: serve_tool_request_def b a)
    with assms(2) have e: "e \<in> set (new_effects ?run w)" by (simp add: new_effects_def)
    have "changes e \<longrightarrow> channel_write e" if "r = ChannelMount"
      using e that channel_session_confined [of e E L TOOL_ROUTER "context_of req'" call w]
      by (auto simp: service_factory_def mount_mode_def)
    moreover have "acts_as \<lparr>ctx_identity = Some ident, ctx_token = Some token\<rparr> e"
      using dispatch_acts [OF e] by (simp add: context_of_def t(3))
    ultimately show ?thesis using t(1,2) r(1,2) by auto
  next
    case False
    then have "snd (serve_tool_request fresh tk env E L transport req (sl, w)) = w"
      by (auto simp: serve_tool_request_def b split: Answer.split Response.split option.split)
    with assms show ?thesis by simp
  qed
qed

lemma extract_mat: "extract_bearer (Some ''Bearer mat_1'') = Some ''mat_1''"
  by code_simp

text \<open>A session of \<open>/channel\<close> that marks a room as read, for the user its bearer stands for.\<close>

lemma marked_by: "ClientFor (mxid i) t \<in> set (tw_trace (snd (dispatch kind_env L (into_channel_mode TOOL_ROUTER)
    \<lparr>ctx_identity = Some i, ctx_token = Some t\<rparr> (MarkRead kind_mark) kind_world)))"
  by (simp add: dispatch_def into_channel_mode_def CHANNEL_TOOLS_def TOOL_ROUTER_def mark_read_def kind_mark_def kind_defs
      tool_eval)

abbreviation demo_marking :: "nat ToolLibs \<Rightarrow> ((rstr, rstr) AuthState \<times> nat InitializeLimiter) \<times> nat ToolWorld" where
  "demo_marking L \<equiv> serve_tool_request burst take_once (demo_env 5) kind_env L (\<lambda>_. Some (MarkRead kind_mark))
     (demo_request ''POST'' ''/channel'') (demo_state, kind_world)"

theorem tools_act_for_the_token_owner_witness:
  "\<forall>L. \<exists>m. ClientFor m ''mat_1'' \<in> set (tw_trace (snd (demo_marking L)))
     \<and> route_of ''/channel'' = Some ChannelMount"
proof
  fix L :: "nat ToolLibs"
  have "case fst (build_router burst take_once (demo_env 5) (demo_request ''POST'' ''/channel'') demo_state) of
      Guarded r (Service q) \<Rightarrow> r = ChannelMount \<and> ext_identity q \<noteq> None \<and> ext_token q \<noteq> None | _ \<Rightarrow> False"
    by code_simp
  then obtain q i t where "fst (build_router burst take_once (demo_env 5) (demo_request ''POST'' ''/channel'') demo_state)
      = Guarded ChannelMount (Service q)" "context_of q = \<lparr>ctx_identity = Some i, ctx_token = Some t\<rparr>"
    by (auto simp: context_of_def split: Answer.splits Response.splits)
  then have c: "ClientFor (mxid i) t \<in> set (tw_trace (snd (demo_marking L)))"
    using marked_by [of i t L]
    by (simp add: serve_tool_request_def case_prod_unfold service_factory_def mount_mode_def)
  have "h_authorization (demo_request ''POST'' ''/channel'') = Some ''Bearer mat_1''" "req_path (demo_request ''POST'' ''/channel'') = ''/channel''"
    by (simp_all add: demo_request_def)
  moreover have "route_of ''/channel'' = Some ChannelMount" by code_simp
  ultimately have "t = ''mat_1'' \<and> route_of ''/channel'' = Some ChannelMount"
    using tools_act_for_the_token_owner [where sl = demo_state and w = kind_world and env = "demo_env 5" and fresh = burst
        and tk = take_once and E = kind_env and L = L and transport = "\<lambda>_. Some (MarkRead kind_mark)"
        and req = "demo_request ''POST'' ''/channel''", OF _ c] extract_mat
    by auto
  with c show "\<exists>m. ClientFor m ''mat_1'' \<in> set (tw_trace (snd (demo_marking L)))
     \<and> route_of ''/channel'' = Some ChannelMount" by auto
qed

section \<open>Start\<close>

lemma find_str_None: "length (filter ((=) CHR ''/'') s) < 2 \<Longrightarrow> find_str ''://'' s = None"
proof (induction s)
  case (Cons c s)
  have "\<not> prefix ''://'' (c # s)" using Cons.prems by (auto simp: prefix_def)
  with Cons show ?case by (auto split: if_splits)
qed simp

lemma no_slash:
  assumes "\<forall>c\<in>set h. c \<notin> set ''/?#''"
  shows "filter ((=) CHR ''/'') h = []" and "takeWhile (\<lambda>c. c \<notin> set ''/?#'') h = h"
    and "takeWhile (\<lambda>c. c \<notin> set ''/?#'') (h @ ''/mcp'') = h"
  using assms by (induction h) auto

lemma parse_host_of:
  assumes "h \<noteq> []" and "\<forall>c\<in>set h. c \<notin> set ''/?#''"
  shows "parse_host (''https://'' @ h) = Some h" and "parse_host (''https://'' @ h @ ''/mcp'') = Some h"
proof -
  note n = no_slash [OF assms(2)]
  have f: "find_str ''://'' (''https://'' @ t) = Some (''https'', t)" for t by simp
  have a: "find_str ''://'' h = None" by (rule find_str_None) (simp add: n(1))
  have b: "find_str ''://'' (h @ ''/mcp'') = None" by (rule find_str_None) (simp add: n(1))
  show "parse_host (''https://'' @ h) = Some h" and "parse_host (''https://'' @ h @ ''/mcp'') = Some h"
    unfolding parse_host_def f a b Let_def option.case prod.case n using assms(1) by (rule if_not_P)+
qed

lemma strip_trailing_slash_id: "\<not> suffix ''/'' s \<Longrightarrow> strip_trailing_slash s = s"
  by (cases s rule: rev_cases) (auto simp: strip_trailing_slash_def)

lemma setup_url_of:
  assumes "h \<noteq> []" and "\<forall>c\<in>set h. c \<notin> set ''/?#''" and "h \<noteq> ''mcp''" and "cfg_resource_url cfg = ''https://'' @ h"
  shows "setup_url cfg = ''https://'' @ h @ ''/setup''"
proof -
  obtain g c where h: "h = g @ [c]" using assms(1) rev_exhaust by blast
  then have "c \<noteq> CHR ''/''" using assms(2) by auto
  then have "\<not> suffix ''/'' (''https://'' @ h)" by (simp add: h suffix_def)
  then have "strip_trailing_slash (''https://'' @ h) = ''https://'' @ h" by (rule strip_trailing_slash_id)
  moreover have "\<not> suffix ''/mcp'' (''https://'' @ h)"
  proof
    assume "suffix ''/mcp'' (''https://'' @ h)"
    then obtain a where "''https://'' @ h = a @ [CHR ''/''] @ ''mcp''" by (auto simp: suffix_def)
    moreover have "CHR ''/'' \<notin> set h" using assms(2) by auto
    ultimately have "h = ''mcp''" by (auto simp: append_eq_append_conv2 Cons_eq_append_conv append_eq_Cons_conv)
    with assms(3) show False by simp
  qed
  ultimately show ?thesis by (simp add: setup_url_def assms(4))
qed

text \<open>A configuration that is read is one the server starts with: its quotas are the limiter's, the store's pepper is
  that of the clients, and for a resource at the root of a host, that host is allowed and the setup page is at the same
  origin as the advertised resource.\<close>

theorem configured_server_starts:
  assumes "from_env env pa fs rng dir = (Inr cfg, dir')"
  shows "\<exists>app st. build_app True durable cfg = Inr app \<and> reads_per_min (app_limiter app) = rate_limit_reads_per_min cfg
    \<and> writes_per_min (app_limiter app) = rate_limit_writes_per_min cfg
    \<and> store_config cfg = Some st \<and> pepper (app_clients app) = store_pepper st \<and> 32 \<le> length (store_pepper st)
    \<and> (\<forall>h. cfg_resource_url cfg = ''https://'' @ h \<and> h \<noteq> [] \<and> h \<noteq> ''mcp'' \<and> (\<forall>c\<in>set h. c \<notin> set ''/?#'') \<longrightarrow>
         h \<in> set (hc_hosts (app_http app)) \<and> app_setup_url app = ''https://'' @ h @ ''/setup''
         \<and> resource (metadata_from_config cfg) = ''https://'' @ h @ ''/mcp'')"
proof -
  from from_env_sound [OF assms] obtain creds st where "introspection cfg = Some creds" "store_config cfg = Some st"
    "32 \<le> length (store_pepper st)" "0 < rate_limit_reads_per_min cfg" "0 < rate_limit_writes_per_min cfg" by auto
  then show ?thesis
    using parse_host_of(1) setup_url_of
    by (auto simp: build_app_def new_limiter_def new_client_cache_def make_http_config_def allowed_hosts_def metadata_from_config_def mcp_resource_def)
qed

text \<open>A host that is just \<open>mcp\<close> is taken for the end of a path.\<close>

lemma setup_url_of_host_mcp: "cfg_resource_url cfg = ''https://mcp'' \<Longrightarrow> setup_url cfg = ''https:/setup''"
  by (simp add: setup_url_def strip_trailing_slash_def suffix_def)

end
