(* ===== verification/ChannelSession.thy ===== *)
theory ChannelSession
  imports ChannelPush Auth ToolInputs
begin

text \<open>
  How a session comes to be pushed to: \<open>on_initialized\<close> and \<open>session_key_from_parts\<close>
  of \<open>src/mcp.rs\<close>. The replay, which the source spawns, runs to its end here.
\<close>

text \<open>The process-wide counter of sessions without an id has 64 bits.\<close>

definition session_key_from_parts :: "rstr option \<Rightarrow> nat \<Rightarrow> rstr \<times> nat" where
  "session_key_from_parts header counter = (case Option.bind header header_to_str of
      Some v \<Rightarrow> (v, counter)
    | None \<Rightarrow> (''anon-'' @ show_nat counter, Suc counter mod 2 ^ 64))"

record SessionParts =
  sp_identity :: "AuthenticatedIdentity option"
  sp_token :: "rstr option"
  sp_session_id :: "rstr option"

text \<open>\<open>for_user\<close> yields the rooms of the client, when there is one.\<close>

definition on_initialized ::
  "ServiceMode \<Rightarrow> SessionParts option \<Rightarrow> 'p \<Rightarrow> (AuthenticatedIdentity \<Rightarrow> rstr \<Rightarrow> ReplayRoom list option)
     \<Rightarrow> 'p World \<Rightarrow> nat \<Rightarrow> 'p Registry \<Rightarrow> 'p sent \<times> nat \<times> 'p Registry" where
  "on_initialized mode parts peer for_user w counter st =
     (if mode \<noteq> Channel then ([], counter, st)
      else case parts of None \<Rightarrow> ([], counter, st)
      | Some parts \<Rightarrow> (case sp_identity parts of None \<Rightarrow> ([], counter, st)
      | Some identity \<Rightarrow>
          (let (key, counter) = session_key_from_parts (sp_session_id parts) counter;
               st = register (w_closed w) (mxid identity) key peer st
           in case sp_token parts of None \<Rightarrow> ([], counter, st)
              | Some token \<Rightarrow> (case for_user identity token of None \<Rightarrow> ([], counter, st)
                | Some rooms \<Rightarrow>
                    (let (_, sent, st) = replay_missed w rooms (mxid identity) st in (sent, counter, st))))))"

section \<open>Keys\<close>

lemma show_nat_inj:
  assumes "show_nat m = show_nat n" and "m < 2 ^ 64" and "n < 2 ^ 64"
  shows "m = n"
proof -
  have "Some m = Some n"
    using parse_digits_show [of 64 m] parse_digits_show [of 64 n] assms by (simp only: if_True)
  then show ?thesis by simp
qed

text \<open>Two sessions without an id never share a key, unless the counter came around between them; a session that
  comes back under its id keeps its key.\<close>

lemma session_keys:
  "m < 2 ^ 64 \<Longrightarrow> n < 2 ^ 64 \<Longrightarrow>
     fst (session_key_from_parts None m) = fst (session_key_from_parts None n) \<longleftrightarrow> m = n"
  "header_to_str v = Some v \<Longrightarrow> session_key_from_parts (Some v) m = (v, m)"
  by (auto simp: session_key_from_parts_def dest: show_nat_inj)

section \<open>Who is registered\<close>

lemma register_peers:
  "peers_of i (register gone m key peer st) \<subseteq> (if i = m then insert peer (peers_of m st) else peers_of i st)"
  using set_hm_insert_sub [of "hm_retain (\<lambda>_ p. \<not> gone p) (entry_or_default (inner st) m)" key peer]
    set_hm_retain_sub [of "\<lambda>_ p. \<not> gone p" "entry_or_default (inner st) m"]
  by (fastforce simp: peers_of_def register_def Let_def entry_insert)

lemma replay_missed_frame:
  fixes w :: "'p World" and st :: "'p Registry"
  shows "sent_to (peers_of m st) (fst (snd (replay_missed w rooms m st)))
    \<and> peers_of i (snd (snd (replay_missed w rooms m st))) \<subseteq> peers_of i st"
proof -
  let ?al = "allowlist (w_now w) (w_later w) (w_config w) m st"
  let ?st2 = "(snd ?al)\<lparr>replaying := m # replaying (snd ?al)\<rparr>"
  let ?rr = "replay_rooms w (take REPLAY_MAX_ROOMS rooms) m (fst ?al) REPLAY_MAX_TOTAL ?st2"
  have p: "peers_of j (s\<lparr>replaying := x\<rparr>) = peers_of j s" for j x and s :: "'p Registry"
    by (rule peers_of_inner) simp
  have a: "peers_of j (snd ?al) = peers_of j st" for j by (rule peers_of_inner) (simp add: allowlist_rest)
  from replay_rooms_frame [of m ?st2 w "take REPLAY_MAX_ROOMS rooms" "fst ?al" REPLAY_MAX_TOTAL]
  have f: "sent_to (peers_of m st) (fst (snd ?rr))" "peers_of i (snd (snd ?rr)) \<subseteq> peers_of i st"
    by (simp_all add: replay_frame_def p a)
  show ?thesis
    using f a by (auto simp: replay_missed_def Let_def case_prod_unfold p sent_to_def)
qed

lemma replay_missed_frameD:
  "(sent, st') = snd (replay_missed w rooms m st) \<Longrightarrow> sent_to (peers_of m st) sent \<and> (\<forall>i. peers_of i st' \<subseteq> peers_of i st)"
  using replay_missed_frame [where m = m and st = st and w = w and rooms = rooms] by (metis fst_conv snd_conv)

text \<open>The handshake of a session on the full mount, or without an authenticated identity, registers nobody and pushes
  nothing. Otherwise the new peer is entered under the identity of the request and nobody else is, and what is
  replayed goes to sessions of that identity.\<close>

theorem on_initialized_registers_own:
  fixes st :: "'p Registry"
  assumes "on_initialized mode parts peer for_user w counter st = (sent, counter', st')"
  shows "(sent, st') = ([], st)
    \<or> mode = Channel \<and> (\<exists>ps identity. parts = Some ps \<and> sp_identity ps = Some identity
        \<and> sent_to (insert peer (peers_of (mxid identity) st)) sent
        \<and> (\<forall>i. peers_of i st' \<subseteq> (if i = mxid identity then insert peer (peers_of i st) else peers_of i st)))"
proof (cases "mode = Channel \<and> (\<exists>ps identity. parts = Some ps \<and> sp_identity ps = Some identity)")
  case False
  with assms show ?thesis by (auto simp: on_initialized_def split: option.splits if_splits)
next
  case True
  then obtain ps identity where p: "mode = Channel" "parts = Some ps" "sp_identity ps = Some identity" by blast
  let ?m = "mxid identity"
  let ?st = "register (w_closed w) ?m (fst (session_key_from_parts (sp_session_id ps) counter)) peer st"
  note r = register_peers [where gone = "w_closed w" and m = ?m and peer = peer and st = st]
  let ?rooms = "\<lambda>t. the (for_user identity t)"
  let ?replay = "\<lambda>t. replay_missed w (?rooms t) ?m ?st"
  have "(sent, st') = (case sp_token ps of None \<Rightarrow> ([], ?st) | Some t \<Rightarrow>
      if for_user identity t = None then ([], ?st) else (fst (snd (?replay t)), snd (snd (?replay t))))"
    using assms by (auto simp: on_initialized_def p Let_def case_prod_unfold split: option.splits)
  then have s: "sent_to (peers_of ?m ?st) sent \<and> (\<forall>i. peers_of i st' \<subseteq> peers_of i ?st)"
    by (auto simp: sent_to_def [of _ "[]"] dest!: replay_missed_frameD split: option.splits if_splits)
  have "peers_of ?m ?st \<subseteq> insert peer (peers_of ?m st)" using r [of ?m] by simp
  with conjunct1 [OF s] have "sent_to (insert peer (peers_of ?m st)) sent" by (rule sent_to_mono)
  moreover have "\<forall>i. peers_of i st' \<subseteq> (if i = ?m then insert peer (peers_of i st) else peers_of i st)"
  proof
    fix i
    have "peers_of i st' \<subseteq> peers_of i ?st" using s by simp
    also have "\<dots> \<subseteq> (if i = ?m then insert peer (peers_of i st) else peers_of i st)"
      using r [of i] by (cases "i = ?m") simp_all
    finally show "peers_of i st' \<subseteq> (if i = ?m then insert peer (peers_of i st) else peers_of i st)" .
  qed
  ultimately show ?thesis using p by auto
qed

end
