(* ===== verification/Spec2Isabelle.thy ===== *)
theory Spec2Isabelle
  imports Prelude Utf8 HashMap TtlMap Json ContentSandbox ChannelText PermissionReply ReadEvents ChannelReplay
    ChannelReply ChannelRegistry PermissionMachine ChannelPush UrlSafety LastUsed RateLimit KeyBackupGate
    SessionStore SessionCap DeviceIdentity Configuration Introspection Auth AuditTrail ClientLoops ClientCache
    SetupPages Setup SetupFlow SetupMachine
    ToolRequests ToolCall ToolInputs VoiceAudio MessageTools RoomTools MediaTools ReadTools AccountTools ToolDispatch
    ToolSample ToolRules ToolPolicy ToolAudit ToolQuota ToolAuthority ToolSpecs Routing
    ChannelSession
begin

text \<open>
  A verification of matrix-mcp, a server that gives a language model access to a Matrix account over
  the Model Context Protocol. A request to \<open>/mcp\<close> or \<open>/channel\<close> carries a
  bearer token, which the authorization server (MAS) is asked about; the identity it names has an SDK
  client, through which tools read and write rooms. A session on \<open>/channel\<close> is also pushed
  to: messages of allowed senders arrive as notifications, and a permission question of the model's
  host goes to a room, whose answer goes back to the session. Everything a stranger wrote is wrapped
  before the model sees it. \<open>/setup\<close> is a browser flow that imports the recovery key.

  Conventions. A Rust \<open>&str\<close> is the list of its UTF-8 bytes, a \<open>HashMap\<close> an
  association list with distinct keys, a time a natural number (seconds, unless the theory says
  otherwise), an error a value of a sum or an option, and an operation on shared state a function
  that returns the state. Machine integers are at their width where the width matters
  (\<open>cache_ttl\<close> computes on 64-bit signed words). What the program asks of the homeserver,
  of the authorization server, of the file system, of a clock, of a random generator, of a hash or
  of a third-party parser is an argument: one function or record per request, universally
  quantified in every theorem. The few laws assumed of such an argument are premises of the theorem.

  Shared layers.
  \<open>Prelude\<close> has the byte strings and the standard-library functions on them;
  \<open>Utf8\<close> validity, character boundaries, \<open>trim\<close> and \<open>split\<close>;
  \<open>HashMap\<close> the maps and the contract \<open>bounded_store\<close> of a map with a cap that
  evicts; \<open>TtlMap\<close> the contract \<open>ttl_map\<close> of one that refuses;
  \<open>Json\<close> the values of \<open>serde_json\<close>.

  Text that reaches the model.
  \<open>ContentSandbox\<close> is \<open>src/content_sandbox.rs\<close>: the escape of role markers and
  delimiters, the wrapper and the injection heuristic. The lemmas show that a wrapped body has one
  frame whatever the body, sender and room are, and that no marker of the tables survives.
  \<open>ReadEvents\<close> is the decoding of timeline and relation chunks in \<open>src/mcp.rs\<close>,
  \<open>ChannelText\<close>, \<open>ChannelReplay\<close> and \<open>ChannelReply\<close> the text side of
  \<open>src/channel.rs\<close>: truncations, classification of live and replayed events and their
  agreement, edits, quotation of the message a reply answers.

  The channel.
  \<open>PermissionReply\<close> has the prompt, the reply pattern (a recogniser with the Unicode case
  folding of the regex crate, proved to accept exactly the documented shapes) and
  \<open>classify_inbound\<close>. \<open>ChannelRegistry\<close> has the registry: peers, cached
  configuration, outstanding prompts; its operations that await a send are split where the source
  holds no lock, and \<open>PermissionMachine\<close> interleaves those parts. \<open>ChannelPush\<close> has
  the handlers of a live message and of a reaction, the replay on attach and the relay of a question
  to a room. The lemmas: only allowed senders are heard and an unreadable configuration allows nobody,
  a verdict is for one outstanding prompt and retires only that, everything is bounded.

  Access.
  \<open>Introspection\<close> (\<open>src/mas.rs\<close>, \<open>src/oauth_metadata.rs\<close>) decides on
  an introspection reply and caches accepted tokens; \<open>Auth\<close> (\<open>src/auth.rs\<close>,
  \<open>src/token_introspect.rs\<close>, the router of \<open>src/main.rs\<close>) is the middleware
  composed as the router composes it, over \<open>LastUsed\<close> (\<open>src/last_used.rs\<close>) and
  \<open>RateLimit\<close> (\<open>src/rate_limit.rs\<close>). \<open>SessionStore\<close>
  (\<open>src/session_store.rs\<close>) persists sessions over a directory whose operations may fail, and
  \<open>SessionCap\<close> (\<open>src/session.rs\<close>) caps those in memory, as a step relation over the
  gate that creation and restoration share. \<open>AuditTrail\<close> (\<open>src/audit.rs\<close>,
  \<open>src/audit_room.rs\<close>) has what a caller's text can put into the log and the user's notices.
  The lemmas: an identity comes only from a reply accepted at most a minute ago, a handler runs only
  for a request with such an identity, and what is recorded is bounded and is not chosen by the client.

  Configuration and clients.
  \<open>DeviceIdentity\<close> (\<open>src/device_identity.rs\<close>) is the device id kept on the volume,
  \<open>Configuration\<close> (\<open>src/config.rs\<close>) the configuration read from the environment. At
  the end of this theory they meet the metadata and the introspection: a token obtained for what is
  advertised is accepted and bound to that device. \<open>ClientCache\<close>
  (\<open>src/matrix_client.rs\<close>) is the cache of SDK clients with the self-heal of a store, as a log
  of what is done to the SDK and the file system: a user is served only the client of that user's
  store and session, and a store is wiped at most once. \<open>ClientLoops\<close> has the sync watchdog,
  which may run for ever and so returns an option, and the bounded wait for a client's keys.

  Fetching and keys.
  \<open>UrlSafety\<close> (\<open>src/url_safety.rs\<close> and the upload path of \<open>src/mcp.rs\<close>)
  has the address denylist, the redirect loop and the capped download; \<open>KeyBackupGate\<close>
  (\<open>src/key_backup_gate.rs\<close>) the permits and cooldowns of key-backup pulls, interleaved.

  Setup.
  \<open>SetupPages\<close> (escapes and pages), \<open>Setup\<close> (every handler of
  \<open>src/setup.rs\<close>), \<open>SetupFlow\<close> (what single requests guarantee) and
  \<open>SetupMachine\<close> (any interleaving of requests of any browsers: an import of a recovery key
  traces back to one sign-in of the same user).

  Locales and their interpretations: \<open>truncation\<close> by the three truncations,
  \<open>bounded_store\<close> by the outstanding prompts and by the last uses, \<open>ttl_map\<close> by both
  pending maps of the setup flow. Step relations: \<open>relay_step\<close>, \<open>gate_step\<close>,
  \<open>mas_step\<close>, \<open>cap_step\<close> and \<open>setup_step\<close>, each with its reachable states
  and an invariant.

  The tools.
  \<open>src/mcp.rs\<close> has the handlers of 62 tools, of one shape: an asynchronous block of early returns,
  followed by the reaction to an expired session, the audit record and the notice to the user.
  \<open>ToolRequests\<close> has the vocabulary: the effects of a call in their order, and the SDK as a
  function of the effects so far and the request. \<open>ToolCall\<close> has the computations
  (\<open>bindT\<close> is the question mark of the source), the quota check, the caller's client,
  \<open>react_to_auth_expiry\<close>, \<open>emit_tool_audit\<close> and \<open>emit_write_notice\<close>, and
  the three orders in which handlers end. \<open>ToolInputs\<close> has the limits, the lenient integers and
  the validators; \<open>VoiceAudio\<close> the WAV parser, the waveform and the Ogg/Opus framing. The
  handlers are in \<open>MessageTools\<close>, \<open>RoomTools\<close>, \<open>MediaTools\<close>,
  \<open>ReadTools\<close> and \<open>AccountTools\<close>; \<open>ToolDispatch\<close> makes one function of
  them, \<open>call_tool\<close>, and the router, which on the channel mount is cut down to eight tools.
  \<open>ToolRules\<close> is a small program logic: a monitor reads the effects of a computation one by
  one, and there is one rule per combinator. Four monitors give the facts about every tool.
  \<open>ToolPolicy\<close>: what a tool may do at all, what it checked before it writes, and what a channel
  session can change. \<open>ToolAudit\<close>: one audit record a call, one notice a write.
  \<open>ToolQuota\<close>: the calls as steps of the rate limiter of \<open>RateLimit\<close>, which bounds what
  a user can send through any sequence of calls. \<open>ToolAuthority\<close>: which answer of the homeserver
  precedes which effect. \<open>ToolSpecs\<close> has the results of single tools. \<open>ToolSample\<close> is a
  concrete service for the witnesses.

  The server.
  \<open>Routing\<close> (\<open>src/main.rs\<close>) has what is built of the configuration, the routes, and
  a request from its path to the effects of the tool it calls: whatever a request makes a tool do is done
  for the user its bearer token stands for. \<open>ChannelSession\<close> is how a session of the channel
  mount comes to be pushed to.

  Bounds and fuel. Loops are structural recursion, except the redirect loop, which counts the hops the
  source allows, the self-heal, which recurs once, the two loops of \<open>ClientLoops\<close>, which
  are partial functions into an option with a theorem that says exactly when they return, the chunks of
  a WAV file, which have a measure, and the pages of \<open>read_reactions\<close>, which have fuel: the
  source puts no bound on them, fuel for as many pages as the server has is enough, and for a server
  that never ends no fuel is. The caps (256 and 64 pending entries, 1,024 last uses, 4,096 session
  files, 256 sessions, 200 rooms of a download, 20 and 50 rooms of a fan-out) are the source's
  constants.

  Not modelled: of \<open>src/main.rs\<close> the listeners, tracing and shutdown; metrics and telemetry (\<open>src/metrics.rs\<close>, \<open>src/telemetry.rs\<close>), the
  initialisation messages of the protocol and the schemas of the tools, the serialisation of results,
  and the logging in every function. A tool's parameters are taken after their deserialisation, of
  which only the lenient integers are modelled. The texts of errors are kept where the code reads
  them again, which it does for internal errors only. A tool call runs as a whole: what other calls
  and the background sync do in between shows in the answers of the SDK, which may depend on the
  effects so far, while the rate limiter and the key-backup gate change only by the call itself. In the
  client cache, calls run one after another: two calls that build the same user's client at once share
  one build in the source, which is not modelled. Timing and memory are outside the model.
\<close>

section \<open>From the environment to an identity\<close>

lemma advertised_scopes_words:
  "validate_device_id (cfg_device_id cfg) \<Longrightarrow> split_whitespace (join '' '' (required_scopes cfg)) = required_scopes cfg"
proof -
  assume "validate_device_id (cfg_device_id cfg)"
  then have "ws_free (cfg_device_id cfg)" by (rule device_id_ws_free)
  moreover have "ws_free ''openid'' \<and> ws_free ''urn:matrix:org.matrix.msc2967.client:api:*''
      \<and> ws_free ''urn:matrix:org.matrix.msc2967.client:device:''" by code_simp
  ultimately have "list_all (\<lambda>w. ws_free w \<and> w \<noteq> []) (required_scopes cfg)"
    unfolding required_scopes_def ws_free_def by (simp only: list_all_append list.pred_inject) simp
  then show ?thesis by (rule split_whitespace_words)
qed

lemma advertised_scope_accepted:
  assumes "validate_device_id (cfg_device_id cfg)"
  shows "has_matrix_scope (Some (join '' '' (required_scopes cfg)))"
    and "device_from_scope (join '' '' (required_scopes cfg)) = Some (cfg_device_id cfg)"
  using advertised_scopes_words [OF assms]
  by (simp_all add: has_matrix_scope_def device_from_scope_def required_scopes_def scan_device_def)



end
